(* ===== verification/Go_Prelude.thy ===== *)
theory Go_Prelude
  imports Main "HOL-Library.Word" "HOL-Library.AList" "HOL-Library.Monad_Syntax"
begin

text \<open>
  Shared vocabulary of the development: the parts of Go and of its standard library that
  the program uses everywhere. Go strings are byte strings, so a \<open>string\<close> (a list of
  characters, each one byte) is exact for everything but the Unicode-aware functions, which
  are modelled on their ASCII part (\<open>strings.TrimSpace\<close>, \<open>strings.Fields\<close>,
  \<open>strings.ToUpper\<close>). A Go map is an association list with distinct keys when the
  code ranges over it (the order of the list is the iteration order, which Go leaves open, and
  every theorem holds for any such list) and a partial function otherwise. Signed 64-bit
  integers are \<open>int\<close> with the wrap-around written out (\<open>wrap64\<close>); unsigned ones are
  words.
\<close>

named_theorems go_str \<open>rewriting of the string functions\<close>
named_theorems go_map \<open>rewriting of the map operations\<close>
named_theorems go_int \<open>rewriting of fixed-width integers\<close>

type_synonym byte = "8 word"
type_synonym u16 = "16 word"
type_synonym u32 = "32 word"
type_synonym u64 = "64 word"
type_synonym ('k, 'v) gomap = "('k \<times> 'v) list"

section \<open>Signed 64-bit integers\<close>

definition wrap64 :: "int \<Rightarrow> int" where
  "wrap64 x = (x + 2 ^ 63) mod 2 ^ 64 - 2 ^ 63"

definition is_i64 :: "int \<Rightarrow> bool" where
  "is_i64 x \<longleftrightarrow> - (2 ^ 63) \<le> x \<and> x < 2 ^ 63"

lemma wrap64_id [go_int]: "is_i64 x \<Longrightarrow> wrap64 x = x"
  by (simp add: wrap64_def is_i64_def)

lemma wrap64_range [go_int]: "is_i64 (wrap64 x)"
proof -
  have "0 \<le> (x + 2 ^ 63) mod 2 ^ 64" and "(x + 2 ^ 63) mod 2 ^ 64 < (2 :: int) ^ 64"
    by simp_all
  then show ?thesis
    by (simp add: wrap64_def is_i64_def)
qed

section \<open>Maps that are iterated\<close>

abbreviation gm_get :: "('k, 'v) gomap \<Rightarrow> 'k \<Rightarrow> 'v option" where
  "gm_get \<equiv> map_of"

abbreviation gm_set :: "'k \<Rightarrow> 'v \<Rightarrow> ('k, 'v) gomap \<Rightarrow> ('k, 'v) gomap" where
  "gm_set \<equiv> AList.update"

abbreviation gm_delete :: "'k \<Rightarrow> ('k, 'v) gomap \<Rightarrow> ('k, 'v) gomap" where
  "gm_delete \<equiv> AList.delete"

definition gm_wf :: "('k, 'v) gomap \<Rightarrow> bool" where
  "gm_wf m \<longleftrightarrow> distinct (map fst m)"

lemma gm_wf_simps [simp, go_map]:
  "gm_wf []"
  "gm_wf m \<Longrightarrow> gm_wf (gm_set k v m)"
  "gm_wf m \<Longrightarrow> gm_wf (gm_delete k m)"
  by (simp_all add: gm_wf_def AList.distinct_update AList.distinct_delete)

lemma gm_get_set [simp, go_map]: "gm_get (gm_set k v m) = (gm_get m)(k \<mapsto> v)"
  by (simp add: AList.update_conv')

lemma gm_get_delete [simp, go_map]: "gm_get (gm_delete k m) = (gm_get m)(k := None)"
  by (simp add: AList.delete_conv')

definition gm_keys :: "('k, 'v) gomap \<Rightarrow> 'k set" where
  "gm_keys m = fst ` set m"

lemma gm_keys_simps [simp, go_map]:
  "gm_keys [] = {}" "gm_keys (kv # m) = insert (fst kv) (gm_keys m)"
  "gm_keys (gm_set k v m) = insert k (gm_keys m)"
  by (simp_all add: gm_keys_def AList.dom_update)

lemma gm_get_in_set: "gm_wf m \<Longrightarrow> gm_get m k = Some v \<longleftrightarrow> (k, v) \<in> set m"
  by (simp add: gm_wf_def)

lemma gm_length: "gm_wf m \<Longrightarrow> length m = card (dom (gm_get m))"
  by (metis distinct_card dom_map_of_conv_image_fst gm_wf_def length_map list.set_map)

lemma map_of_rev_distinct: "distinct (map fst kvs) \<Longrightarrow> map_of (rev kvs) = map_of kvs"
  by (subst map_of_inject_set) (simp_all add: rev_map [symmetric])

section \<open>Strings\<close>

definition hasPrefix :: "'a list \<Rightarrow> 'a list \<Rightarrow> bool" where
  "hasPrefix s p \<longleftrightarrow> take (length p) s = p"

definition hasSuffix :: "'a list \<Rightarrow> 'a list \<Rightarrow> bool" where
  "hasSuffix s p \<longleftrightarrow> hasPrefix (rev s) (rev p)"

definition trimPrefix :: "'a list \<Rightarrow> 'a list \<Rightarrow> 'a list" where
  "trimPrefix s p = (if hasPrefix s p then drop (length p) s else s)"

definition trimSuffix :: "'a list \<Rightarrow> 'a list \<Rightarrow> 'a list" where
  "trimSuffix s p = (if hasSuffix s p then take (length s - length p) s else s)"

definition trimCut :: "'a list \<Rightarrow> 'a list \<Rightarrow> 'a list" where
  "trimCut s cs =
     rev (dropWhile (\<lambda>c. c \<in> set cs) (rev (dropWhile (\<lambda>c. c \<in> set cs) s)))"

definition trimRight :: "'a list \<Rightarrow> 'a list \<Rightarrow> 'a list" where
  "trimRight s cs = rev (dropWhile (\<lambda>c. c \<in> set cs) (rev s))"

definition asciiSpace :: string where
  "asciiSpace = [CHR 0x09, CHR 0x0A, CHR 0x0B, CHR 0x0C, CHR 0x0D, CHR '' '']"

definition trimSpace :: "string \<Rightarrow> string" where
  "trimSpace s = trimCut s asciiSpace"

fun splitC :: "char \<Rightarrow> string \<Rightarrow> string list" where
  "splitC c [] = [[]]"
| "splitC c (x # xs) =
     (if x = c then [] # splitC c xs
      else (case splitC c xs of [] \<Rightarrow> [[x]] | f # fs \<Rightarrow> (x # f) # fs))"

fun joinC :: "char \<Rightarrow> string list \<Rightarrow> string" where
  "joinC c [] = []"
| "joinC c [f] = f"
| "joinC c (f # g # fs) = f @ c # joinC c (g # fs)"

text \<open>\<open>strings.SplitN(s, c, 2)\<close>: one field, or the two sides of the first separator.\<close>

definition splitN2 :: "char \<Rightarrow> string \<Rightarrow> string list" where
  "splitN2 c s =
     (if c \<in> set s
      then [takeWhile (\<lambda>x. x \<noteq> c) s, tl (dropWhile (\<lambda>x. x \<noteq> c) s)]
      else [s])"

text \<open>\<open>strings.Split(s, sep)\<close> for a separator of several bytes; \<open>acc\<close> is the
  current field, reversed. The program never splits by the empty string.\<close>

function splitStr :: "string \<Rightarrow> string \<Rightarrow> string \<Rightarrow> string list" where
  "splitStr sep acc s =
     (case s of
        [] \<Rightarrow> [rev acc]
      | x # xs \<Rightarrow>
          if sep \<noteq> [] \<and> hasPrefix s sep
          then rev acc # splitStr sep [] (drop (length sep) s)
          else splitStr sep (x # acc) xs)"
  by pat_completeness auto
termination
proof (relation "measure (\<lambda>(sep, acc, s). length s)", goal_cases)
  case (2 sep acc s x xs)
  then show ?case by (cases sep) auto
qed auto

declare splitStr.simps [simp del]

fun indexOf :: "'a list \<Rightarrow> 'a list \<Rightarrow> nat option" where
  "indexOf p s =
     (if hasPrefix s p then Some 0
      else (case s of [] \<Rightarrow> None | x # xs \<Rightarrow> map_option Suc (indexOf p xs)))"

declare indexOf.simps [simp del]

definition contains :: "'a list \<Rightarrow> 'a list \<Rightarrow> bool" where
  "contains s p \<longleftrightarrow> indexOf p s \<noteq> None"

text \<open>\<open>strings.Replace(s, old, new, 1)\<close> and \<open>strings.Replace(s, a, b, -1)\<close> for
  single bytes.\<close>

definition replace1 :: "string \<Rightarrow> string \<Rightarrow> string \<Rightarrow> string" where
  "replace1 s old new =
     (case indexOf old s of None \<Rightarrow> s
      | Some i \<Rightarrow> take i s @ new @ drop (i + length old) s)"

definition replaceC :: "char \<Rightarrow> char \<Rightarrow> string \<Rightarrow> string" where
  "replaceC a b s = map (\<lambda>c. if c = a then b else c) s"

function fieldsFunc :: "(char \<Rightarrow> bool) \<Rightarrow> string \<Rightarrow> string list" where
  "fieldsFunc p [] = []"
| "fieldsFunc p (x # xs) =
     (if p x then fieldsFunc p xs
      else (takeWhile (\<lambda>c. \<not> p c) (x # xs)) # fieldsFunc p (dropWhile (\<lambda>c. \<not> p c) xs))"
  by pat_completeness auto
termination
  by (relation "measure (\<lambda>(p, s). length s)") (auto simp: length_dropWhile_le le_imp_less_Suc)

definition fields :: "string \<Rightarrow> string list" where
  "fields s = fieldsFunc (\<lambda>c. c \<in> set asciiSpace) s"

definition toUpperC :: "char \<Rightarrow> char" where
  "toUpperC c = (let n = of_char c :: nat in if 97 \<le> n \<and> n \<le> 122 then char_of (n - 32) else c)"

definition toLowerC :: "char \<Rightarrow> char" where
  "toLowerC c = (let n = of_char c :: nat in if 65 \<le> n \<and> n \<le> 90 then char_of (n + 32) else c)"

definition toUpper :: "string \<Rightarrow> string" where
  "toUpper s = map toUpperC s"

definition toLower :: "string \<Rightarrow> string" where
  "toLower s = map toLowerC s"

text \<open>Decimal printing of a non-negative number (\<open>%d\<close>, \<open>strconv.Itoa\<close>).\<close>

definition digitC :: "nat \<Rightarrow> char" where
  "digitC d = char_of (48 + d)"

fun showNat :: "nat \<Rightarrow> string" where
  "showNat n = (if n < 10 then [digitC n] else showNat (n div 10) @ [digitC (n mod 10)])"

declare showNat.simps [simp del]

definition showInt :: "int \<Rightarrow> string" where
  "showInt i = (if i < 0 then ''-'' @ showNat (nat (- i)) else showNat (nat i))"

subsection \<open>Lemmas\<close>

lemma hasPrefix_append [simp, go_str]: "hasPrefix (p @ s) p"
  by (simp add: hasPrefix_def)

lemma hasPrefix_iff: "hasPrefix s p \<longleftrightarrow> (\<exists>t. s = p @ t)"
  unfolding hasPrefix_def by (metis append_eq_conv_conj append_take_drop_id)

lemma hasPrefix_Cons [simp, go_str]:
  "hasPrefix s []"
  "hasPrefix (x # s) (y # p) \<longleftrightarrow> x = y \<and> hasPrefix s p"
  "\<not> hasPrefix [] (y # p)"
  by (auto simp: hasPrefix_def)

lemma hasPrefix_length: "hasPrefix s p \<Longrightarrow> length p \<le> length s"
  by (auto simp: hasPrefix_iff)

lemma trimPrefix_append [simp, go_str]: "trimPrefix (p @ s) p = s"
  by (simp add: trimPrefix_def)

lemma hasSuffix_append [simp, go_str]: "hasSuffix (s @ p) p"
  by (simp add: hasSuffix_def hasPrefix_def)

lemma trimSuffix_append [simp, go_str]: "trimSuffix (s @ p) p = s"
  by (simp add: trimSuffix_def)

lemma splitC_not_Nil [simp]: "splitC c s \<noteq> []"
  by (induction s) (auto split: list.splits)

lemma joinC_Cons_Cons [simp]: "joinC c ((x # f) # fs) = x # joinC c (f # fs)"
  by (cases fs) simp_all

lemma joinC_Nil_Cons: "fs \<noteq> [] \<Longrightarrow> joinC c ([] # fs) = c # joinC c fs"
  by (cases fs) simp_all

lemma join_splitC [simp, go_str]: "joinC c (splitC c s) = s"
  by (induction s) (auto simp: joinC_Nil_Cons split: list.splits)

lemma splitC_no_sep: "f \<in> set (splitC c s) \<Longrightarrow> c \<notin> set f"
proof (induction s arbitrary: f)
  case (Cons x s)
  then show ?case
    by (cases "splitC c s") (auto split: if_splits)
qed simp

lemma splitC_single: "c \<notin> set f \<Longrightarrow> splitC c f = [f]"
  by (induction f) auto

lemma splitC_append: "c \<notin> set f \<Longrightarrow> splitC c (f @ c # s) = f # splitC c s"
  by (induction f) auto

lemma splitC_join:
  "fs \<noteq> [] \<Longrightarrow> \<forall>f \<in> set fs. c \<notin> set f \<Longrightarrow> splitC c (joinC c fs) = fs"
  by (induction c fs rule: joinC.induct) (auto simp: splitC_single splitC_append)

lemma splitN2_found: "c \<notin> set k \<Longrightarrow> splitN2 c (k @ c # v) = [k, v]"
proof -
  assume *: "c \<notin> set k"
  then have "takeWhile (\<lambda>x. x \<noteq> c) (k @ c # v) = k"
    and "dropWhile (\<lambda>x. x \<noteq> c) (k @ c # v) = c # v"
    by (auto simp: takeWhile_append dropWhile_append)
  then show ?thesis by (simp add: splitN2_def)
qed

lemma splitN2_not_found: "c \<notin> set s \<Longrightarrow> splitN2 c s = [s]"
  by (simp add: splitN2_def)

lemma splitN2_length: "length (splitN2 c s) = (if c \<in> set s then 2 else 1)"
  by (simp add: splitN2_def)

lemma showNat_digits: "set (showNat n) \<subseteq> {digitC d | d. d < 10}"
proof (induction n rule: showNat.induct)
  case (1 n)
  show ?case
  proof (cases "n < 10")
    case True
    then show ?thesis by (subst showNat.simps) auto
  next
    case False
    moreover have "n mod 10 < 10" by simp
    ultimately show ?thesis using 1 by (subst showNat.simps) auto
  qed
qed

lemma showNat_not_Nil [simp]: "showNat n \<noteq> []"
  by (subst showNat.simps) simp

lemma of_char_digitC [simp]: "d < 10 \<Longrightarrow> (of_char (digitC d) :: nat) = 48 + d"
  by (simp add: digitC_def)

lemma indexOf_Nil [simp]: "indexOf p [] = (if p = [] then Some 0 else None)"
  by (cases p) (simp_all add: indexOf.simps)

lemma indexOf_Cons:
  "indexOf p (x # s) = (if hasPrefix (x # s) p then Some 0 else map_option Suc (indexOf p s))"
  by (subst indexOf.simps) simp

lemma indexOf_char: "x \<notin> set p \<Longrightarrow> indexOf [x] (p @ x # s) = Some (length p)"
  by (induction p) (auto simp: indexOf_Cons)

lemma indexOf_char_None: "x \<notin> set s \<Longrightarrow> indexOf [x] s = None"
  by (induction s) (auto simp: indexOf_Cons)

lemma indexOf_sound: "indexOf p s \<noteq> None \<Longrightarrow> \<exists>a b. s = a @ p @ b"
proof (induction s)
  case (Cons x s)
  show ?case
  proof (cases "hasPrefix (x # s) p")
    case True
    then show ?thesis by (auto simp: hasPrefix_iff intro: exI [of _ "[]"])
  next
    case False
    then have "indexOf p s \<noteq> None" using Cons.prems by (auto simp: indexOf_Cons)
    then obtain a b where "s = a @ p @ b" using Cons.IH by blast
    then have "x # s = (x # a) @ p @ b" by simp
    then show ?thesis by blast
  qed
qed (auto split: if_splits)

lemma indexOf_complete: "indexOf p (a @ p @ b) \<noteq> None"
proof (induction a)
  case Nil
  then show ?case by (subst indexOf.simps) simp
qed (auto simp: indexOf_Cons)

lemma contains_iff: "contains s p \<longleftrightarrow> (\<exists>a b. s = a @ p @ b)"
  unfolding contains_def using indexOf_sound indexOf_complete by metis

lemma contains_set: "contains s p \<Longrightarrow> set p \<subseteq> set s"
  by (auto simp: contains_iff)

end
