(* ===== verification/Concurrent_Map.thy ===== *)
theory Concurrent_Map
  imports Go_Prelude "HOL-Library.Multiset"
begin

text \<open>
  The sharded string map of \<open>utils/map.go\<close>: a slice of 32 shards, each a Go map behind its
  own lock, a key living in the shard its FNV hash selects. Every operation takes the lock of
  one shard for its whole critical section, so an operation is one atomic state change here; an
  out-of-range shard index (a map not made by \<open>NewConcurrentMap\<close>) is the run-time panic
  \<open>None\<close>. The iterators send the shards' entries through one goroutine per shard; their
  interleaving is the step relation \<open>fan_step\<close>. The locale \<open>map_store\<close> is the
  contract the rest of the program relies on, interpreted on the shards at the end.
\<close>

unbundle bit_operations_syntax

section \<open>The interface of a keyed store\<close>

fun insertAll :: "('m \<Rightarrow> 'k \<Rightarrow> 'v \<Rightarrow> 'm option) \<Rightarrow> 'm \<Rightarrow> ('k \<times> 'v) list \<Rightarrow> 'm option" where
  "insertAll ins m [] = Some m"
| "insertAll ins m ((k, v) # kvs) = do { m' \<leftarrow> ins m k v; insertAll ins m' kvs }"

locale map_store =
  fixes invar :: "'m \<Rightarrow> bool"
    and abs :: "'m \<Rightarrow> 'k \<Rightarrow> 'v option"
    and empty :: "'m"
    and insert :: "'m \<Rightarrow> 'k \<Rightarrow> 'v \<Rightarrow> 'm option"
    and insertNew :: "'m \<Rightarrow> 'k \<Rightarrow> 'v \<Rightarrow> (bool \<times> 'm) option"
    and lookup :: "'m \<Rightarrow> 'k \<Rightarrow> 'v option option"
    and remove :: "'m \<Rightarrow> 'k \<Rightarrow> 'm option"
    and size :: "'m \<Rightarrow> nat option"
  assumes empty_ok: "invar empty" "abs empty = Map.empty"
    and insert_ok: "invar m \<Longrightarrow> \<exists>m'. insert m k v = Some m' \<and> invar m' \<and> abs m' = (abs m)(k \<mapsto> v)"
    and insertNew_ok: "invar m \<Longrightarrow> \<exists>m'. insertNew m k v = Some (abs m k = None, m') \<and> invar m' \<and>
          abs m' = (if abs m k = None then (abs m)(k \<mapsto> v) else abs m)"
    and lookup_ok: "invar m \<Longrightarrow> lookup m k = Some (abs m k)"
    and remove_ok: "invar m \<Longrightarrow> \<exists>m'. remove m k = Some m' \<and> invar m' \<and> abs m' = (abs m)(k := None)"
    and size_ok: "invar m \<Longrightarrow> size m = Some (card (dom (abs m)))"
begin

lemma insert_run:
  "invar m \<Longrightarrow> insert m k v = Some m' \<Longrightarrow> invar m' \<and> abs m' = (abs m)(k \<mapsto> v)"
  using insert_ok [of m k v] by auto

lemma insertNew_run:
  "invar m \<Longrightarrow> insertNew m k v = Some (b, m') \<Longrightarrow>
     invar m' \<and> b = (abs m k = None) \<and> abs m' = (if b then (abs m)(k \<mapsto> v) else abs m)"
  using insertNew_ok [of m k v] by auto

lemma insertAll_ok:
  "invar m \<Longrightarrow> \<exists>m'. insertAll insert m kvs = Some m' \<and> invar m' \<and> abs m' = abs m ++ map_of (rev kvs)"
proof (induction kvs arbitrary: m)
  case (Cons kv kvs)
  obtain k v where kv: "kv = (k, v)" by (cases kv)
  obtain m1 where m1: "insert m k v = Some m1" "invar m1" "abs m1 = (abs m)(k \<mapsto> v)"
    using insert_ok [OF Cons.prems, of k v] by blast
  obtain m' where "insertAll insert m1 kvs = Some m'" "invar m'"
      "abs m' = abs m1 ++ map_of (rev kvs)"
    using Cons.IH [OF m1(2)] by blast
  with m1 kv show ?case
    by (auto simp: map_add_def fun_eq_iff split: option.splits)
qed simp

lemma lookup_after_insert:
  "invar m \<Longrightarrow> insert m k v = Some m' \<Longrightarrow>
     lookup m' k = Some (Some v) \<and> (\<forall>k'. k' \<noteq> k \<longrightarrow> lookup m' k' = lookup m k')"
  using insert_run [of m k v m'] by (auto simp: lookup_ok)

lemma insertNew_keeps:
  "invar m \<Longrightarrow> insertNew m k v = Some (b, m') \<Longrightarrow> abs m k' = Some v' \<Longrightarrow> abs m' k' = Some v'"
  using insertNew_run [of m k v b m'] by (auto split: if_splits)

end

section \<open>The sharded map\<close>

definition SHARD_COUNT :: nat where
  "SHARD_COUNT = 32"

record 'v shard =
  items :: "(string, 'v) gomap"

type_synonym 'v cmap = "'v shard list"

definition fnv32 :: "string \<Rightarrow> u32" where
  "fnv32 key = foldl (\<lambda>hash c. (hash * 16777619) XOR of_char c) 2166136261 key"

definition NewConcurrentMap :: "'v cmap" where
  "NewConcurrentMap = replicate SHARD_COUNT \<lparr>items = []\<rparr>"

definition shardIndex :: "string \<Rightarrow> nat" where
  "shardIndex key = unat (fnv32 key) mod SHARD_COUNT"

definition GetShard :: "'v cmap \<Rightarrow> string \<Rightarrow> 'v shard option" where
  "GetShard m key = (if shardIndex key < length m then Some (m ! shardIndex key) else None)"

text \<open>Storing the new contents of the shard of \<open>key\<close>, done under that shard's lock.\<close>

definition putShard :: "'v cmap \<Rightarrow> string \<Rightarrow> (string, 'v) gomap \<Rightarrow> 'v cmap" where
  "putShard m key its = m[shardIndex key := \<lparr>items = its\<rparr>]"

definition CSet :: "'v cmap \<Rightarrow> string \<Rightarrow> 'v \<Rightarrow> 'v cmap option" where
  "CSet m key value = do {
     sh \<leftarrow> GetShard m key;
     Some (putShard m key (gm_set key value (items sh))) }"

fun MSet :: "'v cmap \<Rightarrow> (string, 'v) gomap \<Rightarrow> 'v cmap option" where
  "MSet m [] = Some m"
| "MSet m ((key, value) # data) = do {
     sh \<leftarrow> GetShard m key;
     MSet (putShard m key (gm_set key value (items sh))) data }"

text \<open>The callback of \<open>Upsert\<close> sees whether the key is there, its value (nil when it is
  not) and the new value.\<close>

definition Upsert ::
  "'v cmap \<Rightarrow> string \<Rightarrow> 'v \<Rightarrow> (bool \<Rightarrow> 'v option \<Rightarrow> 'v \<Rightarrow> 'v) \<Rightarrow> ('v \<times> 'v cmap) option" where
  "Upsert m key value cb = do {
     sh \<leftarrow> GetShard m key;
     let v = gm_get (items sh) key;
     let res = cb (v \<noteq> None) v value;
     Some (res, putShard m key (gm_set key res (items sh))) }"

definition SetIfAbsent :: "'v cmap \<Rightarrow> string \<Rightarrow> 'v \<Rightarrow> (bool \<times> 'v cmap) option" where
  "SetIfAbsent m key value = do {
     sh \<leftarrow> GetShard m key;
     let ok = gm_get (items sh) key \<noteq> None;
     Some (\<not> ok, if \<not> ok then putShard m key (gm_set key value (items sh)) else m) }"

definition CGet :: "'v cmap \<Rightarrow> string \<Rightarrow> 'v option option" where
  "CGet m key = do { sh \<leftarrow> GetShard m key; Some (gm_get (items sh) key) }"

function countFrom :: "'v cmap \<Rightarrow> nat \<Rightarrow> nat \<Rightarrow> nat option" where
  "countFrom m i cnt =
     (if i < SHARD_COUNT
      then if i < length m then countFrom m (Suc i) (cnt + length (items (m ! i))) else None
      else Some cnt)"
  by pat_completeness auto
termination
  by (relation "measure (\<lambda>(m, i, cnt). SHARD_COUNT - i)") auto

declare countFrom.simps [simp del]

definition Count :: "'v cmap \<Rightarrow> nat option" where
  "Count m = countFrom m 0 0"

definition Has :: "'v cmap \<Rightarrow> string \<Rightarrow> bool option" where
  "Has m key = do { sh \<leftarrow> GetShard m key; Some (gm_get (items sh) key \<noteq> None) }"

definition CRemove :: "'v cmap \<Rightarrow> string \<Rightarrow> 'v cmap option" where
  "CRemove m key = do {
     sh \<leftarrow> GetShard m key;
     Some (putShard m key (gm_delete key (items sh))) }"

definition Pop :: "'v cmap \<Rightarrow> string \<Rightarrow> ('v option \<times> 'v cmap) option" where
  "Pop m key = do {
     sh \<leftarrow> GetShard m key;
     Some (gm_get (items sh) key, putShard m key (gm_delete key (items sh))) }"

definition IsEmpty :: "'v cmap \<Rightarrow> bool option" where
  "IsEmpty m = do { n \<leftarrow> Count m; Some (n = 0) }"

text \<open>The iterators. \<open>snapshot\<close> fills one closed channel per shard; a state of
  \<open>fanIn\<close> is the channels not yet drained and what was sent to \<open>out\<close>.\<close>

definition snapshot :: "'v cmap \<Rightarrow> (string \<times> 'v) list list" where
  "snapshot m = map items m"

inductive fan_step :: "'t list list \<times> 't list \<Rightarrow> 't list list \<times> 't list \<Rightarrow> bool" where
  recv: "i < length chans \<Longrightarrow> chans ! i = t # ts \<Longrightarrow>
         fan_step (chans, out) (chans[i := ts], out @ [t])"

inductive_cases fan_stepE: "fan_step (chans, out) s"

definition fanIn :: "'t list list \<Rightarrow> 't list \<Rightarrow> bool" where
  "fanIn chans out \<longleftrightarrow>
     (\<exists>chans'. fan_step\<^sup>*\<^sup>* (chans, []) (chans', out) \<and> (\<forall>c \<in> set chans'. c = []))"

definition ItemsOf :: "(string \<times> 'v) list \<Rightarrow> (string, 'v) gomap" where
  "ItemsOf out = foldl (\<lambda>tmp (k, v). gm_set k v tmp) [] out"

text \<open>\<open>Items\<close> collects what \<open>IterBuffered\<close> yields; any complete run of the fan-in is
  a possible iteration. \<open>Keys\<close> fans in the keys of the shards the same way.\<close>

definition Items :: "'v cmap \<Rightarrow> (string, 'v) gomap \<Rightarrow> bool" where
  "Items m tmp \<longleftrightarrow> (\<exists>out. fanIn (snapshot m) out \<and> tmp = ItemsOf out)"

definition Keys :: "'v cmap \<Rightarrow> string list \<Rightarrow> bool" where
  "Keys m keys \<longleftrightarrow> fanIn (map (map fst) (snapshot m)) keys"

definition IterCb :: "(string \<Rightarrow> 'v \<Rightarrow> 's \<Rightarrow> 's) \<Rightarrow> 'v cmap \<Rightarrow> 's \<Rightarrow> 's" where
  "IterCb fn m s = fold (\<lambda>sh. fold (\<lambda>(key, value). fn key value) (items sh)) m s"

section \<open>Invariant and abstraction\<close>

definition cm_wf :: "'v cmap \<Rightarrow> bool" where
  "cm_wf m \<longleftrightarrow> length m = SHARD_COUNT \<and>
     (\<forall>i < SHARD_COUNT. gm_wf (items (m ! i)) \<and>
        (\<forall>k. gm_get (items (m ! i)) k \<noteq> None \<longrightarrow> shardIndex k = i))"

definition cm_abs :: "'v cmap \<Rightarrow> string \<Rightarrow> 'v option" where
  "cm_abs m k = gm_get (items (m ! shardIndex k)) k"

lemma shardIndex_less [simp]: "shardIndex k < SHARD_COUNT"
  by (simp add: shardIndex_def SHARD_COUNT_def)

lemma GetShard_wf [simp]: "cm_wf m \<Longrightarrow> GetShard m k = Some (m ! shardIndex k)"
  by (simp add: GetShard_def cm_wf_def)

lemma shard_gm_wf [simp]: "cm_wf m \<Longrightarrow> gm_wf (items (m ! shardIndex k))"
  by (simp add: cm_wf_def)

lemma putShard_wf:
  assumes "cm_wf m" and "gm_wf its"
    and "\<And>k'. gm_get its k' \<noteq> None \<Longrightarrow> k' = k \<or> gm_get (items (m ! shardIndex k)) k' \<noteq> None"
  shows "cm_wf (putShard m k its)"
  unfolding cm_wf_def
proof (intro conjI allI impI)
  show "length (putShard m k its) = SHARD_COUNT"
    using assms(1) by (simp add: putShard_def cm_wf_def)
  fix i assume i: "i < SHARD_COUNT"
  have wf: "gm_wf (items (m ! i))" "\<And>k'. gm_get (items (m ! i)) k' \<noteq> None \<Longrightarrow> shardIndex k' = i"
    using assms(1) i by (auto simp: cm_wf_def)
  have len: "i < length m" using assms(1) i by (simp add: cm_wf_def)
  show "gm_wf (items (putShard m k its ! i))"
    using assms(2) wf(1) len by (cases "i = shardIndex k") (simp_all add: putShard_def)
  fix k' assume "gm_get (items (putShard m k its ! i)) k' \<noteq> None"
  then show "shardIndex k' = i"
    using assms(3) [of k'] wf(2) [of k'] len
    by (cases "i = shardIndex k") (auto simp: putShard_def)
qed

lemma cm_abs_putShard:
  assumes "cm_wf m"
  shows "cm_abs (putShard m k its) k' =
           (if shardIndex k' = shardIndex k then gm_get its k' else cm_abs m k')"
  using assms by (simp add: cm_abs_def putShard_def cm_wf_def)

lemma NewConcurrentMap_wf: "cm_wf (NewConcurrentMap :: 'v cmap)"
  by (simp add: cm_wf_def NewConcurrentMap_def)

lemma cm_abs_New: "cm_abs NewConcurrentMap = Map.empty"
  by (simp add: cm_abs_def NewConcurrentMap_def fun_eq_iff)

lemma put_set:
  assumes "cm_wf m"
  shows "cm_wf (putShard m k (gm_set k v (items (m ! shardIndex k))))"
    and "cm_abs (putShard m k (gm_set k v (items (m ! shardIndex k)))) = (cm_abs m)(k \<mapsto> v)"
  subgoal using assms by (rule putShard_wf) (auto simp: assms)
  subgoal by (auto simp: cm_abs_putShard [OF assms] fun_eq_iff) (auto simp: cm_abs_def)
  done

lemma put_delete:
  assumes "cm_wf m"
  shows "cm_wf (putShard m k (gm_delete k (items (m ! shardIndex k))))"
    and "cm_abs (putShard m k (gm_delete k (items (m ! shardIndex k)))) = (cm_abs m)(k := None)"
  subgoal using assms by (rule putShard_wf) (auto simp: assms)
  subgoal by (auto simp: cm_abs_putShard [OF assms] fun_eq_iff) (auto simp: cm_abs_def)
  done

lemma countFrom_sum:
  "length m = SHARD_COUNT \<Longrightarrow> i \<le> SHARD_COUNT \<Longrightarrow>
     countFrom m i c = Some (c + (\<Sum>j = i..<SHARD_COUNT. length (items (m ! j))))"
proof (induction m i c rule: countFrom.induct)
  case (1 m i c)
  show ?case
  proof (cases "i < SHARD_COUNT")
    case True
    with 1 show ?thesis
      by (subst countFrom.simps) (simp add: sum.atLeast_Suc_lessThan)
  next
    case False
    with 1(3) show ?thesis by (subst countFrom.simps) simp
  qed
qed

lemma dom_cm_abs:
  assumes "cm_wf m"
  shows "dom (cm_abs m) = (\<Union>j \<in> {0..<SHARD_COUNT}. dom (gm_get (items (m ! j))))"
  using assms by (fastforce simp: cm_abs_def cm_wf_def dom_def)

lemma Count_wf:
  assumes "cm_wf m"
  shows "Count m = Some (card (dom (cm_abs m)))"
proof -
  have len: "length m = SHARD_COUNT"
    and wf: "\<And>i. i < SHARD_COUNT \<Longrightarrow> gm_wf (items (m ! i))"
    and idx: "\<And>i k. i < SHARD_COUNT \<Longrightarrow> k \<in> dom (gm_get (items (m ! i))) \<Longrightarrow> shardIndex k = i"
    using assms by (auto simp: cm_wf_def)
  have "card (dom (cm_abs m)) = (\<Sum>j = 0..<SHARD_COUNT. card (dom (gm_get (items (m ! j)))))"
    unfolding dom_cm_abs [OF assms]
  proof (rule card_UN_disjoint)
    show "\<forall>i\<in>{0..<SHARD_COUNT}. \<forall>j\<in>{0..<SHARD_COUNT}. i \<noteq> j \<longrightarrow>
        dom (gm_get (items (m ! i))) \<inter> dom (gm_get (items (m ! j))) = {}"
      using idx by (metis atLeastLessThan_iff disjoint_iff)
  qed (simp_all add: finite_dom_map_of)
  also have "\<dots> = (\<Sum>j = 0..<SHARD_COUNT. length (items (m ! j)))"
    by (rule sum.cong) (simp_all add: gm_length wf)
  finally show ?thesis
    by (simp add: Count_def countFrom_sum [OF len])
qed

section \<open>The sharded map is a keyed store\<close>

interpretation cm: map_store cm_wf cm_abs NewConcurrentMap CSet SetIfAbsent CGet CRemove Count
proof unfold_locales
  fix m :: "'v cmap" and k v assume wf: "cm_wf m"
  show "\<exists>m'. CSet m k v = Some m' \<and> cm_wf m' \<and> cm_abs m' = (cm_abs m)(k \<mapsto> v)"
    using wf by (simp add: CSet_def put_set)
  show "\<exists>m'. SetIfAbsent m k v = Some (cm_abs m k = None, m') \<and> cm_wf m' \<and>
          cm_abs m' = (if cm_abs m k = None then (cm_abs m)(k \<mapsto> v) else cm_abs m)"
    using wf put_set [OF wf, of k v] by (auto simp: SetIfAbsent_def cm_abs_def [of m k])
  show "CGet m k = Some (cm_abs m k)"
    using wf by (simp add: CGet_def cm_abs_def)
  show "\<exists>m'. CRemove m k = Some m' \<and> cm_wf m' \<and> cm_abs m' = (cm_abs m)(k := None)"
    using wf by (simp add: CRemove_def put_delete)
  show "Count m = Some (card (dom (cm_abs m)))"
    using wf by (rule Count_wf)
qed (simp_all add: NewConcurrentMap_wf cm_abs_New)

section \<open>Iteration\<close>

lemma concat_take_out:
  "i < length chans \<Longrightarrow> chans ! i = t # ts \<Longrightarrow>
     mset (concat chans) = add_mset t (mset (concat (chans[i := ts])))"
  by (subst (1) id_take_nth_drop [of i chans]) (simp_all add: upd_conv_take_nth_drop)

lemma fan_step_mset:
  "fan_step s s' \<Longrightarrow> mset (concat (fst s')) + mset (snd s') = mset (concat (fst s)) + mset (snd s)"
  by (induction rule: fan_step.induct) (simp add: concat_take_out)

lemma fan_step_progress:
  "fan_step s s' \<Longrightarrow> length (concat (fst s')) < length (concat (fst s))"
proof (induction rule: fan_step.induct)
  case (recv i chans t ts out)
  then have "size (mset (concat chans)) = Suc (size (mset (concat (chans[i := ts]))))"
    by (simp add: concat_take_out)
  then show ?case by simp
qed

lemma fan_steps_mset:
  "fan_step\<^sup>*\<^sup>* s s' \<Longrightarrow> mset (concat (fst s')) + mset (snd s') = mset (concat (fst s)) + mset (snd s)"
  by (induction rule: rtranclp_induct) (simp_all add: fan_step_mset)

lemma fan_step_enabled:
  assumes "\<not> (\<forall>c \<in> set chans. c = [])"
  shows "\<exists>s'. fan_step (chans, out) s'"
proof -
  obtain c where "c \<in> set chans" "c \<noteq> []" using assms by blast
  then obtain i t ts where "i < length chans" "chans ! i = t # ts"
    by (metis in_set_conv_nth neq_Nil_conv)
  then show ?thesis by (blast intro: fan_step.recv)
qed

lemma fan_completes:
  "\<exists>chans' out'. fan_step\<^sup>*\<^sup>* (chans, out) (chans', out') \<and> (\<forall>c \<in> set chans'. c = [])"
proof (induction "length (concat chans)" arbitrary: chans out rule: less_induct)
  case less
  show ?case
  proof (cases "\<forall>c \<in> set chans. c = []")
    case True
    then show ?thesis by blast
  next
    case False
    then obtain s1 where s1: "fan_step (chans, out) s1"
      using fan_step_enabled by blast
    then have "length (concat (fst s1)) < length (concat chans)"
      using fan_step_progress [OF s1] by simp
    then obtain chans' out' where "fan_step\<^sup>*\<^sup>* s1 (chans', out')" "\<forall>c \<in> set chans'. c = []"
      using less [of "fst s1" "snd s1"] by auto
    with s1 show ?thesis by (blast intro: converse_rtranclp_into_rtranclp)
  qed
qed

lemma fanIn_mset: "fanIn chans out \<Longrightarrow> mset out = mset (concat chans)"
proof -
  assume "fanIn chans out"
  then obtain chans' where run: "fan_step\<^sup>*\<^sup>* (chans, []) (chans', out)"
      and "\<forall>c \<in> set chans'. c = []"
    by (auto simp: fanIn_def)
  then have "concat chans' = []" by simp
  with fan_steps_mset [OF run] show ?thesis by simp
qed

lemma foldl_gm_set:
  "gm_wf acc \<Longrightarrow> gm_wf (foldl (\<lambda>tmp (k, v). gm_set k v tmp) acc out) \<and>
     gm_get (foldl (\<lambda>tmp (k, v). gm_set k v tmp) acc out) = gm_get acc ++ map_of (rev out)"
  by (induction out arbitrary: acc) (auto simp: map_add_def fun_eq_iff split: option.splits)

lemma snapshot_entries:
  assumes "cm_wf m"
  shows "(k, v) \<in> set (concat (snapshot m)) \<longleftrightarrow> cm_abs m k = Some v"
proof -
  have len: "length m = SHARD_COUNT"
    and wf: "\<And>i. i < SHARD_COUNT \<Longrightarrow> gm_wf (items (m ! i))"
    and idx: "\<And>i k. i < SHARD_COUNT \<Longrightarrow> gm_get (items (m ! i)) k \<noteq> None \<Longrightarrow> shardIndex k = i"
    using assms by (auto simp: cm_wf_def)
  have "(k, v) \<in> set (concat (snapshot m)) \<longleftrightarrow>
        (\<exists>i < SHARD_COUNT. (k, v) \<in> set (items (m ! i)))"
    using len by (auto simp: snapshot_def set_conv_nth [of m])
  also have "\<dots> \<longleftrightarrow> (\<exists>i < SHARD_COUNT. gm_get (items (m ! i)) k = Some v)"
    by (auto simp: gm_get_in_set wf)
  also have "\<dots> \<longleftrightarrow> cm_abs m k = Some v"
    using idx shardIndex_less [of k] unfolding cm_abs_def by (metis option.discI)
  finally show ?thesis .
qed

lemma snapshot_keys:
  assumes "cm_wf m"
  shows "set (map fst (concat (snapshot m))) = dom (cm_abs m)"
    and "distinct (map fst (concat (snapshot m)))"
proof -
  let ?keys = "map fst (concat (snapshot m))"
  show set_eq: "set ?keys = dom (cm_abs m)"
    using snapshot_entries [OF assms] by (force simp: dom_def)
  have len: "length m = SHARD_COUNT" using assms by (simp add: cm_wf_def)
  have "length ?keys = (\<Sum>j = 0..<SHARD_COUNT. length (items (m ! j)))"
    using len by (simp add: snapshot_def length_concat sum_list_sum_nth comp_def)
  also have "\<dots> = card (dom (cm_abs m))"
    using Count_wf [OF assms] countFrom_sum [OF len, of 0 0] by (simp add: Count_def)
  finally show "distinct ?keys"
    using set_eq by (simp add: card_distinct)
qed

lemma MSet_insertAll: "MSet m data = insertAll CSet m data"
proof (induction m data rule: MSet.induct)
  case (2 m key v data)
  then show ?case by (cases "GetShard m key") (simp_all add: CSet_def)
qed simp

section \<open>Properties\<close>



text \<open>Iteration loses and invents nothing, whatever the scheduler does. From any map
  kept by the operations, the fan-in of the shards' channels can always run to completion;
  every complete run of \<open>Items\<close> yields exactly the contents of the map and every complete
  run of \<open>Keys\<close> lists each key once.\<close>

theorem iteration_is_exact:
  assumes "cm_wf m"
  shows "(\<exists>tmp. Items m tmp) \<and> (\<exists>keys. Keys m keys) \<and>
    (\<forall>tmp. Items m tmp \<longrightarrow> gm_wf tmp \<and> gm_get tmp = cm_abs m) \<and>
    (\<forall>keys. Keys m keys \<longrightarrow> distinct keys \<and> set keys = dom (cm_abs m))"
proof (intro conjI allI impI)
  show "\<exists>tmp. Items m tmp"
    using fan_completes [of "snapshot m" "[]"] by (auto simp: Items_def fanIn_def)
  show "\<exists>keys. Keys m keys"
    using fan_completes [of "map (map fst) (snapshot m)" "[]"] by (auto simp: Keys_def fanIn_def)
next
  fix tmp assume "Items m tmp"
  then obtain out where out: "fanIn (snapshot m) out" "tmp = ItemsOf out"
    by (auto simp: Items_def)
  then have eq: "mset out = mset (concat (snapshot m))" by (simp add: fanIn_mset)
  then have dist: "distinct (map fst out)"
    using snapshot_keys(2) [OF assms] by (metis mset_eq_imp_distinct_iff mset_map)
  have ents: "(k, v) \<in> set out \<longleftrightarrow> cm_abs m k = Some v" for k v
    using snapshot_entries [OF assms] mset_eq_setD [OF eq] by simp
  have "gm_get out = cm_abs m"
  proof
    fix k show "gm_get out k = cm_abs m k"
      using dist ents [of k] by (cases "cm_abs m k") (auto simp: map_of_eq_None_iff)
  qed
  then show "gm_get tmp = cm_abs m"
    using out(2) foldl_gm_set [of "[]" out] dist by (simp add: ItemsOf_def map_of_rev_distinct)
  show "gm_wf tmp"
    using out(2) foldl_gm_set [of "[]" out] by (simp add: ItemsOf_def)
next
  fix keys assume "Keys m keys"
  then have eq: "mset keys = mset (map fst (concat (snapshot m)))"
    using fanIn_mset [of "map (map fst) (snapshot m)" keys] by (simp add: Keys_def map_concat)
  then show "distinct keys"
    using snapshot_keys(2) [OF assms] mset_eq_imp_distinct_iff by blast
  show "set keys = dom (cm_abs m)"
    using mset_eq_setD [OF eq] snapshot_keys(1) [OF assms] by simp
qed

theorem iteration_is_exact_witness:
  "\<exists>m tmp. CSet NewConcurrentMap ''a'' (1 :: nat) = Some m \<and> Items m tmp \<and>
     gm_get tmp = [''a'' \<mapsto> 1]"
proof -
  obtain m where m: "CSet NewConcurrentMap ''a'' (1 :: nat) = Some m" "cm_wf m"
      "cm_abs m = [''a'' \<mapsto> 1]"
    using cm.insert_ok [OF NewConcurrentMap_wf, of "''a''" "1 :: nat"] by (auto simp: cm_abs_New)
  with iteration_is_exact [OF m(2)] show ?thesis by auto
qed

end
