(* ===== verification/HTTP_Range.thy ===== *)
theory HTTP_Range
  imports Go_Prelude
begin

text \<open>
  The HTTP range specification of \<open>utils/httprange.go\<close>: parsing a \<open>Range\<close> header,
  resolving it against the size of a resource and printing the result. Positions are Go
  \<open>int64\<close> values, so every arithmetic result goes through \<open>wrap64\<close>.
\<close>

section \<open>Model\<close>

record HTTPRangeSpec =
  IsSuffixLength :: bool
  Start :: int
  End :: int

datatype range_error =
    NegativeSize | InvalidRange | UnexpectedCase
  | NoPrefix | NoDelimiter | SignedFirst | BadFirst | NegativeFirst
  | SignedLast | BadLast | NegativeLast | NoPositions

text \<open>\<open>strconv.ParseInt(s, 10, 64)\<close>: an optional sign, one or more decimal digits, and a
  value that fits in 64 bits; \<open>None\<close> is any of its errors.\<close>

fun parseDigits :: "nat \<Rightarrow> string \<Rightarrow> nat option" where
  "parseDigits acc [] = Some acc"
| "parseDigits acc (c # cs) =
     (let d = of_char c in
      if 48 \<le> d \<and> d \<le> 57 then parseDigits (acc * 10 + (d - 48)) cs else None)"

definition parseUnsigned :: "string \<Rightarrow> nat option" where
  "parseUnsigned s = (if s = [] then None else parseDigits 0 s)"

definition ParseInt64 :: "string \<Rightarrow> int option" where
  "ParseInt64 s =
     (if hasPrefix s ''-'' then
        (case parseUnsigned (tl s) of
           Some n \<Rightarrow> if int n \<le> 2 ^ 63 then Some (- int n) else None
         | None \<Rightarrow> None)
      else
        (case parseUnsigned (if hasPrefix s ''+'' then tl s else s) of
           Some n \<Rightarrow> if int n < 2 ^ 63 then Some (int n) else None
         | None \<Rightarrow> None))"

definition byteRangePrefix :: string where
  "byteRangePrefix = ''bytes=''"

definition GetLength :: "HTTPRangeSpec option \<Rightarrow> int \<Rightarrow> range_error + int" where
  "GetLength h resourceSize =
     (if resourceSize < 0 then Inl NegativeSize
      else case h of
        None \<Rightarrow> Inr resourceSize
      | Some h \<Rightarrow>
          if IsSuffixLength h then
            (let specifiedLen = wrap64 (- Start h)
             in Inr (if specifiedLen > resourceSize then resourceSize else specifiedLen))
          else if Start h \<ge> resourceSize then Inl InvalidRange
          else if End h > -1 then
            (let end' = (if resourceSize \<le> End h then wrap64 (resourceSize - 1) else End h)
             in Inr (wrap64 (wrap64 (end' - Start h) + 1)))
          else if End h = -1 then Inr (wrap64 (resourceSize - Start h))
          else Inl UnexpectedCase)"

definition GetOffsetLength :: "HTTPRangeSpec option \<Rightarrow> int \<Rightarrow> range_error + (int \<times> int)" where
  "GetOffsetLength h resourceSize =
     (case h of
        None \<Rightarrow> Inr (0, resourceSize)
      | Some sp \<Rightarrow>
          (case GetLength h resourceSize of
             Inl e \<Rightarrow> Inl e
           | Inr length' \<Rightarrow>
               let start = (if IsSuffixLength sp
                            then let st = wrap64 (resourceSize + Start sp)
                                 in if st < 0 then 0 else st
                            else Start sp)
               in Inr (start, length')))"

text \<open>One side of the \<open>-\<close>: absent (\<open>-1\<close>), or a number without a sign.\<close>

definition parsePosition ::
  "range_error \<Rightarrow> range_error \<Rightarrow> range_error \<Rightarrow> string \<Rightarrow> range_error + int" where
  "parsePosition signd bad negative s =
     (if s = [] then Inr (-1)
      else if hasPrefix s ''+'' then Inl signd
      else case ParseInt64 s of
          None \<Rightarrow> Inl bad
        | Some i \<Rightarrow> if i < 0 then Inl negative else Inr i)"

definition ParseRequestRangeSpec :: "string \<Rightarrow> range_error + HTTPRangeSpec" where
  "ParseRequestRangeSpec rangeString =
     (if \<not> hasPrefix rangeString byteRangePrefix then Inl NoPrefix
      else let byteRangeString = trimPrefix rangeString byteRangePrefix in
      case indexOf ''-'' byteRangeString of
        None \<Rightarrow> Inl NoDelimiter
      | Some sepIndex \<Rightarrow>
        (case parsePosition SignedFirst BadFirst NegativeFirst (take sepIndex byteRangeString) of
           Inl e \<Rightarrow> Inl e
         | Inr offsetBegin \<Rightarrow>
        (case parsePosition SignedLast BadLast NegativeLast (drop (sepIndex + 1) byteRangeString) of
           Inl e \<Rightarrow> Inl e
         | Inr offsetEnd \<Rightarrow>
             if offsetBegin > -1 \<and> offsetEnd > -1 then
               if offsetBegin > offsetEnd then Inl InvalidRange
               else Inr \<lparr>IsSuffixLength = False, Start = offsetBegin, End = offsetEnd\<rparr>
             else if offsetBegin > -1 then
               Inr \<lparr>IsSuffixLength = False, Start = offsetBegin, End = -1\<rparr>
             else if offsetEnd > -1 then
               if offsetEnd = 0 then Inl InvalidRange
               else Inr \<lparr>IsSuffixLength = True, Start = - offsetEnd, End = -1\<rparr>
             else Inl NoPositions)))"

definition rangeToString :: "HTTPRangeSpec option \<Rightarrow> int \<Rightarrow> string" where
  "rangeToString h resourceSize =
     (case h of
        None \<Rightarrow> []
      | Some sp \<Rightarrow>
          (case GetOffsetLength h resourceSize of
             Inl _ \<Rightarrow> []
           | Inr (off, length') \<Rightarrow>
               showInt off @ ''-'' @ showInt (wrap64 (wrap64 (off + length') - 1))))"

section \<open>Well-formed specifications\<close>

text \<open>The three shapes the comment on the type lists.\<close>

definition range_wf :: "HTTPRangeSpec \<Rightarrow> bool" where
  "range_wf h \<longleftrightarrow>
     (if IsSuffixLength h then - (2 ^ 63) < Start h \<and> Start h < 0 \<and> End h = -1
      else 0 \<le> Start h \<and> Start h < 2 ^ 63 \<and>
           (End h = -1 \<or> Start h \<le> End h \<and> End h < 2 ^ 63))"

lemma ParseInt64_range: "ParseInt64 s = Some i \<Longrightarrow> is_i64 i"
  by (auto simp: ParseInt64_def is_i64_def split: if_splits option.splits)

lemma parsePosition_range:
  "parsePosition a b c s = Inr i \<Longrightarrow> s \<noteq> [] \<and> 0 \<le> i \<and> i < 2 ^ 63 \<or> s = [] \<and> i = -1"
  using ParseInt64_range [of s]
  by (auto simp: parsePosition_def is_i64_def split: if_splits option.splits)

lemma ParseRequestRangeSpec_wf: "ParseRequestRangeSpec s = Inr h \<Longrightarrow> range_wf h"
  unfolding ParseRequestRangeSpec_def Let_def
  by (auto simp: range_wf_def split: if_splits option.splits sum.splits dest!: parsePosition_range)

lemma GetOffsetLength_wf:
  assumes "range_wf h" and "0 \<le> sz" and "sz < 2 ^ 63"
  shows "GetOffsetLength (Some h) sz =
    (if IsSuffixLength h then Inr (max 0 (sz + Start h), min (- Start h) sz)
     else if sz \<le> Start h then Inl InvalidRange
     else Inr (Start h, (if End h = -1 then sz else min sz (End h + 1)) - Start h))"
proof -
  have w: "wrap64 x = x" if "- (2 ^ 63) \<le> x" "x < 2 ^ 63" for x
    using that by (simp add: wrap64_id is_i64_def)
  show ?thesis
    using assms
    by (auto simp: GetOffsetLength_def GetLength_def range_wf_def Let_def w max_def min_def
        split: if_splits)
qed

lemma parseDigits_append:
  "parseDigits acc (xs @ ys) = Option.bind (parseDigits acc xs) (\<lambda>a. parseDigits a ys)"
  by (induction acc xs rule: parseDigits.induct) (auto simp: Let_def)

lemma parseDigits_digitC: "d < 10 \<Longrightarrow> parseDigits acc [digitC d] = Some (acc * 10 + d)"
  by simp

lemma parseDigits_showNat: "parseDigits 0 (showNat n) = Some n"
proof (induction n rule: showNat.induct)
  case (1 n)
  show ?case
  proof (cases "n < 10")
    case True
    then show ?thesis by (subst showNat.simps) (simp add: parseDigits_digitC del: parseDigits.simps)
  next
    case False
    then show ?thesis
      using 1 by (subst showNat.simps) (simp add: parseDigits_append parseDigits_digitC del: parseDigits.simps)
  qed
qed

lemma digitC_neq: "d < 10 \<Longrightarrow> (of_char c :: nat) < 48 \<Longrightarrow> digitC d \<noteq> c"
  using of_char_digitC [of d] by (metis add_leD1 le_refl not_less)

lemma showNat_no_sign: "(of_char c :: nat) < 48 \<Longrightarrow> c \<notin> set (showNat n)"
  using showNat_digits [of n] digitC_neq [of _ c] by blast

lemma parsePosition_showNat:
  assumes "int n < 2 ^ 63"
  shows "parsePosition a b c (showNat n) = Inr (int n)"
proof -
  have "\<not> hasPrefix (showNat n) [x]" if "x \<notin> set (showNat n)" for x
    using that by (cases "showNat n") auto
  then have "\<not> hasPrefix (showNat n) ''-''" "\<not> hasPrefix (showNat n) ''+''"
    using showNat_no_sign [of _ n] by auto
  then show ?thesis
    using assms by (simp add: parsePosition_def ParseInt64_def parseUnsigned_def parseDigits_showNat)
qed

section \<open>Properties\<close>

text \<open>C39: Resolving a range is exact and stays inside the resource. For every header that
  \<open>ParseRequestRangeSpec\<close> accepts and every resource size a Go \<open>int64\<close> can hold,
  \<open>GetOffsetLength\<close> either reports an invalid range, exactly when the first position is at
  or past the end, or returns an offset and a length that are non-negative and end within
  the resource; no intermediate result wraps around.\<close>

theorem range_resolution_in_bounds:
  assumes "ParseRequestRangeSpec s = Inr h" and "0 \<le> sz" and "sz < 2 ^ 63"
  shows "case GetOffsetLength (Some h) sz of
      Inl e \<Rightarrow> e = InvalidRange \<and> \<not> IsSuffixLength h \<and> sz \<le> Start h
    | Inr (off, len) \<Rightarrow> 0 \<le> off \<and> 0 \<le> len \<and> off + len \<le> sz \<and>
        (IsSuffixLength h \<longrightarrow> off + len = sz) \<and>
        (\<not> IsSuffixLength h \<longrightarrow> off = Start h \<and> 0 < len \<and>
            (if End h = -1 then off + len = sz else off + len = min sz (End h + 1)))"
proof -
  have wf: "range_wf h" using assms(1) by (rule ParseRequestRangeSpec_wf)
  show ?thesis
    unfolding GetOffsetLength_wf [OF wf assms(2,3)]
    using wf assms(2) by (auto simp: range_wf_def)
qed

theorem range_resolution_in_bounds_witness:
  "ParseRequestRangeSpec ''bytes=2-'' = Inr \<lparr>IsSuffixLength = False, Start = 2, End = -1\<rparr> \<and>
   GetOffsetLength (Some \<lparr>IsSuffixLength = False, Start = 2, End = -1\<rparr>) 10 = Inr (2, 8)"
proof -
  have p: "ParseRequestRangeSpec ''bytes=2-'' = Inr \<lparr>IsSuffixLength = False, Start = 2, End = -1\<rparr>"
    by code_simp
  have "GetOffsetLength (Some \<lparr>IsSuffixLength = False, Start = 2, End = -1\<rparr>) 10 = Inr (2, 8)"
    using range_resolution_in_bounds [OF p, of 10]
    by (auto split: sum.splits prod.splits)
  with p show ?thesis by simp
qed

text \<open>The parser understands exactly the three documented forms. Printing an absolute
  range, an open range or a suffix length gives a header that parses back to the
  corresponding specification, for all positions an \<open>int64\<close> can hold.\<close>

theorem range_header_round_trip:
  assumes "int a < 2 ^ 63" and "int b < 2 ^ 63"
  shows "(a \<le> b \<longrightarrow> ParseRequestRangeSpec (byteRangePrefix @ showNat a @ ''-'' @ showNat b) =
            Inr \<lparr>IsSuffixLength = False, Start = int a, End = int b\<rparr>) \<and>
         (b < a \<longrightarrow> ParseRequestRangeSpec (byteRangePrefix @ showNat a @ ''-'' @ showNat b) =
            Inl InvalidRange) \<and>
         ParseRequestRangeSpec (byteRangePrefix @ showNat a @ ''-'') =
            Inr \<lparr>IsSuffixLength = False, Start = int a, End = -1\<rparr> \<and>
         (0 < b \<longrightarrow> ParseRequestRangeSpec (byteRangePrefix @ ''-'' @ showNat b) =
            Inr \<lparr>IsSuffixLength = True, Start = - int b, End = -1\<rparr>)"
proof -
  have begin_end: "ParseRequestRangeSpec (byteRangePrefix @ showNat a @ ''-'' @ t) =
      (case parsePosition SignedLast BadLast NegativeLast t of
         Inl e \<Rightarrow> Inl e
       | Inr e \<Rightarrow>
           if e > -1 then if int a > e then Inl InvalidRange
             else Inr \<lparr>IsSuffixLength = False, Start = int a, End = e\<rparr>
           else Inr \<lparr>IsSuffixLength = False, Start = int a, End = -1\<rparr>)" for t
    unfolding ParseRequestRangeSpec_def Let_def
    by (cases "parsePosition SignedLast BadLast NegativeLast t")
      (simp_all add: indexOf_char showNat_no_sign parsePosition_showNat [OF assms(1)])
  have suffix: "ParseRequestRangeSpec (byteRangePrefix @ ''-'' @ showNat b) =
      Inr \<lparr>IsSuffixLength = True, Start = - int b, End = -1\<rparr>" if "0 < b"
    unfolding ParseRequestRangeSpec_def Let_def
    using that by (simp add: indexOf_Cons parsePosition_showNat [OF assms(2)] parsePosition_def [of _ _ _ "[]"])
  show ?thesis
    using suffix begin_end [of "showNat b"] begin_end [of "[]"]
    by (auto simp: parsePosition_showNat [OF assms(2)] parsePosition_def [of _ _ _ "[]"])
qed

theorem range_header_round_trip_witness:
  "ParseRequestRangeSpec ''bytes=10-20'' = Inr \<lparr>IsSuffixLength = False, Start = 10, End = 20\<rparr>"
proof -
  have "showNat 10 = ''10''" "showNat 20 = ''20''" by code_simp+
  then show ?thesis
    using range_header_round_trip [of 10 20] by (simp add: byteRangePrefix_def)
qed

end
