(* ===== verification/Std_Copy.thy ===== *)
theory Std_Copy
  imports Go_Prelude "HOL-Library.Sublist"
begin

text \<open>
  The multiplexed log stream of \<open>container_log/StuCopy.go\<close>: \<open>stdWriter\<close> puts an
  8-byte header (stream type, three zero bytes, big-endian length) in front of every write,
  \<open>StdCopy\<close> takes the stream apart again while it reads, hands every frame to a callback
  wrapped by \<open>logMessage\<close> (\<open>container_log/ConnectionManage.go\<close>, with
  \<open>LineConfound\<close> of \<open>utils/Common.go\<close>) and writes it to the destination.

  The source of \<open>StdCopy\<close> is a script: the results of its successive reads, each some
  bytes and possibly an error, a read with a smaller buffer taking only a part. The buffer is
  its length and the bytes read into it so far (\<open>buf[:nr]\<close>); what lies behind is never
  read. Both read loops may in principle run forever, so they are partial functions into
  \<open>option\<close>; that they always return is a theorem.
\<close>

section \<open>Readers and writers\<close>

datatype ioerr = EOF | IOErr string

type_synonym script = "(byte list \<times> ioerr option) list"

fun readSome :: "nat \<Rightarrow> script \<Rightarrow> (byte list \<times> ioerr option) \<times> script" where
  "readSome room [] = (([], Some EOF), [])"
| "readSome room ((c, e) # rs) =
     (if length c \<le> room then ((c, e), rs) else ((take room c, None), (drop room c, e) # rs))"

text \<open>A destination: its state and a write, which reports how many bytes it took and an
  error if there was one.\<close>

type_synonym 'w writer = "'w \<Rightarrow> byte list \<Rightarrow> (nat \<times> string option) \<times> 'w"

definition discard :: "unit writer" where
  "discard w p = ((length p, None), ())"

section \<open>Stream types and headers\<close>

datatype StdType = Stdin | Stdout | Stderr | Systemerr

fun byteOf :: "StdType \<Rightarrow> byte" where
  "byteOf Stdin = 0" | "byteOf Stdout = 1" | "byteOf Stderr = 2" | "byteOf Systemerr = 3"

definition stdTypeOf :: "byte \<Rightarrow> StdType option" where
  "stdTypeOf b =
     (if b = 0 then Some Stdin else if b = 1 then Some Stdout
      else if b = 2 then Some Stderr else if b = 3 then Some Systemerr else None)"

lemma byteOf_inject: "byteOf x = byteOf y \<Longrightarrow> x = y"
  by (cases x; cases y) simp_all

instantiation StdType :: linorder
begin

definition less_eq_StdType :: "StdType \<Rightarrow> StdType \<Rightarrow> bool" where
  "less_eq_StdType a b \<longleftrightarrow> byteOf a \<le> byteOf b"

definition less_StdType :: "StdType \<Rightarrow> StdType \<Rightarrow> bool" where
  "less_StdType a b \<longleftrightarrow> byteOf a < byteOf b"

instance
proof
  fix x y :: StdType
  show "x \<le> y \<Longrightarrow> y \<le> x \<Longrightarrow> x = y"
    by (simp add: less_eq_StdType_def byteOf_inject)
qed (auto simp: less_eq_StdType_def less_StdType_def)

end

definition stdWriterPrefixLen :: nat where "stdWriterPrefixLen = 8"

definition startingBufLen :: nat where
  "startingBufLen = 32 * 1024 + stdWriterPrefixLen + 1"

text \<open>\<open>binary.BigEndian.PutUint32\<close> of a length truncated to 32 bits, and its inverse.\<close>

definition putUint32 :: "nat \<Rightarrow> byte list" where
  "putUint32 n = [of_nat (n div 2 ^ 24), of_nat (n div 2 ^ 16), of_nat (n div 2 ^ 8), of_nat n]"

definition getUint32 :: "byte list \<Rightarrow> nat" where
  "getUint32 bs =
     unat (bs ! 0) * 2 ^ 24 + unat (bs ! 1) * 2 ^ 16 + unat (bs ! 2) * 2 ^ 8 + unat (bs ! 3)"

definition stdHeader :: "byte \<Rightarrow> byte list \<Rightarrow> byte list" where
  "stdHeader t p = [t, 0, 0, 0] @ putUint32 (length p)"

text \<open>\<open>stdWriter.Write\<close>: a nil receiver or writer is an error, a nil slice writes nothing;
  the count returned leaves the header out.\<close>

definition stdWrite ::
  "('w writer \<times> byte) option \<Rightarrow> 'w \<Rightarrow> byte list option \<Rightarrow> (nat \<times> string option) \<times> 'w" where
  "stdWrite w s p =
     (case w of
        None \<Rightarrow> ((0, Some ''Writer not instantiated''), s)
      | Some (uw, t) \<Rightarrow>
         (case p of
            None \<Rightarrow> ((0, None), s)
          | Some p \<Rightarrow>
              (let ((n, e), s') = uw s (stdHeader t p @ p)
               in ((n - stdWriterPrefixLen, e), s'))))"

section \<open>Log messages\<close>

definition zz :: "byte list" where
  "zz = map of_char ''#^()abc=defg123898TUVWXYZ*<>_''"

definition LOG_MESSAGE :: "byte list" where "LOG_MESSAGE = [49, 48, 48, 48]"
definition LOG_STAT_MESSAGE :: "byte list" where "LOG_STAT_MESSAGE = [48, 48, 48, 48]"
definition RESOURCE_MESSAGE :: "byte list" where "RESOURCE_MESSAGE = [49, 49, 48, 48]"
definition GPU_MESSAGE :: "byte list" where "GPU_MESSAGE = [49, 49, 49, 48]"

text \<open>The loop of \<open>LineConfound\<close>: each round draws a position of \<open>zz\<close> (below
  \<open>zzLen - 1\<close>) and a place (below \<open>lens - 2\<close>, where \<open>lens\<close> is the length before the loop);
  \<open>rnd\<close> stands for the successive results of \<open>rand.Intn\<close>, reduced to its range.\<close>

fun confoundLoop :: "nat \<Rightarrow> nat \<Rightarrow> (nat \<Rightarrow> nat) \<Rightarrow> nat \<Rightarrow> byte list \<Rightarrow> byte list" where
  "confoundLoop 0 lens rnd k line = line"
| "confoundLoop (Suc n) lens rnd k line =
     (let s = rnd k mod (length zz - 1);
          is = rnd (Suc k) mod (lens - 2)
      in confoundLoop n lens rnd (k + 2) (take (is + 1) line @ [zz ! s] @ drop (is + 1) line))"

definition lastIndexByte :: "byte list \<Rightarrow> byte \<Rightarrow> int" where
  "lastIndexByte xs b =
     (if b \<in> set xs then int (length xs) - 1 - int (length (takeWhile (\<lambda>x. x \<noteq> b) (rev xs))) else -1)"

definition LineConfound :: "nat \<Rightarrow> (nat \<Rightarrow> nat) \<Rightarrow> byte list \<Rightarrow> bool \<Rightarrow> byte list" where
  "LineConfound lineMaxSize rnd line0 rsb =
     (let rIndex = lastIndexByte line0 13;
          line = (if rsb \<and> rIndex > 0 then drop (nat (rIndex + 1)) line0 else line0);
          lens = length line
      in if lens > lineMaxSize then confoundLoop (lens div 600) lens rnd 0 line else line)"

definition logMessage :: "nat \<Rightarrow> (nat \<Rightarrow> nat) \<Rightarrow> byte list \<Rightarrow> byte list" where
  "logMessage lineMaxSize rnd message =
     (if length message > 1 \<and> message ! 0 = 32
      then LOG_MESSAGE @ LineConfound lineMaxSize rnd (tl message) False
      else LOG_MESSAGE @ LineConfound lineMaxSize rnd message False)"

section \<open>StdCopy\<close>

datatype fillRes = Ended | SrcFailed string | Ready "byte list" script

partial_function (option) fill :: "nat \<Rightarrow> nat \<Rightarrow> byte list \<Rightarrow> script \<Rightarrow> fillRes option" where
  "fill need bufLen data src =
     (if need \<le> length data then Some (Ready data src)
      else (case readSome (bufLen - length data) src of ((c, e), src') \<Rightarrow>
        (case e of
           Some EOF \<Rightarrow> Some (if length (data @ c) < need then Ended else Ready (data @ c) src')
         | Some (IOErr m) \<Rightarrow> Some (SrcFailed m)
         | None \<Rightarrow> fill need bufLen (data @ c) src')))"

datatype copyErr =
  SrcErr string | Unrecognized byte | DaemonErr "byte list" | WriteErr string | ShortWrite

text \<open>What the program observes of a run: the byte count and error returned, the messages
  given to the callback and the state of the destination.\<close>

record 'w copyRes =
  written :: nat
  cerr :: "copyErr option"
  sent :: "byte list list"
  dst :: 'w

partial_function (option) stdLoop ::
  "(nat \<Rightarrow> byte list \<Rightarrow> byte list) \<Rightarrow> 'w writer \<Rightarrow> nat \<Rightarrow> byte list \<Rightarrow> script \<Rightarrow>
   nat \<Rightarrow> byte list list \<Rightarrow> 'w \<Rightarrow> 'w copyRes option" where
  "stdLoop lm out bufLen data src wr snt w =
     Option.bind (fill stdWriterPrefixLen bufLen data src) (\<lambda>r1.
     (case r1 of
        Ended \<Rightarrow> Some \<lparr>written = wr, cerr = None, sent = snt, dst = w\<rparr>
      | SrcFailed m \<Rightarrow> Some \<lparr>written = 0, cerr = Some (SrcErr m), sent = snt, dst = w\<rparr>
      | Ready data1 src1 \<Rightarrow>
     (case stdTypeOf (data1 ! 0) of
        None \<Rightarrow> Some \<lparr>written = 0, cerr = Some (Unrecognized (data1 ! 0)), sent = snt, dst = w\<rparr>
      | Some stream \<Rightarrow>
     (let frameSize = getUint32 (take 4 (drop 4 data1));
          need = frameSize + stdWriterPrefixLen;
          bufLen' = (if need > bufLen then bufLen + (need - bufLen + 1) else bufLen) in
     Option.bind (fill need bufLen' data1 src1) (\<lambda>r2.
     (case r2 of
        Ended \<Rightarrow> Some \<lparr>written = wr, cerr = None, sent = snt, dst = w\<rparr>
      | SrcFailed m \<Rightarrow> Some \<lparr>written = 0, cerr = Some (SrcErr m), sent = snt, dst = w\<rparr>
      | Ready data2 src2 \<Rightarrow>
     (let l = take frameSize (drop stdWriterPrefixLen data2) in
      if stream = Systemerr
      then Some \<lparr>written = wr, cerr = Some (DaemonErr l), sent = snt, dst = w\<rparr>
      else (case out w l of ((nw, ew), w') \<Rightarrow>
        (case ew of
           Some m \<Rightarrow> Some \<lparr>written = 0, cerr = Some (WriteErr m), sent = snt @ [lm (length snt) l], dst = w'\<rparr>
         | None \<Rightarrow>
             if nw \<noteq> frameSize
             then Some \<lparr>written = 0, cerr = Some ShortWrite, sent = snt @ [lm (length snt) l], dst = w'\<rparr>
             else stdLoop lm out bufLen' (drop need data2) src2 (wr + nw)
                    (snt @ [lm (length snt) l]) w')))))))))"

text \<open>The call with its initial buffer; the \<open>n\<close>-th message is confounded with the random
  numbers \<open>rnd n\<close>.\<close>

definition StdCopy ::
  "nat \<Rightarrow> (nat \<Rightarrow> nat \<Rightarrow> nat) \<Rightarrow> 'w writer \<Rightarrow> 'w \<Rightarrow> script \<Rightarrow> 'w copyRes option" where
  "StdCopy lineMaxSize rnd dstout w src =
     stdLoop (\<lambda>n. logMessage lineMaxSize (rnd n)) dstout startingBufLen [] src 0 [] w"

section \<open>The read loops return\<close>

definition ssize :: "script \<Rightarrow> nat" where
  "ssize src = sum_list (map (\<lambda>(c, e). Suc (length c)) src)"

lemma ssize_simps [simp]: "ssize [] = 0" "ssize ((c, e) # src) = Suc (length c + ssize src)"
  by (simp_all add: ssize_def)

lemma readSome_size:
  "readSome room src = ((c, e), src') \<Longrightarrow> length c + ssize src' \<le> ssize src \<and>
     (0 < room \<and> e = None \<longrightarrow> ssize src' < ssize src)"
  by (cases "(room, src)" rule: readSome.cases) (auto split: if_splits)

lemma fill_returns:
  assumes "need \<le> bufLen"
  shows "\<exists>r. fill need bufLen data src = Some r \<and>
    (\<forall>data' src'. r = Ready data' src' \<longrightarrow>
       need \<le> length data' \<and> length data' + ssize src' \<le> length data + ssize src)"
proof (induction "ssize src" arbitrary: data src rule: less_induct)
  case less
  show ?case
  proof (cases "need \<le> length data")
    case True
    then show ?thesis by (subst fill.simps) simp
  next
    case False
    obtain c e src' where rd: "readSome (bufLen - length data) src = ((c, e), src')"
      by (metis surj_pair)
    have room: "0 < bufLen - length data" using False assms by simp
    have size: "length c + ssize src' \<le> ssize src"
      using readSome_size [OF rd] by simp
    show ?thesis
    proof (cases e)
      case None
      then have "ssize src' < ssize src" using readSome_size [OF rd] room by auto
      from less [OF this, of "data @ c"] show ?thesis
        using False rd None size by (subst fill.simps) fastforce
    next
      case (Some er)
      then show ?thesis
        using False rd size by (subst fill.simps) (cases er; simp)
    qed
  qed
qed

lemma stdLoop_returns:
  assumes "stdWriterPrefixLen \<le> bufLen"
  shows "\<exists>r. stdLoop lm out bufLen data src wr snt w = Some r"
  using assms
proof (induction "length data + ssize src" arbitrary: bufLen data src wr snt w rule: less_induct)
  case less
  obtain r1 where r1: "fill stdWriterPrefixLen bufLen data src = Some r1"
      and ready1: "\<And>d s. r1 = Ready d s \<Longrightarrow> length d + ssize s \<le> length data + ssize src"
    using fill_returns [OF less.prems, of data src] by blast
  show ?case
  proof (cases r1)
    case (Ready data1 src1)
    let ?fs = "getUint32 (take 4 (drop 4 data1))"
    let ?need = "?fs + stdWriterPrefixLen"
    let ?len = "if ?need > bufLen then bufLen + (?need - bufLen + 1) else bufLen"
    have len: "?need \<le> ?len" by simp
    obtain r2 where r2: "fill ?need ?len data1 src1 = Some r2"
        and ready2: "\<And>d s. r2 = Ready d s \<Longrightarrow> ?need \<le> length d \<and> length d + ssize s \<le> length data1 + ssize src1"
      using fill_returns [OF len, of data1 src1] by blast
    have rec: "\<exists>r. stdLoop lm out ?len (drop ?need d) s wr' snt' w' = Some r"
      if "r2 = Ready d s" for d s wr' snt' w'
    proof (rule less.hyps)
      show "length (drop ?need d) + ssize s < length data + ssize src"
        using ready2 [OF that] ready1 [OF Ready]
        unfolding stdWriterPrefixLen_def length_drop by linarith
      show "stdWriterPrefixLen \<le> ?len" using len by simp
    qed
    show ?thesis
      using r1 r2 rec Ready
      by (subst stdLoop.simps) (auto simp: Let_def split: fillRes.splits option.splits prod.splits)
  qed (use r1 in \<open>subst stdLoop.simps, simp\<close>)+
qed

section \<open>Reading back what the writers wrote\<close>

definition sbytes :: "script \<Rightarrow> byte list" where
  "sbytes src = concat (map fst src)"

definition clean :: "script \<Rightarrow> bool" where
  "clean src \<longleftrightarrow> (\<forall>r \<in> set src. snd r = None)"

lemma sbytes_simps [simp]: "sbytes [] = []" "sbytes ((c, e) # src) = c @ sbytes src"
  by (simp_all add: sbytes_def)

lemma clean_simps [simp]: "clean []" "clean ((c, e) # src) \<longleftrightarrow> e = None \<and> clean src"
  by (auto simp: clean_def)

lemma readSome_clean:
  "clean src \<Longrightarrow> readSome room src = ((c, e), src') \<Longrightarrow>
     c @ sbytes src' = sbytes src \<and> clean src' \<and> (e = None \<or> e = Some EOF \<and> src = [])"
  by (cases "(room, src)" rule: readSome.cases) (auto split: if_splits)

lemma fill_clean:
  assumes "need \<le> bufLen" and "clean src"
  shows "if need \<le> length (data @ sbytes src)
    then \<exists>data' src'. fill need bufLen data src = Some (Ready data' src') \<and>
           data' @ sbytes src' = data @ sbytes src \<and> need \<le> length data' \<and> clean src'
    else fill need bufLen data src = Some Ended"
  using assms(2)
proof (induction "ssize src" arbitrary: data src rule: less_induct)
  case less
  show ?case
  proof (cases "need \<le> length data")
    case True
    with less.prems show ?thesis by (subst fill.simps) simp
  next
    case False
    obtain c e src' where rd: "readSome (bufLen - length data) src = ((c, e), src')"
      by (metis surj_pair)
    note rc = readSome_clean [OF less.prems rd]
    show ?thesis
    proof (cases e)
      case None
      then have "ssize src' < ssize src" using readSome_size [OF rd] False assms(1) by auto
      from less.hyps [OF this, of "data @ c"] rc
      have "if need \<le> length ((data @ c) @ sbytes src')
        then \<exists>data' src''. fill need bufLen (data @ c) src' = Some (Ready data' src'') \<and>
           data' @ sbytes src'' = (data @ c) @ sbytes src' \<and> need \<le> length data' \<and> clean src''
        else fill need bufLen (data @ c) src' = Some Ended"
        by blast
      moreover have "(data @ c) @ sbytes src' = data @ sbytes src" using rc by simp
      moreover have "fill need bufLen data src = fill need bufLen (data @ c) src'"
        using None False rd by (subst fill.simps) simp
      ultimately show ?thesis by (simp only:)
    next
      case (Some er)
      with rc rd False show ?thesis by (subst (1 2) fill.simps) auto
    qed
  qed
qed

lemma unat_of_nat_byte: "unat (of_nat n :: byte) = n mod 256"
  by (simp add: unat_of_nat)

lemma getUint32_put: "n < 2 ^ 32 \<Longrightarrow> getUint32 (putUint32 n) = n"
proof -
  assume n: "n < 2 ^ 32"
  define q1 q2 q3 where "q1 = n div 256" and "q2 = q1 div 256" and "q3 = q2 div 256"
  have shift: "n div 2 ^ 8 = q1" "n div 2 ^ 16 = q2" "n div 2 ^ 24 = q3"
    by (simp_all add: q1_def q2_def q3_def div_mult2_eq [symmetric])
  have "n = q1 * 256 + n mod 256" "q1 = q2 * 256 + q1 mod 256" "q2 = q3 * 256 + q2 mod 256"
    unfolding q1_def q2_def q3_def by (simp_all only: div_mult_mod_eq)
  moreover have "q3 mod 256 = q3"
    using n shift(3) by (simp add: less_mult_imp_div_less flip: shift(3))
  ultimately show ?thesis
    unfolding getUint32_def putUint32_def shift by (simp add: unat_of_nat_byte)
qed

type_synonym frame = "StdType \<times> byte list"

definition encodeFrame :: "frame \<Rightarrow> byte list" where
  "encodeFrame f = stdHeader (byteOf (fst f)) (snd f) @ snd f"

lemma stdTypeOf_byteOf [simp]: "stdTypeOf (byteOf t) = Some t"
  by (cases t) (simp_all add: stdTypeOf_def)

lemma length_encodeFrame: "length (encodeFrame f) = length (snd f) + stdWriterPrefixLen"
  by (simp add: encodeFrame_def stdHeader_def putUint32_def stdWriterPrefixLen_def)

lemma append_split:
  assumes "xs @ ys = h @ r" and "length h \<le> length xs"
  obtains z where "xs = h @ z" and "r = z @ ys"
  using assms by (auto simp: append_eq_append_conv2)

lemma length_stdHeader [simp]: "length (stdHeader t p) = stdWriterPrefixLen"
  by (simp add: stdHeader_def putUint32_def stdWriterPrefixLen_def)

lemma stdHeader_fields:
  "(stdHeader t p @ z) ! 0 = t"
  "length p < 2 ^ 32 \<Longrightarrow> getUint32 (take 4 (drop 4 (stdHeader t p @ z))) = length p"
  using getUint32_put [of "length p"] by (simp_all add: stdHeader_def putUint32_def)

lemma stdLoop_frames:
  assumes "\<forall>f \<in> set fs. fst f \<noteq> Systemerr \<and> length (snd f) < 2 ^ 32"
    and "stdWriterPrefixLen \<le> bufLen" and "clean src"
    and "data @ sbytes src = concat (map encodeFrame fs)"
  shows "stdLoop lm discard bufLen data src wr snt w =
    Some \<lparr>written = wr + sum_list (map (length \<circ> snd) fs), cerr = None,
          sent = snt @ map (\<lambda>(n, f). lm n (snd f)) (enumerate (length snt) fs), dst = ()\<rparr>"
  using assms
proof (induction fs arbitrary: bufLen data src wr snt)
  case Nil
  then have "fill stdWriterPrefixLen bufLen data src = Some Ended"
    using fill_clean [of stdWriterPrefixLen bufLen src data] by (simp add: stdWriterPrefixLen_def)
  then show ?case by (subst stdLoop.simps) simp
next
  case (Cons f fs)
  obtain t p where f: "f = (t, p)" by (cases f)
  let ?h = "stdHeader (byteOf t) p" and ?r = "concat (map encodeFrame fs)"
  let ?need = "length p + stdWriterPrefixLen"
  let ?len = "if ?need > bufLen then bufLen + (?need - bufLen + 1) else bufLen"
  have bytes: "data @ sbytes src = ?h @ p @ ?r" using Cons.prems(4) f
    by (simp add: encodeFrame_def [of "(t, p)"])
  then have total: "?need \<le> length (data @ sbytes src)" by simp
  then obtain d1 s1 where 1: "fill stdWriterPrefixLen bufLen data src = Some (Ready d1 s1)"
      "d1 @ sbytes s1 = ?h @ p @ ?r" "stdWriterPrefixLen \<le> length d1" "clean s1"
    using fill_clean [OF Cons.prems(2,3), of data] bytes by (auto split: if_splits)
  obtain z1 where z1: "d1 = ?h @ z1"
    using append_split [OF 1(2)] 1(3) by auto
  have "?need \<le> ?len" by simp
  from fill_clean [OF this 1(4), of d1] total bytes 1(2) obtain d2 s2 where
    2: "fill ?need ?len d1 s1 = Some (Ready d2 s2)" "d2 @ sbytes s2 = (?h @ p) @ ?r"
      "?need \<le> length d2" "clean s2"
    by (auto split: if_splits)
  obtain z2 where z2: "d2 = (?h @ p) @ z2" "?r = z2 @ sbytes s2"
    using append_split [OF 2(2)] 2(3) by auto
  have rest: "drop ?need d2 = z2" and payload: "take (length p) (drop stdWriterPrefixLen d2) = p"
    using z2(1) by simp_all
  have p: "length p < 2 ^ 32" and t: "t \<noteq> Systemerr" using Cons.prems(1) f by auto
  have head: "stdTypeOf (d1 ! 0) = Some t" "getUint32 (take 4 (drop 4 d1)) = length p"
    unfolding z1 by (simp_all only: stdHeader_fields(1) stdHeader_fields(2) [OF p] stdTypeOf_byteOf)
  have whole: "min (length d2 - stdWriterPrefixLen) (length p) = length p"
    using 2(3) by (intro min_absorb2) linarith
  have "stdLoop lm discard bufLen data src wr snt w =
      stdLoop lm discard ?len z2 s2 (wr + length p) (snt @ [lm (length snt) p]) ()"
    using 1(1) 2(1) head t rest payload whole
    by (subst stdLoop.simps) (simp add: Let_def discard_def)
  also have "\<dots> = Some \<lparr>written = wr + sum_list (map (length \<circ> snd) (f # fs)), cerr = None,
      sent = snt @ map (\<lambda>(n, f). lm n (snd f)) (enumerate (length snt) (f # fs)), dst = ()\<rparr>"
    using Cons.IH [OF _ _ 2(4), where bufLen = ?len and data = z2 and wr = "wr + length p" and
        snt = "snt @ [lm (length snt) p]"] Cons.prems(1,2) z2(2) f
    by (simp add: comp_def)
  finally show ?case .
qed

lemma confoundLoop_inserts:
  "subseq line (confoundLoop n lens rnd k line) \<and> length (confoundLoop n lens rnd k line) = length line + n"
proof (induction n arbitrary: k line)
  case (Suc n)
  let ?is = "rnd (Suc k) mod (lens - 2)" and ?s = "rnd k mod (length zz - 1)"
  let ?line = "take (?is + 1) line @ [zz ! ?s] @ drop (?is + 1) line"
  have "subseq (take (?is + 1) line @ [] @ drop (?is + 1) line) ?line"
    by (intro list_emb_append_mono) simp_all
  then have "subseq line ?line" by simp
  then have "subseq line (confoundLoop n lens rnd (k + 2) ?line)"
    using Suc.IH [of ?line "k + 2"] subseq_order.trans by blast
  moreover have "length (confoundLoop n lens rnd (k + 2) ?line) = length line + Suc n"
    using Suc.IH [of ?line "k + 2"] by simp
  ultimately show ?case by (simp add: Let_def)
qed simp

section \<open>Properties\<close>


text \<open>C3: Demultiplexing inverts multiplexing. If the source delivers the bytes that any
  sequence of \<open>stdWriter.Write\<close> calls produced (frames shorter than 4 GiB on the standard
  streams), then however the bytes are cut into reads, \<open>StdCopy\<close> hands the payloads of the
  frames, in order and none missing, to the callback and returns their total length without an
  error.\<close>

theorem StdCopy_demultiplexes:
  assumes "\<forall>f \<in> set fs. fst f \<noteq> Systemerr \<and> length (snd f) < 2 ^ 32"
    and "clean src" and "sbytes src = concat (map encodeFrame fs)"
  shows "StdCopy lineMaxSize rnd discard () src =
    Some \<lparr>written = sum_list (map (length \<circ> snd) fs), cerr = None,
          sent = map (\<lambda>(n, f). logMessage lineMaxSize (rnd n) (snd f)) (enumerate 0 fs), dst = ()\<rparr>"
  using stdLoop_frames [OF assms(1) _ assms(2), of startingBufLen "[]"] assms(3)
  by (simp add: StdCopy_def startingBufLen_def)

theorem StdCopy_demultiplexes_witness:
  "StdCopy 4096 (\<lambda>_ _. 0) discard () [([1, 0, 0], None), ([0, 0, 0, 0, 2, 104], None), ([105], None)] =
     Some \<lparr>written = 2, cerr = None, sent = [LOG_MESSAGE @ [104, 105]], dst = ()\<rparr>"
proof -
  let ?src = "[([1, 0, 0], None), ([0, 0, 0, 0, 2, 104], None), ([105], None)] :: script"
  have "sbytes ?src = concat (map encodeFrame [(Stdout, [104, 105])])"
    by (simp add: encodeFrame_def stdHeader_def putUint32_def)
  then have "StdCopy 4096 (\<lambda>_ _. 0) discard () ?src = Some \<lparr>written = 2, cerr = None,
      sent = [logMessage 4096 (\<lambda>_. 0) [104, 105]], dst = ()\<rparr>"
    using StdCopy_demultiplexes [of "[(Stdout, [104, 105])]" ?src 4096 "\<lambda>_ _. 0"] by simp
  then show ?thesis
    by (simp add: logMessage_def LineConfound_def Let_def)
qed

text \<open>Marking a long line never loses log text. \<open>LineConfound\<close> returns the line
  unchanged up to the configured size; above it the result still contains every byte of the
  line in order, with exactly one byte inserted per 600. With \<open>rsb\<close> the line starts after
  its last carriage return.\<close>

theorem LineConfound_keeps_text:
  "let rIndex = lastIndexByte line 13;
       shown = (if rsb \<and> rIndex > 0 then drop (nat (rIndex + 1)) line else line);
       res = LineConfound lineMaxSize rnd line rsb
   in subseq shown res \<and>
      (if length shown \<le> lineMaxSize then res = shown
       else length res = length shown + length shown div 600)"
  using confoundLoop_inserts by (simp add: LineConfound_def Let_def)

end
