(* ===== verification/Connect_Hub.thy ===== *)
theory Connect_Hub
  imports Std_Copy
begin

text \<open>
  The websocket connections of \<open>container_log/ConnectionManage.go\<close>. A connection caches
  the messages of \<open>write\<close> per four-byte message type and sends the cache when its timer
  fires; \<open>writeMid\<close> sends at once; \<open>onClose\<close> closes it once and takes it out of the hub.
  The hub is an explicit store: the connections by address and the table of registered ids.
  The first part models the methods one critical section at a time (all of them run under the
  connection's mutex); the second models the goroutines around the unbuffered channel
  \<open>WriteMsg\<close> as a step relation.
\<close>

section \<open>Connections\<close>

text \<open>\<open>monitor\<close> is the log monitor, if any, and whether it was closed; \<open>timer\<close> says that a
  timer is running; \<open>outMsgs\<close> is what went through the channel \<open>WriteMsg\<close>.\<close>

record ConnectDef =
  Id :: string
  monitor :: "bool option"
  outMsgs :: "byte list list"
  msgCache :: "(byte list, byte list) gomap"
  timer :: bool
  sendingFlag :: bool
  closed :: bool
  cancelled :: bool

record ConnectHub =
  conns :: "nat \<Rightarrow> ConnectDef option"
  connects :: "string \<Rightarrow> nat option"
  socketClosed :: "nat \<Rightarrow> bool"

definition newConnect :: "string \<Rightarrow> string \<Rightarrow> ConnectDef" where
  "newConnect ident operator =
     \<lparr>Id = ident, monitor = (if operator = ''log'' then Some False else None), outMsgs = [],
      msgCache = [], timer = False, sendingFlag = False, closed = False, cancelled = False\<rparr>"

text \<open>Registering stores the new connection, at a fresh address, under its id.\<close>

definition RegistryConnect :: "ConnectHub \<Rightarrow> nat \<Rightarrow> string \<Rightarrow> string \<Rightarrow> ConnectHub" where
  "RegistryConnect hub addr ident operator =
     hub\<lparr>conns := (conns hub)(addr \<mapsto> newConnect ident operator),
         connects := (connects hub)(ident \<mapsto> addr),
         socketClosed := (socketClosed hub)(addr := False)\<rparr>"

definition destroy :: "ConnectHub \<Rightarrow> string \<Rightarrow> ConnectHub" where
  "destroy hub ident =
     (case connects hub ident of
        None \<Rightarrow> hub
      | Some addr \<Rightarrow> hub\<lparr>socketClosed := (socketClosed hub)(addr := True),
                         connects := (connects hub)(ident := None)\<rparr>)"

definition writeMid :: "ConnectDef \<Rightarrow> byte list \<Rightarrow> ConnectDef" where
  "writeMid c message = (if \<not> closed c then c\<lparr>outMsgs := outMsgs c @ [message]\<rparr> else c)"

text \<open>\<open>message[0:4]\<close> panics on a shorter message.\<close>

definition cwrite :: "ConnectDef \<Rightarrow> byte list \<Rightarrow> ConnectDef option" where
  "cwrite c message =
     (if length message < 4 then None
      else let cacheKey = take 4 message;
               cache' = (case gm_get (msgCache c) cacheKey of
                           Some old \<Rightarrow> gm_set cacheKey (old @ drop 4 message) (msgCache c)
                         | None \<Rightarrow> gm_set cacheKey message (msgCache c));
               c' = c\<lparr>msgCache := cache'\<rparr>
           in Some (if \<not> sendingFlag c' then c'\<lparr>sendingFlag := True, timer := True\<rparr> else c'))"

text \<open>\<open>flush\<close>: the cached messages go out in the order the map is ranged over.\<close>

definition flush :: "ConnectDef \<Rightarrow> ConnectDef" where
  "flush c =
     (let c' = (if \<not> closed c then c\<lparr>outMsgs := outMsgs c @ map snd (msgCache c), msgCache := []\<rparr> else c)
      in c'\<lparr>sendingFlag := False\<rparr>)"

text \<open>The timer of \<open>write\<close> runs \<open>flush\<close> once.\<close>

definition timerFires :: "ConnectDef \<Rightarrow> ConnectDef" where
  "timerFires c = flush (c\<lparr>timer := False\<rparr>)"

definition onClose :: "ConnectHub \<Rightarrow> nat \<Rightarrow> ConnectHub" where
  "onClose hub addr =
     (case conns hub addr of
        None \<Rightarrow> hub
      | Some c \<Rightarrow>
          if closed c then hub
          else let c' = c\<lparr>monitor := map_option (\<lambda>_. True) (monitor c), closed := True, cancelled := True\<rparr>
               in destroy (hub\<lparr>conns := (conns hub)(addr \<mapsto> c')\<rparr>) (Id c))"

definition logStatMessage :: "byte list \<Rightarrow> byte list" where
  "logStatMessage message = LOG_STAT_MESSAGE @ message"

definition resourceMessage :: "byte list \<Rightarrow> byte list" where
  "resourceMessage message = RESOURCE_MESSAGE @ message"

definition gpuMessage :: "byte list \<Rightarrow> byte list" where
  "gpuMessage message = GPU_MESSAGE @ message"

section \<open>Runs of one open connection\<close>

datatype cop = Write "byte list" | Mid "byte list" | TimerFires | FlushNow

fun cstep :: "ConnectDef \<Rightarrow> cop \<Rightarrow> ConnectDef option" where
  "cstep c (Write m) = cwrite c m"
| "cstep c (Mid m) = Some (writeMid c m)"
| "cstep c TimerFires = (if timer c then Some (timerFires c) else None)"
| "cstep c FlushNow = Some (flush c)"

fun crun :: "ConnectDef \<Rightarrow> cop list \<Rightarrow> ConnectDef option" where
  "crun c [] = Some c"
| "crun c (x # xs) = do { c' \<leftarrow> cstep c x; crun c' xs }"

text \<open>The payload bytes of type \<open>k\<close> in a list of messages.\<close>

definition payload :: "byte list \<Rightarrow> byte list list \<Rightarrow> byte list" where
  "payload k ms = concat (map (drop 4) (filter (\<lambda>m. take 4 m = k) ms))"

fun writesOf :: "cop list \<Rightarrow> byte list list" where
  "writesOf [] = []"
| "writesOf (Write m # xs) = m # writesOf xs"
| "writesOf (x # xs) = writesOf xs"

fun midsOf :: "cop list \<Rightarrow> byte list list" where
  "midsOf [] = []"
| "midsOf (Mid m # xs) = m # midsOf xs"
| "midsOf (x # xs) = midsOf xs"

definition cached :: "byte list \<Rightarrow> ConnectDef \<Rightarrow> byte list" where
  "cached k c = (case gm_get (msgCache c) k of None \<Rightarrow> [] | Some m \<Rightarrow> drop 4 m)"

definition conn_wf :: "ConnectDef \<Rightarrow> bool" where
  "conn_wf c \<longleftrightarrow> gm_wf (msgCache c) \<and>
     (\<forall>k m. gm_get (msgCache c) k = Some m \<longrightarrow> take 4 m = k \<and> 4 \<le> length m) \<and>
     \<not> closed c \<and> (msgCache c \<noteq> [] \<longrightarrow> sendingFlag c) \<and> (sendingFlag c \<longrightarrow> timer c)"

lemma payload_simps [simp]:
  "payload k [] = []"
  "payload k (m # ms) = (if take 4 m = k then drop 4 m else []) @ payload k ms"
  "payload k (ms @ ns) = payload k ms @ payload k ns"
  by (simp_all add: payload_def)

lemma payload_cache:
  "gm_wf ca \<Longrightarrow> \<forall>k m. gm_get ca k = Some m \<longrightarrow> take 4 m = k \<Longrightarrow>
     payload k (map snd ca) = (case gm_get ca k of None \<Rightarrow> [] | Some m \<Rightarrow> drop 4 m)"
proof (induction ca)
  case (Cons x ca)
  obtain k1 m1 where x: "x = (k1, m1)" by (cases x)
  have fresh: "gm_get ca k1 = None" and wf: "gm_wf ca"
    using Cons.prems(1) x by (auto simp: gm_wf_def map_of_eq_None_iff)
  have "\<forall>k m. gm_get ca k = Some m \<longrightarrow> take 4 m = k"
    using Cons.prems(2) x fresh by (metis fun_upd_apply map_of.simps(2) option.distinct(1) fst_conv)
  note IH = Cons.IH [OF wf this]
  have "take 4 m1 = k1" using Cons.prems(2) x by simp
  then show ?case using x IH fresh by auto
qed simp

lemma newConnect_wf: "conn_wf (newConnect i p)"
  by (simp add: conn_wf_def newConnect_def)

lemma cstep_wf: "conn_wf c \<Longrightarrow> cstep c x = Some c' \<Longrightarrow> conn_wf c'"
proof (induction c x rule: cstep.induct)
  case (1 c m)
  then have len: "4 \<le> length m" by (simp add: cwrite_def split: if_splits)
  have old: "gm_get (msgCache c) (take 4 m) = Some x \<Longrightarrow> 4 \<le> length x" for x
    using 1(1) by (simp add: conn_wf_def)
  have new: "gm_get (msgCache c) (take 4 m) = Some x \<Longrightarrow> 4 \<le> length x + length m - 4" for x
    using old [of x] len by linarith
  from 1 len show ?case
    by (auto simp: cwrite_def conn_wf_def Let_def new gm_wf_def [of "[_]"]
        split: if_splits option.splits)
qed (auto simp: conn_wf_def writeMid_def timerFires_def flush_def Let_def split: if_splits)

lemma cstep_payload:
  assumes "conn_wf c" and "cstep c x = Some c'" and "\<forall>m \<in> set (midsOf [x]). take 4 m \<noteq> k"
  shows "payload k (outMsgs c') @ cached k c' = payload k (outMsgs c) @ cached k c @ payload k (writesOf [x])"
proof (cases x)
  case (Write m)
  with assms(1,2) show ?thesis
    by (auto simp: cwrite_def cached_def conn_wf_def Let_def split: if_splits option.splits)
next
  case (Mid m)
  with assms show ?thesis by (auto simp: writeMid_def cached_def)
next
  case TimerFires
  with assms(1,2) show ?thesis
    by (auto simp: timerFires_def flush_def cached_def conn_wf_def payload_cache Let_def
        split: if_splits option.splits)
next
  case FlushNow
  with assms(1,2) show ?thesis
    by (auto simp: flush_def cached_def conn_wf_def payload_cache Let_def split: if_splits option.splits)
qed

lemma crun_payload:
  "conn_wf c \<Longrightarrow> crun c xs = Some c' \<Longrightarrow> \<forall>m \<in> set (midsOf xs). take 4 m \<noteq> k \<Longrightarrow>
     conn_wf c' \<and> payload k (outMsgs c') @ cached k c' = payload k (outMsgs c) @ cached k c @ payload k (writesOf xs)"
proof (induction xs arbitrary: c)
  case (Cons x xs)
  then obtain c1 where c1: "cstep c x = Some c1" "crun c1 xs = Some c'"
    by (auto simp: bind_eq_Some_conv)
  have mids: "\<forall>m \<in> set (midsOf [x]). take 4 m \<noteq> k" "\<forall>m \<in> set (midsOf xs). take 4 m \<noteq> k"
    using Cons.prems(3) by (cases x; simp)+
  have "writesOf (x # xs) = writesOf [x] @ writesOf xs" by (cases x) simp_all
  then show ?case
    using Cons.IH [OF cstep_wf [OF Cons.prems(1) c1(1)] c1(2) mids(2)]
      cstep_payload [OF Cons.prems(1) c1(1) mids(1)]
    by simp
qed simp

section \<open>The goroutines around the channel\<close>

text \<open>
  \<open>WriteMsg\<close> is unbuffered: a send waits for the receiving goroutine of \<open>watch\<close>. The
  senders (\<open>writeMid\<close>, \<open>flush\<close>) send while they hold the mutex of the connection; the
  receiver, when the websocket write fails, calls \<open>onClose\<close>, which takes the same mutex. A
  state is where one sender and the receiver stand, who holds the mutex and whether the
  connection was closed (and its context cancelled).
\<close>

datatype sender_pc = SIdle | SSending
datatype receiver_pc = RSelect | RWriting | RClosing | RDone

record chan_state =
  spc :: sender_pc
  rpc :: receiver_pc
  locked :: bool
  isClosed :: bool

definition chan_init :: chan_state where
  "chan_init = \<lparr>spc = SIdle, rpc = RSelect, locked = False, isClosed = False\<rparr>"

inductive chan_step :: "chan_state \<Rightarrow> chan_state \<Rightarrow> bool" where
  sender_locks: "spc s = SIdle \<Longrightarrow> \<not> locked s \<Longrightarrow> \<not> isClosed s \<Longrightarrow>
     chan_step s (s\<lparr>spc := SSending, locked := True\<rparr>)"
| sender_skips: "spc s = SIdle \<Longrightarrow> \<not> locked s \<Longrightarrow> isClosed s \<Longrightarrow> chan_step s s"
| handover: "spc s = SSending \<Longrightarrow> rpc s = RSelect \<Longrightarrow>
     chan_step s (s\<lparr>spc := SIdle, locked := False, rpc := RWriting\<rparr>)"
| write_ok: "rpc s = RWriting \<Longrightarrow> chan_step s (s\<lparr>rpc := RSelect\<rparr>)"
| write_fails: "rpc s = RWriting \<Longrightarrow> chan_step s (s\<lparr>rpc := RClosing\<rparr>)"
| closes: "rpc s = RClosing \<Longrightarrow> \<not> locked s \<Longrightarrow>
     chan_step s (s\<lparr>rpc := RSelect, isClosed := True\<rparr>)"
| context_done: "rpc s = RSelect \<Longrightarrow> isClosed s \<Longrightarrow> chan_step s (s\<lparr>rpc := RDone\<rparr>)"

inductive_simps chan_step_from: "chan_step s t"

section \<open>Properties\<close>

text \<open>Caching loses and reorders nothing within a message type. In any run of an open
  connection (writes, direct sends, timer events and final flushes in any order, the cache
  ranged over in any order), for each message type that is not also sent directly, the bytes
  already sent followed by the bytes still cached are exactly the bytes written, in order; and
  whatever is cached has a running timer that will send it.\<close>

theorem cached_messages_delivered_in_order:
  assumes "crun (newConnect ident operator) xs = Some c" and "\<forall>m \<in> set (midsOf xs). take 4 m \<noteq> k"
  shows "payload k (outMsgs c) @ cached k c = payload k (writesOf xs) \<and>
    (msgCache c \<noteq> [] \<longrightarrow> timer c \<and> payload k (outMsgs (timerFires c)) = payload k (writesOf xs))"
proof -
  have run: "conn_wf c" "payload k (outMsgs c) @ cached k c = payload k (writesOf xs)"
    using crun_payload [OF newConnect_wf assms]
    by (simp_all add: newConnect_def cached_def)
  have "payload k (outMsgs (timerFires c)) = payload k (outMsgs c) @ cached k c"
    using run(1) by (simp add: timerFires_def flush_def cached_def conn_wf_def payload_cache Let_def)
  with run show ?thesis by (simp add: conn_wf_def)
qed

theorem cached_messages_delivered_in_order_witness:
  "\<exists>c. crun (newConnect ''u1'' ''log'') [Write (GPU_MESSAGE @ [7]), Mid (LOG_STAT_MESSAGE @ [1]),
         Write (GPU_MESSAGE @ [8])] = Some c \<and>
     payload GPU_MESSAGE (outMsgs c) @ cached GPU_MESSAGE c = [7, 8]"
proof -
  let ?xs = "[Write (GPU_MESSAGE @ [7]), Mid (LOG_STAT_MESSAGE @ [1]), Write (GPU_MESSAGE @ [8])]"
  obtain c where c: "crun (newConnect ''u1'' ''log'') ?xs = Some c"
    by (simp add: cwrite_def newConnect_def GPU_MESSAGE_def LOG_STAT_MESSAGE_def writeMid_def Let_def)
  have "\<forall>m \<in> set (midsOf ?xs). take 4 m \<noteq> GPU_MESSAGE"
    by (simp add: LOG_STAT_MESSAGE_def GPU_MESSAGE_def)
  from cached_messages_delivered_in_order [OF c this] c show ?thesis
    by (auto simp: GPU_MESSAGE_def)
qed

text \<open>Closing happens once and takes the connection out of the hub. After \<open>onClose\<close> the
  connection is closed, its monitor is closed, its context cancelled, its id free and its
  socket closed; a second \<open>onClose\<close> changes nothing, other ids stay registered, and nothing
  is sent any more.\<close>

theorem onClose_once:
  assumes "conns hub addr = Some c" and "\<not> closed c" and "connects hub (Id c) = Some addr"
  shows "\<exists>c'. conns (onClose hub addr) addr = Some c' \<and> closed c' \<and> cancelled c' \<and> monitor c' \<noteq> Some False \<and>
     connects (onClose hub addr) = (connects hub)(Id c := None) \<and> socketClosed (onClose hub addr) addr \<and>
     onClose (onClose hub addr) addr = onClose hub addr \<and>
     outMsgs (writeMid c' m) = outMsgs c' \<and> outMsgs (flush c') = outMsgs c'"
proof -
  have eq: "onClose hub addr = hub\<lparr>conns := (conns hub)(addr \<mapsto> c\<lparr>monitor := map_option (\<lambda>_. True) (monitor c),
        closed := True, cancelled := True\<rparr>), socketClosed := (socketClosed hub)(addr := True),
        connects := (connects hub)(Id c := None)\<rparr>"
    using assms by (simp add: onClose_def destroy_def Let_def)
  show ?thesis
    unfolding eq by (cases "monitor c") (simp_all add: onClose_def writeMid_def flush_def)
qed

theorem onClose_once_witness:
  "\<exists>c'. conns (onClose (RegistryConnect \<lparr>conns = Map.empty, connects = Map.empty,
      socketClosed = (\<lambda>_. False)\<rparr> 3 ''u1'' ''log'') 3) 3 = Some c' \<and> closed c'"
proof -
  let ?hub = "RegistryConnect \<lparr>conns = Map.empty, connects = Map.empty, socketClosed = (\<lambda>_. False)\<rparr> 3 ''u1'' ''log''"
  have "conns ?hub 3 = Some (newConnect ''u1'' ''log'')" "\<not> closed (newConnect ''u1'' ''log'')"
      "connects ?hub (Id (newConnect ''u1'' ''log'')) = Some 3"
    by (simp_all add: RegistryConnect_def newConnect_def)
  from onClose_once [OF this] show ?thesis by blast
qed

text \<open>A failing websocket write can lock the connection up for good. There is a run in
  which a sender waits on the channel while it holds the mutex and the receiver, after a
  failed write, waits for that mutex inside \<open>onClose\<close>: from that state no goroutine can
  move, and the connection is never closed.\<close>

theorem failed_write_deadlocks:
  "\<exists>s. chan_step\<^sup>*\<^sup>* chan_init s \<and> spc s = SSending \<and> rpc s = RClosing \<and> \<not> isClosed s \<and>
     (\<forall>t. \<not> chan_step s t)"
proof -
  let ?s = "\<lparr>spc = SSending, rpc = RClosing, locked = True, isClosed = False\<rparr>"
  have "chan_step chan_init (chan_init\<lparr>spc := SSending, locked := True\<rparr>)"
    by (rule chan_step.sender_locks) (simp_all add: chan_init_def)
  moreover have "chan_step (chan_init\<lparr>spc := SSending, locked := True\<rparr>) (chan_init\<lparr>rpc := RWriting\<rparr>)"
    using chan_step.handover [of "chan_init\<lparr>spc := SSending, locked := True\<rparr>"]
    by (simp add: chan_init_def)
  moreover have "chan_step (chan_init\<lparr>rpc := RWriting\<rparr>) (chan_init\<lparr>rpc := RWriting, spc := SSending, locked := True\<rparr>)"
    using chan_step.sender_locks [of "chan_init\<lparr>rpc := RWriting\<rparr>"] by (simp add: chan_init_def)
  moreover have "chan_step (chan_init\<lparr>rpc := RWriting, spc := SSending, locked := True\<rparr>) ?s"
    using chan_step.write_fails [of "chan_init\<lparr>rpc := RWriting, spc := SSending, locked := True\<rparr>"]
    by (simp add: chan_init_def)
  ultimately have "chan_step\<^sup>*\<^sup>* chan_init ?s"
    by (meson r_into_rtranclp rtranclp_trans)
  moreover have "\<not> chan_step ?s t" for t
    by (simp add: chan_step_from)
  ultimately show ?thesis by (intro exI [of _ ?s]) simp
qed

end
