(* ===== verification/AES_Auth.thy ===== *)
theory AES_Auth
  imports Go_Prelude
begin

text \<open>
  The encrypted tokens of \<open>container_log/AESAuth.go\<close> and the parameter record of
  \<open>container_log/LogParam.go\<close>. A token is the base64 text of a 16-byte initialisation
  vector and the CBC encryption of the PKCS7-padded payload. Base64, CBC mode and the padding
  are modelled byte by byte; the AES block cipher itself (its encryption and decryption of one
  block under the configured key) and JSON decoding are parameters. Go panics (slice bounds, a
  nil cipher, a ciphertext that is not a whole number of blocks) are the outcome \<open>Panic\<close>,
  which the \<open>recover\<close> of the two authenticating methods turns into an error. The signed tokens of
  \<open>container_log/JwtAuth.go\<close> are at the end.
\<close>

unbundle bit_operations_syntax

section \<open>Outcomes\<close>

datatype auth_error = BadBase64 | BadKeySize nat | InvalidToken | TokenExpired

datatype 'a outcome = Ret 'a | Fail auth_error | Panic

text \<open>The deferred \<open>recover\<close> of \<open>Auth\<close> and \<open>AuthJWTToken\<close>.\<close>

fun recovering :: "'a outcome \<Rightarrow> 'a outcome" where
  "recovering Panic = Fail InvalidToken"
| "recovering r = r"

section \<open>Base64\<close>

definition b64alphabet :: string where
  "b64alphabet = ''ABCDEFGHIJKLMNOPQRSTUVWXYZabcdefghijklmnopqrstuvwxyz0123456789+/''"

definition b64digit :: "nat \<Rightarrow> char" where
  "b64digit d = b64alphabet ! d"

definition b64val :: "char \<Rightarrow> nat option" where
  "b64val c = indexOf [c] b64alphabet"

fun encodeToString :: "byte list \<Rightarrow> string" where
  "encodeToString [] = []"
| "encodeToString [a] =
     [b64digit (unat a div 4), b64digit (unat a mod 4 * 16), CHR ''='', CHR ''='']"
| "encodeToString [a, b] =
     [b64digit (unat a div 4), b64digit (unat a mod 4 * 16 + unat b div 16),
      b64digit (unat b mod 16 * 4), CHR ''='']"
| "encodeToString (a # b # c # bs) =
     [b64digit (unat a div 4), b64digit (unat a mod 4 * 16 + unat b div 16),
      b64digit (unat b mod 16 * 4 + unat c div 64), b64digit (unat c mod 64)] @ encodeToString bs"

fun decodeQuads :: "string \<Rightarrow> byte list option" where
  "decodeQuads [] = Some []"
| "decodeQuads (p # q # r # s # rest) = do {
     vp \<leftarrow> b64val p;
     vq \<leftarrow> b64val q;
     let a = of_nat (vp * 4 + vq div 16);
     if r = CHR ''='' then
       (if s = CHR ''='' \<and> rest = [] then Some [a] else None)
     else do {
       vr \<leftarrow> b64val r;
       let b = of_nat (vq mod 16 * 16 + vr div 4);
       if s = CHR ''='' then (if rest = [] then Some [a, b] else None)
       else do {
         vs \<leftarrow> b64val s;
         bs \<leftarrow> decodeQuads rest;
         Some (a # b # of_nat (vr mod 4 * 64 + vs) # bs) } } }"
| "decodeQuads _ = None"

text \<open>\<open>base64.StdEncoding.DecodeString\<close> skips line breaks.\<close>

definition decodeString :: "string \<Rightarrow> byte list option" where
  "decodeString s = decodeQuads (filter (\<lambda>c. c \<noteq> CHR 0x0A \<and> c \<noteq> CHR 0x0D) s)"

section \<open>Padding and block chaining\<close>

definition blockSize :: nat where "blockSize = 16"

definition PaddingPKCS7 :: "byte list \<Rightarrow> nat \<Rightarrow> byte list" where
  "PaddingPKCS7 data bs =
     (let padding = bs - length data mod bs in data @ replicate padding (of_nat padding))"

definition UnPaddingPKCS7 :: "byte list \<Rightarrow> byte list outcome" where
  "UnPaddingPKCS7 data =
     (if data = [] then Panic
      else let padding = unat (last data) in
        if padding > length data then Ret data
        else Ret (take (length data - padding) data))"

definition xorBytes :: "byte list \<Rightarrow> byte list \<Rightarrow> byte list" where
  "xorBytes xs ys = map2 (XOR) xs ys"

function cbcEncrypt :: "(byte list \<Rightarrow> byte list) \<Rightarrow> byte list \<Rightarrow> byte list \<Rightarrow> byte list" where
  "cbcEncrypt E iv xs =
     (if length xs < blockSize then []
      else let c = E (xorBytes (take blockSize xs) iv) in c @ cbcEncrypt E c (drop blockSize xs))"
  by pat_completeness auto
termination
  by (relation "measure (\<lambda>(E, iv, xs). length xs)") (auto simp: blockSize_def)

function cbcDecrypt :: "(byte list \<Rightarrow> byte list) \<Rightarrow> byte list \<Rightarrow> byte list \<Rightarrow> byte list" where
  "cbcDecrypt D iv cs =
     (if length cs < blockSize then []
      else xorBytes (D (take blockSize cs)) iv @ cbcDecrypt D (take blockSize cs) (drop blockSize cs))"
  by pat_completeness auto
termination
  by (relation "measure (\<lambda>(D, iv, cs). length cs)") (auto simp: blockSize_def)

declare cbcEncrypt.simps [simp del] cbcDecrypt.simps [simp del]

section \<open>Tokens\<close>

text \<open>\<open>aes.NewCipher\<close> accepts keys of 16, 24 and 32 bytes. \<open>E\<close> and \<open>D\<close> take the key.\<close>

definition keySizeOk :: "byte list \<Rightarrow> bool" where
  "keySizeOk key \<longleftrightarrow> length key \<in> {16, 24, 32}"

definition AuthJWTToken ::
  "(byte list \<Rightarrow> byte list \<Rightarrow> byte list) \<Rightarrow> byte list \<Rightarrow> string \<Rightarrow> byte list outcome" where
  "AuthJWTToken D key token = recovering
     (case decodeString token of
        None \<Rightarrow> Fail BadBase64
      | Some t \<Rightarrow>
          if \<not> keySizeOk key then Fail (BadKeySize (length key))
          else if length t < blockSize then Panic
          else let iv = take blockSize t; cipherText = drop blockSize t in
            if length cipherText mod blockSize \<noteq> 0 then Panic
            else UnPaddingPKCS7 (cbcDecrypt (D key) iv cipherText))"

text \<open>\<open>GeneratorJWTToken\<close> drops the error of \<open>aes.NewCipher\<close>, so a key of the wrong size
  is a nil cipher and its first use panics. \<open>iv\<close> is what the random source filled in.\<close>

definition GeneratorJWTToken ::
  "(byte list \<Rightarrow> byte list \<Rightarrow> byte list) \<Rightarrow> byte list \<Rightarrow> byte list \<Rightarrow> byte list \<Rightarrow> string outcome" where
  "GeneratorJWTToken E key iv param =
     (if \<not> keySizeOk key then Panic
      else let padded = PaddingPKCS7 param blockSize;
               chiperText = cbcEncrypt (E key) iv padded
           in Ret (encodeToString (iv @ chiperText)))"

record LogParam =
  Host :: string
  ContainerId :: string
  Operator :: string
  Tail :: string
  TrackNo :: string
  PodLabel :: string
  PodName :: string
  MinioObjName :: string
  ExpirationTime :: int

definition isContainerLog :: "LogParam \<Rightarrow> bool" where
  "isContainerLog p \<longleftrightarrow> PodLabel p = []"

definition isExpiration :: "int \<Rightarrow> LogParam \<Rightarrow> bool" where
  "isExpiration now p \<longleftrightarrow> \<not> ExpirationTime p > now"

text \<open>\<open>Auth\<close>: the result of \<open>UnPaddingPKCS7\<close> is decoded without looking at either error;
  \<open>unmarshal\<close> is \<open>json.Unmarshal\<close> into an empty record.\<close>

definition Auth ::
  "(byte list \<Rightarrow> byte list \<Rightarrow> byte list) \<Rightarrow> (byte list \<Rightarrow> LogParam) \<Rightarrow> byte list \<Rightarrow> int \<Rightarrow> string \<Rightarrow>
   LogParam outcome" where
  "Auth D unmarshal key now token = recovering
     (case decodeString token of
        None \<Rightarrow> Fail BadBase64
      | Some t \<Rightarrow>
          if \<not> keySizeOk key then Fail (BadKeySize (length key))
          else if length t < blockSize then Panic
          else let iv = take blockSize t; cipherText = drop blockSize t in
            if length cipherText mod blockSize \<noteq> 0 then Panic
            else (case UnPaddingPKCS7 (cbcDecrypt (D key) iv cipherText) of
                    Ret plainText \<Rightarrow>
                      (let res = unmarshal plainText
                       in if isExpiration now res then Fail TokenExpired else Ret res)
                  | Fail e \<Rightarrow> Fail e
                  | Panic \<Rightarrow> Panic))"

text \<open>\<open>GeneratorToken\<close>, with \<open>marshal\<close> for \<open>json.Marshal\<close>; a marshalling error gives
  the empty token.\<close>

definition GeneratorToken ::
  "(byte list \<Rightarrow> byte list \<Rightarrow> byte list) \<Rightarrow> (LogParam \<Rightarrow> byte list option) \<Rightarrow> byte list \<Rightarrow> byte list \<Rightarrow>
   LogParam \<Rightarrow> string outcome" where
  "GeneratorToken E marshal key iv logParam =
     (case marshal logParam of
        None \<Rightarrow> Ret []
      | Some paramJson \<Rightarrow>
          if \<not> keySizeOk key then Panic
          else let padded = PaddingPKCS7 paramJson blockSize;
                   chiperText = cbcEncrypt (E key) iv padded
               in Ret (encodeToString (iv @ chiperText)))"

section \<open>Round trips\<close>

lemma b64_digit_val: "d < 64 \<Longrightarrow> b64val (b64digit d) = Some d"
proof -
  have "\<forall>d \<in> set [0..<64]. b64val (b64digit d) = Some d" by code_simp
  then show "d < 64 \<Longrightarrow> b64val (b64digit d) = Some d" by simp
qed

lemma b64_digit_plain:
  "d < 64 \<Longrightarrow> b64digit d \<noteq> CHR ''='' \<and> b64digit d \<noteq> CHR 0x0A \<and> b64digit d \<noteq> CHR 0x0D"
proof -
  have "\<forall>d \<in> set [0..<64]. b64digit d \<noteq> CHR ''='' \<and> b64digit d \<noteq> CHR 0x0A \<and> b64digit d \<noteq> CHR 0x0D"
    by code_simp
  then show "d < 64 \<Longrightarrow> b64digit d \<noteq> CHR ''='' \<and> b64digit d \<noteq> CHR 0x0A \<and> b64digit d \<noteq> CHR 0x0D"
    by simp
qed

lemma unat_byte: "unat (a :: byte) < 256"
proof -
  have "unat a < 2 ^ LENGTH(8)" by (rule unsigned_less)
  then show ?thesis by simp
qed

lemma b64_bounds:
  "unat (a :: byte) div 4 < 64" "unat a mod 4 * 16 < 64" "unat a mod 4 * 16 + unat (b :: byte) div 16 < 64"
  "unat b mod 16 * 4 < 64" "unat b mod 16 * 4 + unat (c :: byte) div 64 < 64" "unat c mod 64 < 64"
proof -
  note n = unat_byte [of a] unat_byte [of b] unat_byte [of c]
  show "unat a div 4 < 64" using n by (simp add: less_mult_imp_div_less)
  show "unat a mod 4 * 16 < 64" using mod_less_divisor [of 4 "unat a"] by linarith
  have "unat b div 16 < 16" using n by (simp add: less_mult_imp_div_less)
  then show "unat a mod 4 * 16 + unat b div 16 < 64"
    using mod_less_divisor [of 4 "unat a"] by linarith
  show "unat b mod 16 * 4 < 64" using mod_less_divisor [of 16 "unat b"] by linarith
  have "unat c div 64 < 4" using n by (simp add: less_mult_imp_div_less)
  then show "unat b mod 16 * 4 + unat c div 64 < 64"
    using mod_less_divisor [of 16 "unat b"] by linarith
  show "unat c mod 64 < 64" by simp
qed

lemma b64_rebuild1:
  "x < 16 \<Longrightarrow> (of_nat (unat a div 4 * 4 + (unat a mod 4 * 16 + x) div 16) :: byte) = a"
  by (simp add: div_mult_mod_eq)

lemma b64_rebuild2:
  fixes a b :: byte
  assumes "y < 4"
  shows "(of_nat ((unat a mod 4 * 16 + unat b div 16) mod 16 * 16 + (unat b mod 16 * 4 + y) div 4) :: byte) = b"
proof -
  have "unat b div 16 < 16" using unat_byte [of b] by (simp add: less_mult_imp_div_less)
  with assms show ?thesis by (simp add: div_mult_mod_eq)
qed

lemma b64_rebuild3:
  fixes b c :: byte
  shows "(of_nat ((unat b mod 16 * 4 + unat c div 64) mod 4 * 64 + unat c mod 64) :: byte) = c"
proof -
  have "unat c div 64 < 4" using unat_byte [of c] by (simp add: less_mult_imp_div_less)
  then show ?thesis by (simp add: div_mult_mod_eq)
qed

lemma decodeQuads_encode: "decodeQuads (encodeToString bs) = Some bs"
proof (induction bs rule: encodeToString.induct)
  case (2 a)
  then show ?case
    using b64_rebuild1 [of 0 a] by (simp add: b64_digit_val b64_bounds del: of_nat_add of_nat_mult)
next
  case (3 a b)
  have "unat b div 16 < 16" using unat_byte [of b] by (simp add: less_mult_imp_div_less)
  then show ?case
    using b64_rebuild1 [of "unat b div 16" a] b64_rebuild2 [of 0 a b]
    by (simp add: b64_digit_val b64_digit_plain b64_bounds del: of_nat_add of_nat_mult)
next
  case (4 a b c bs)
  have "unat b div 16 < 16" "unat c div 64 < 4"
    using unat_byte [of b] unat_byte [of c] by (simp_all add: less_mult_imp_div_less)
  then show ?case
    using b64_rebuild1 [of "unat b div 16" a] b64_rebuild2 [of "unat c div 64" a b]
      b64_rebuild3 [of b c] 4
    by (simp add: b64_digit_val b64_digit_plain b64_bounds del: of_nat_add of_nat_mult)
qed simp

lemma decodeString_encode: "decodeString (encodeToString bs) = Some bs"
proof -
  have "filter (\<lambda>c. c \<noteq> CHR 0x0A \<and> c \<noteq> CHR 0x0D) (encodeToString bs) = encodeToString bs"
    by (induction bs rule: encodeToString.induct) (simp_all add: b64_digit_plain b64_bounds)
  then show ?thesis by (simp add: decodeString_def decodeQuads_encode)
qed

lemma PaddingPKCS7_length:
  "0 < bs \<Longrightarrow> length (PaddingPKCS7 data bs) mod bs = 0 \<and> length data < length (PaddingPKCS7 data bs)"
proof -
  assume "0 < bs"
  then have lt: "length data mod bs < bs" by simp
  have "length (PaddingPKCS7 data bs) = length data div bs * bs + length data mod bs + (bs - length data mod bs)"
    by (simp add: PaddingPKCS7_def Let_def div_mult_mod_eq)
  also have "\<dots> = (length data div bs + 1) * bs"
    using lt by (simp only: add_mult_distrib mult_1 add.assoc le_add_diff_inverse less_imp_le)
  finally have "length (PaddingPKCS7 data bs) mod bs = 0" by simp
  then show ?thesis using lt by (simp add: PaddingPKCS7_def Let_def)
qed

lemma UnPadding_Padding: "0 < bs \<Longrightarrow> bs < 256 \<Longrightarrow> UnPaddingPKCS7 (PaddingPKCS7 data bs) = Ret data"
proof -
  assume bs: "0 < bs" "bs < 256"
  define padding where "padding = bs - length data mod bs"
  have p: "0 < padding" "padding < 256" using bs unfolding padding_def by simp_all
  then have "unat (of_nat padding :: byte) = padding" by (simp add: unat_of_nat)
  with p show ?thesis
    by (simp add: UnPaddingPKCS7_def PaddingPKCS7_def Let_def padding_def [symmetric])
qed

lemma xorBytes_cancel:
  "length xs = length ys \<Longrightarrow> xorBytes (xorBytes xs ys) ys = xs"
  by (induction xs ys rule: list_induct2) (simp_all add: xorBytes_def xor.assoc)

lemma length_xorBytes [simp]: "length (xorBytes xs ys) = min (length xs) (length ys)"
  by (simp add: xorBytes_def)

text \<open>What AES promises for one key: blocks stay blocks and decryption undoes encryption.\<close>

definition blockCipher :: "(byte list \<Rightarrow> byte list) \<Rightarrow> (byte list \<Rightarrow> byte list) \<Rightarrow> bool" where
  "blockCipher E D \<longleftrightarrow>
     (\<forall>b. length b = blockSize \<longrightarrow> length (E b) = blockSize \<and> D (E b) = b)"

lemma cbc_round_trip:
  "blockCipher E D \<Longrightarrow> length iv = blockSize \<Longrightarrow> length xs mod blockSize = 0 \<Longrightarrow>
     length (cbcEncrypt E iv xs) = length xs \<and> cbcDecrypt D iv (cbcEncrypt E iv xs) = xs"
proof (induction E iv xs rule: cbcEncrypt.induct)
  case (1 E iv xs)
  show ?case
  proof (cases "length xs < blockSize")
    case True
    with 1(4) have "xs = []" by simp
    then show ?thesis
      using True by (simp add: cbcEncrypt.simps cbcDecrypt.simps)
  next
    case False
    define c where "c = E (xorBytes (take blockSize xs) iv)"
    have c: "length c = blockSize" "D c = xorBytes (take blockSize xs) iv"
      using False 1(2,3) by (auto simp: c_def blockCipher_def)
    have "length (drop blockSize xs) mod blockSize = 0"
      using False 1(4) by (simp add: le_mod_geq)
    with 1(1) [OF False c_def 1(2) c(1)]
    have IH: "length (cbcEncrypt E c (drop blockSize xs)) = length (drop blockSize xs)"
        "cbcDecrypt D c (cbcEncrypt E c (drop blockSize xs)) = drop blockSize xs"
      by simp_all
    have enc: "cbcEncrypt E iv xs = c @ cbcEncrypt E c (drop blockSize xs)"
      using False by (subst cbcEncrypt.simps) (simp add: Let_def c_def)
    have "cbcDecrypt D iv (cbcEncrypt E iv xs) = xorBytes (D c) iv @ drop blockSize xs"
      unfolding enc using c(1) IH(2) by (subst cbcDecrypt.simps) simp
    also have "xorBytes (D c) iv = take blockSize xs"
      using False 1(3) c(2) by (simp add: xorBytes_cancel)
    finally show ?thesis using enc c(1) IH(1) False by simp
  qed
qed

lemma recovering_not_Panic: "recovering r \<noteq> Panic"
  by (cases r) simp_all

section \<open>Properties\<close>

lemma generated_token_decrypts:
  assumes "keySizeOk key" and "length iv = blockSize" and "blockCipher (E key) (D key)"
  obtains token where "GeneratorJWTToken E key iv param = Ret token" and "AuthJWTToken D key token = Ret param"
proof -
  have pad: "length (PaddingPKCS7 param blockSize) mod blockSize = 0"
    using PaddingPKCS7_length [of blockSize param] by (simp add: blockSize_def)
  note cbc = cbc_round_trip [OF assms(3,2) pad]
  have "AuthJWTToken D key (encodeToString (iv @ cbcEncrypt (E key) iv (PaddingPKCS7 param blockSize))) = Ret param"
    using assms(1,2) cbc pad UnPadding_Padding [of blockSize param]
    by (simp add: AuthJWTToken_def decodeString_encode Let_def blockSize_def)
  then show ?thesis using that assms(1) by (simp add: GeneratorJWTToken_def Let_def)
qed

text \<open>C7: Tokens round-trip. For every key size AES accepts, every random initialisation
  vector and every payload (empty and block-aligned ones included), a token made by
  \<open>GeneratorJWTToken\<close> is accepted by \<open>AuthJWTToken\<close> under the same key and yields exactly
  the payload, given only that AES decryption inverts encryption on single blocks.\<close>

theorem token_round_trip:
  assumes "keySizeOk key" and "length iv = blockSize" and "blockCipher (E key) (D key)"
  shows "\<exists>token. GeneratorJWTToken E key iv param = Ret token \<and> AuthJWTToken D key token = Ret param"
  using generated_token_decrypts [of key iv E D param] assms by blast

theorem token_round_trip_witness:
  "\<exists>token. GeneratorJWTToken (\<lambda>k. map (\<lambda>b. b XOR 5)) (replicate 16 7) (replicate 16 1) [65, 66] = Ret token \<and>
     AuthJWTToken (\<lambda>k. map (\<lambda>b. b XOR 5)) (replicate 16 7) token = Ret [65, 66]"
proof -
  let ?E = "\<lambda>k :: byte list. map (\<lambda>b :: byte. b XOR 5)"
  have "blockCipher (?E (replicate 16 7)) (?E (replicate 16 7))"
    by (simp add: blockCipher_def comp_def xor.assoc)
  then show ?thesis
    using token_round_trip [of "replicate 16 7" "replicate 16 1" ?E ?E "[65, 66]"]
    by (simp add: keySizeOk_def blockSize_def)
qed


section \<open>Signed tokens\<close>

text \<open>\<open>container_log/JwtAuth.go\<close>, over the JWT library: \<open>parse\<close> answers with an error or with the
  claims, if they have the expected type, and whether the token is valid; \<open>sign\<close> takes the claims, the
  time of expiry and the key. A token that parses but is not valid gives neither claims nor an
  error.\<close>

definition jwtAuth :: "(string \<Rightarrow> string \<Rightarrow> string + LogParam option \<times> bool) \<Rightarrow> string \<Rightarrow> string \<Rightarrow> string + LogParam option" where
  "jwtAuth parse secretKey token =
     (case parse token secretKey of
        Inl e \<Rightarrow> Inl e
      | Inr (claims, valid) \<Rightarrow> Inr (if valid then claims else None))"

definition jwtGeneratorToken :: "(LogParam \<Rightarrow> int \<Rightarrow> string \<Rightarrow> string + string) \<Rightarrow> int \<Rightarrow> string \<Rightarrow> LogParam \<Rightarrow> int \<Rightarrow> string + string" where
  "jwtGeneratorToken sign now secretKey logParam live = sign logParam (now + live) secretKey"

text \<open>With a library that accepts what it signed until its expiry, a generated token gives back its
  parameter while it lives.\<close>

lemma jwt_round_trip:
  assumes "\<And>p t k tok. sign p t k = Inr tok \<Longrightarrow> later < t \<Longrightarrow> parse tok k = Inr (Some p, True)"
    and "jwtGeneratorToken sign now key p live = Inr tok" and "later < now + live"
  shows "jwtAuth parse key tok = Inr (Some p)"
  using assms by (simp add: jwtAuth_def jwtGeneratorToken_def)

end
