(* ===== verification/Go_Path.thy ===== *)
theory Go_Path
  imports Go_Prelude
begin

text \<open>
  Go's \<open>path\<close> and \<open>path/filepath\<close> on Unix, where the two agree: \<open>Clean\<close>,
  \<open>Join\<close>, \<open>Dir\<close>, \<open>Base\<close>, \<open>IsAbs\<close> and \<open>Rel\<close>. A path is processed as the list of
  its components; \<open>cleanStep\<close> is the rule for one component over the stack of those kept.
\<close>

abbreviation slash :: char where "slash \<equiv> CHR ''/''"

fun cleanStep :: "bool \<Rightarrow> string list \<Rightarrow> string \<Rightarrow> string list" where
  "cleanStep rooted stack cmp =
     (if cmp = [] \<or> cmp = ''.'' then stack
      else if cmp = ''..'' then
        (case stack of
           [] \<Rightarrow> if rooted then [] else [cmp]
         | tp # rest \<Rightarrow> if tp = ''..'' then cmp # stack else rest)
      else cmp # stack)"

definition isAbs :: "string \<Rightarrow> bool" where
  "isAbs p \<longleftrightarrow> hasPrefix p ''/''"

definition cleanComps :: "string \<Rightarrow> string list" where
  "cleanComps p = rev (foldl (cleanStep (isAbs p)) [] (splitC slash p))"

definition pathClean :: "string \<Rightarrow> string" where
  "pathClean p =
     (if isAbs p then slash # joinC slash (cleanComps p)
      else if cleanComps p = [] then ''.'' else joinC slash (cleanComps p))"

definition pathJoin :: "string list \<Rightarrow> string" where
  "pathJoin elems =
     (case filter (\<lambda>e. e \<noteq> []) elems of [] \<Rightarrow> [] | es \<Rightarrow> pathClean (joinC slash es))"

text \<open>\<open>Dir\<close>: everything up to and including the last slash, cleaned.\<close>

definition upToSlash :: "string \<Rightarrow> string" where
  "upToSlash p = rev (dropWhile (\<lambda>c. c \<noteq> slash) (rev p))"

definition pathDir :: "string \<Rightarrow> string" where
  "pathDir p = pathClean (upToSlash p)"

definition pathBase :: "string \<Rightarrow> string" where
  "pathBase p =
     (if p = [] then ''.''
      else let q = trimRight p [slash];
               b = rev (takeWhile (\<lambda>c. c \<noteq> slash) (rev q))
           in if b = [] then ''/'' else b)"

text \<open>\<open>Rel\<close>: \<open>None\<close> is its error (the target cannot be made relative to the base).\<close>

fun dropCommon :: "string list \<Rightarrow> string list \<Rightarrow> string list \<times> string list" where
  "dropCommon (b # bs) (t # ts) = (if b = t then dropCommon bs ts else (b # bs, t # ts))"
| "dropCommon bs ts = (bs, ts)"

definition pathRel :: "string \<Rightarrow> string \<Rightarrow> string option" where
  "pathRel basepath targpath =
     (let base = cleanComps basepath; targ = cleanComps targpath
      in if isAbs basepath = isAbs targpath \<and> base = targ then Some ''.''
         else if isAbs basepath \<noteq> isAbs targpath then None
         else let (b, t) = dropCommon base targ
              in if b \<noteq> [] \<and> hd b = ''..'' then None
                 else Some (joinC slash (replicate (length b) ''..'' @ t)))"

section \<open>Clean absolute paths\<close>

text \<open>A component that is a proper file name, and the path made of such components.\<close>

definition properComp :: "string \<Rightarrow> bool" where
  "properComp c \<longleftrightarrow> c \<noteq> [] \<and> c \<noteq> ''.'' \<and> c \<noteq> ''..'' \<and> slash \<notin> set c"

definition absPath :: "string list \<Rightarrow> string" where
  "absPath cs = slash # joinC slash cs"

lemma isAbs_absPath [simp]: "isAbs (absPath cs)"
  by (simp add: isAbs_def absPath_def)

lemma foldl_cleanStep_proper:
  "\<forall>c \<in> set cs. properComp c \<Longrightarrow> foldl (cleanStep r) st cs = rev cs @ st"
  by (induction cs arbitrary: st) (auto simp: properComp_def)

lemma splitC_absPath:
  "\<forall>c \<in> set cs. properComp c \<Longrightarrow> splitC slash (absPath cs) = (if cs = [] then [[], []] else [] # cs)"
  by (auto simp: absPath_def properComp_def splitC_join)

lemma cleanComps_absPath: "\<forall>c \<in> set cs. properComp c \<Longrightarrow> cleanComps (absPath cs) = cs"
  by (simp add: cleanComps_def splitC_absPath foldl_cleanStep_proper)

lemma pathClean_absPath: "\<forall>c \<in> set cs. properComp c \<Longrightarrow> pathClean (absPath cs) = absPath cs"
  by (simp add: pathClean_def cleanComps_absPath) (simp add: absPath_def)

lemma foldl_cleanStep_set:
  "c \<in> set (foldl (cleanStep r) st cs) \<Longrightarrow> c \<in> set st \<or> (c \<in> set cs \<and> c \<noteq> [] \<and> c \<noteq> ''.'')"
proof (induction cs arbitrary: st)
  case (Cons x cs)
  then have "c \<in> set (cleanStep r st x) \<or> (c \<in> set cs \<and> c \<noteq> [] \<and> c \<noteq> ''.'')" by simp
  then show ?case by (auto split: if_splits list.splits)
qed simp

lemma foldl_cleanStep_rooted:
  "''..'' \<notin> set st \<Longrightarrow> ''..'' \<notin> set (foldl (cleanStep True) st cs)"
proof (induction cs arbitrary: st)
  case (Cons x cs)
  have "''..'' \<notin> set (cleanStep True st x)"
    using Cons.prems by (auto split: list.splits)
  then show ?case using Cons.IH by simp
qed simp

lemma cleanComps_proper: "isAbs p \<Longrightarrow> \<forall>c \<in> set (cleanComps p). properComp c"
proof
  fix c assume "isAbs p" and c: "c \<in> set (cleanComps p)"
  then have "c \<in> set (splitC slash p) \<and> c \<noteq> [] \<and> c \<noteq> ''.''"
    using foldl_cleanStep_set [of c "isAbs p" "[]"] by (simp add: cleanComps_def)
  moreover have "c \<noteq> ''..''"
    using foldl_cleanStep_rooted [of "[]" "splitC slash p"] c \<open>isAbs p\<close>
    by (auto simp: cleanComps_def)
  ultimately show "properComp c" using splitC_no_sep [of c slash p] by (simp add: properComp_def)
qed

lemma pathClean_abs: "isAbs p \<Longrightarrow> pathClean p = absPath (cleanComps p)"
  by (simp add: pathClean_def absPath_def)

lemma pathClean_idem_abs: "isAbs p \<Longrightarrow> pathClean (pathClean p) = pathClean p"
  using cleanComps_proper [of p] by (simp add: pathClean_abs cleanComps_absPath)

lemma absPath_snoc: "absPath (cs @ [c]) = (if cs = [] then slash # c else absPath cs @ slash # c)"
proof -
  have "cs \<noteq> [] \<Longrightarrow> joinC slash (cs @ [c]) = joinC slash cs @ slash # c"
    by (induction cs rule: joinC.induct [of _ slash]) auto
  then show ?thesis by (simp add: absPath_def)
qed

lemma upToSlash_append: "slash \<notin> set c \<Longrightarrow> upToSlash (p @ slash # c) = p @ [slash]"
  by (simp add: upToSlash_def dropWhile_append)

lemma cleanComps_trailing_slash:
  "\<forall>c \<in> set cs. properComp c \<Longrightarrow> cs \<noteq> [] \<Longrightarrow> cleanComps (absPath cs @ [slash]) = cs"
proof -
  assume cs: "\<forall>c \<in> set cs. properComp c" "cs \<noteq> []"
  have "absPath cs @ [slash] = joinC slash ([] # cs @ [[]])"
  proof -
    have "xs \<noteq> [] \<Longrightarrow> joinC slash (xs @ [[]]) = joinC slash xs @ [slash]" for xs
      by (induction xs rule: joinC.induct [of _ slash]) auto
    then show ?thesis using cs(2) by (simp add: absPath_def joinC_Nil_Cons)
  qed
  then have "splitC slash (absPath cs @ [slash]) = [] # cs @ [[]]"
    using cs by (auto simp: splitC_join properComp_def)
  moreover have "isAbs (absPath cs @ [slash])" by (simp add: isAbs_def absPath_def)
  ultimately show ?thesis
    using cs by (simp add: cleanComps_def foldl_cleanStep_proper)
qed

lemma pathDir_absPath:
  "\<forall>c \<in> set (cs @ [c]). properComp c \<Longrightarrow> pathDir (absPath (cs @ [c])) = absPath cs"
proof -
  assume proper: "\<forall>c \<in> set (cs @ [c]). properComp c"
  then have c: "slash \<notin> set c" by (simp add: properComp_def)
  show ?thesis
  proof (cases "cs = []")
    case True
    then have "upToSlash (absPath (cs @ [c])) = [slash]"
      using upToSlash_append [OF c, of "[]"] by (simp add: absPath_def)
    then show ?thesis using True by (simp add: pathDir_def pathClean_def isAbs_def cleanComps_def absPath_def)
  next
    case False
    then have "upToSlash (absPath (cs @ [c])) = absPath cs @ [slash]"
      using upToSlash_append [OF c, of "absPath cs"] by (simp add: absPath_snoc)
    then show ?thesis
      using False proper cleanComps_trailing_slash [of cs]
      by (simp add: pathDir_def pathClean_def isAbs_def) (simp add: absPath_def)
  qed
qed

section \<open>Dir shortens a path\<close>

definition width :: "string list \<Rightarrow> nat" where
  "width cs = sum_list (map (\<lambda>c. length c + 1) cs)"

lemma width_simps [simp]:
  "width [] = 0" "width (c # cs) = length c + 1 + width cs" "width (as @ bs) = width as + width bs"
  by (simp_all add: width_def)

lemma width_rev [simp]: "width (rev cs) = width cs"
  by (induction cs) simp_all

lemma width_splitC: "width (splitC c p) = length p + 1"
  by (induction p) (auto split: list.splits)

lemma length_joinC: "cs \<noteq> [] \<Longrightarrow> length (joinC c cs) + 1 = width cs"
  by (induction cs rule: joinC.induct [of _ c]) auto

lemma width_cleanStep:
  "width (foldl (cleanStep r) st cs) \<le> width st + width (filter (\<lambda>c. c \<noteq> []) cs)"
proof (induction cs arbitrary: st)
  case (Cons c cs)
  have "width (cleanStep r st c) \<le> width st + width (filter (\<lambda>c. c \<noteq> []) [c])"
    by (auto split: list.splits)
  moreover have "width (filter (\<lambda>c. c \<noteq> []) (c # cs)) =
      width (filter (\<lambda>c. c \<noteq> []) [c]) + width (filter (\<lambda>c. c \<noteq> []) cs)" by simp
  ultimately show ?case using Cons.IH [of "cleanStep r st c"] by (simp del: cleanStep.simps)
qed simp

lemma width_filter: "width (filter (\<lambda>c. c \<noteq> []) cs) + length (filter (\<lambda>c. c = []) cs) = width cs"
  by (induction cs) auto

lemma splitC_ends: "splitC c (p @ [c]) = splitC c p @ [[]]"
  by (induction p) (auto split: list.splits)

lemma width_cleanComps_dir:
  "width (cleanComps (p @ [slash])) + (if isAbs (p @ [slash]) \<and> p \<noteq> [] then 1 else 0) \<le> length p + 1"
proof -
  let ?fs = "splitC slash (p @ [slash])"
  have "width (cleanComps (p @ [slash])) \<le> width (filter (\<lambda>c. c \<noteq> []) ?fs)"
    using width_cleanStep [of "isAbs (p @ [slash])" "[]" ?fs] by (simp add: cleanComps_def)
  moreover have "width (filter (\<lambda>c. c \<noteq> []) ?fs) + length (filter (\<lambda>c. c = []) ?fs) = length p + 2"
    using width_filter [of ?fs] width_splitC [of slash "p @ [slash]"] by simp
  moreover have "length (filter (\<lambda>c. c = []) ?fs) \<ge> 1 + (if isAbs (p @ [slash]) \<and> p \<noteq> [] then 1 else 0)"
    unfolding splitC_ends by (cases p) (auto simp: isAbs_def)
  ultimately show ?thesis by simp
qed

lemma pathClean_dir_shorter:
  "pathClean (p @ [slash]) \<in> {''/'', ''.''} \<or> length (pathClean (p @ [slash])) < length (p @ [slash])"
proof (cases "cleanComps (p @ [slash]) = []")
  case True
  then show ?thesis by (simp add: pathClean_def)
next
  case False
  then have "p \<noteq> []" by (auto simp: cleanComps_def isAbs_def)
  then show ?thesis
    using width_cleanComps_dir [of p] length_joinC [OF False, of slash] False
    by (auto simp: pathClean_def split: if_splits)
qed

lemma pathDir_shorter: "pathDir p \<in> {''/'', ''.''} \<or> length (pathDir p) < length p"
proof (cases "upToSlash p = []")
  case True
  then show ?thesis by (simp add: pathDir_def pathClean_def cleanComps_def isAbs_def)
next
  case False
  obtain u where u: "upToSlash p = u @ [slash]"
    using False hd_dropWhile [of "\<lambda>c. c \<noteq> slash" "rev p"] unfolding upToSlash_def
    by (metis append_Nil2 hd_Cons_tl rev.simps(2) rev_is_Nil_conv)
  have "length (upToSlash p) \<le> length p" using length_dropWhile_le [of "\<lambda>c. c \<noteq> slash" "rev p"] by (simp add: upToSlash_def)
  then show ?thesis using pathClean_dir_shorter [of u] by (auto simp: pathDir_def u)
qed

end
