(* ===== verification/Project_Quota.thy ===== *)
theory Project_Quota
  imports Go_Path
begin

text \<open>
  XFS project quotas, \<open>quota/ProjectQuota.go\<close>: the controller that gives every managed
  directory a project id and a block limit, the scan that finds the ids in use at start-up,
  path resolution under a host prefix and the choice of the XFS partition. The file system and
  the kernel's quota tables are an explicit state (\<open>xfs\<close>), with the outcomes of the
  system calls that may fail as a parameter (\<open>faults\<close>). Project ids are 32-bit and limits
  64-bit words, as in the code. Each critical section of the two mutexes is one state change.
\<close>

section \<open>State\<close>

record Control =
  backingFsBlockDev :: string
  prefixPath :: string
  relBasePath :: string
  basePath :: string
  quotas :: "string \<Rightarrow> u32 option"

text \<open>Directory entries (\<open>Some True\<close> a directory, \<open>Some False\<close> a file), the project id and
  inheritance flag of a directory, and per project the limits and use in 512-byte blocks.\<close>

record xfs =
  nodes :: "string \<Rightarrow> bool option"
  symlinks :: "string \<Rightarrow> string option"
  projids :: "string \<Rightarrow> u32"
  projinherit :: "string \<Rightarrow> bool"
  hardlimit :: "u32 \<Rightarrow> u64"
  softlimit :: "u32 \<Rightarrow> u64"
  bcount :: "u32 \<Rightarrow> u64"

record faults =
  mkdirFails :: "string \<Rightarrow> bool"
  statFails :: "string \<Rightarrow> bool"
  openFails :: "string \<Rightarrow> bool"
  getxattrErrno :: "string \<Rightarrow> nat"
  setxattrErrno :: "string \<Rightarrow> nat"
  setlimErrno :: "u32 \<Rightarrow> nat"
  getquotaErrno :: "u32 \<Rightarrow> nat"
  removeFails :: "string \<Rightarrow> bool"
  readdirRes :: "string \<Rightarrow> (string \<times> bool) list option"

record qstate =
  ctl :: Control
  nextProjectID :: u32
  disk :: xfs

record QuotaInfo =
  Path :: string
  Quota :: u64
  UsedSpace :: u64

datatype oserr = NotExist | OtherErr string

datatype qerr =
    NotDirErr string | OpenErr string | GetProjErr string nat | SetProjErr string nat
  | SetLimitErr u32 nat | GetLimitErr u32 nat | QuotaNotFound string | CannotRelease string
  | RemoveErr string | ReadDirErr string | StatfsErr | MkdirErr string | ImageNotFound
  | TargetNotFound | NotSupported | MknodErr nat | SymlinkErr | PartitionsErr | ErrnoErr nat
  | OsErr oserr

section \<open>System calls the controller makes\<close>

text \<open>\<open>os.MkdirAll\<close>: missing ancestors are made one by one; a new directory takes the
  project of its parent when the parent passes it on.\<close>

definition mkdir1 :: "xfs \<Rightarrow> string \<Rightarrow> string \<Rightarrow> xfs" where
  "mkdir1 d parent q = d\<lparr>nodes := (nodes d)(q \<mapsto> True),
      projids := (projids d)(q := if projinherit d parent then projids d parent else 0),
      projinherit := (projinherit d)(q := projinherit d parent)\<rparr>"

fun mkdirFrom :: "faults \<Rightarrow> xfs \<Rightarrow> string list \<Rightarrow> string list \<Rightarrow> bool \<times> xfs" where
  "mkdirFrom flt d pre [] = (True, d)"
| "mkdirFrom flt d pre (c # cs) =
     (let q = absPath (pre @ [c]) in
      case nodes d q of
        Some True \<Rightarrow> mkdirFrom flt d (pre @ [c]) cs
      | Some False \<Rightarrow> (False, d)
      | None \<Rightarrow> if mkdirFails flt q then (False, d)
                else mkdirFrom flt (mkdir1 d (absPath pre) q) (pre @ [c]) cs)"

definition mkdirAll :: "faults \<Rightarrow> xfs \<Rightarrow> string \<Rightarrow> bool \<times> xfs" where
  "mkdirAll flt d p = mkdirFrom flt d [] (cleanComps p)"

definition removeAll :: "xfs \<Rightarrow> string \<Rightarrow> xfs" where
  "removeAll d p = d\<lparr>nodes := (\<lambda>q. if q = p \<or> hasPrefix q (p @ [slash]) then None else nodes d q)\<rparr>"

definition openDirFails :: "faults \<Rightarrow> xfs \<Rightarrow> string \<Rightarrow> bool" where
  "openDirFails flt d p \<longleftrightarrow> nodes d p \<noteq> Some True \<or> openFails flt p"

definition getProjectID :: "faults \<Rightarrow> xfs \<Rightarrow> string \<Rightarrow> qerr + u32" where
  "getProjectID flt d targetPath =
     (if openDirFails flt d targetPath then Inl (OpenErr targetPath)
      else if getxattrErrno flt targetPath \<noteq> 0 then Inl (GetProjErr targetPath (getxattrErrno flt targetPath))
      else Inr (projids d targetPath))"

definition setProjectID :: "faults \<Rightarrow> xfs \<Rightarrow> string \<Rightarrow> u32 \<Rightarrow> qerr + xfs" where
  "setProjectID flt d targetPath projectID =
     (if openDirFails flt d targetPath then Inl (OpenErr targetPath)
      else if getxattrErrno flt targetPath \<noteq> 0 then Inl (GetProjErr targetPath (getxattrErrno flt targetPath))
      else if setxattrErrno flt targetPath \<noteq> 0 then Inl (SetProjErr targetPath (setxattrErrno flt targetPath))
      else Inr (d\<lparr>projids := (projids d)(targetPath := projectID),
                  projinherit := (projinherit d)(targetPath := True)\<rparr>))"

definition setProjectQuota :: "faults \<Rightarrow> xfs \<Rightarrow> u32 \<Rightarrow> u64 \<Rightarrow> qerr + xfs" where
  "setProjectQuota flt d projectID sz =
     (if setlimErrno flt projectID \<noteq> 0 then Inl (SetLimitErr projectID (setlimErrno flt projectID))
      else Inr (d\<lparr>hardlimit := (hardlimit d)(projectID := sz div 512),
                  softlimit := (softlimit d)(projectID := sz div 512)\<rparr>))"

section \<open>Operations of the controller\<close>

definition getRealPath :: "Control \<Rightarrow> string \<Rightarrow> string" where
  "getRealPath c targetPath = replace1 (pathJoin [''/'', targetPath]) (basePath c) (relBasePath c)"

text \<open>An existing regular file ends the call; a missing directory is made, any other
  \<open>Stat\<close> error is passed over. The id is stored only after the kernel took it.\<close>

definition SetDirQuota :: "faults \<Rightarrow> qstate \<Rightarrow> string \<Rightarrow> u64 \<Rightarrow> qerr option \<times> qstate" where
  "SetDirQuota flt st targetPath sz =
     (let real = getRealPath (ctl st) targetPath;
          d0 = disk st;
          d1 = (if \<not> statFails flt real \<and> nodes d0 real = None then snd (mkdirAll flt d0 real) else d0)
      in if \<not> statFails flt real \<and> nodes d0 real = Some False then (Some (NotDirErr targetPath), st)
         else case quotas (ctl st) real of
           Some projectID \<Rightarrow>
             (case setProjectQuota flt d1 projectID sz of
                Inl e \<Rightarrow> (Some e, st\<lparr>disk := d1\<rparr>)
              | Inr d2 \<Rightarrow> (None, st\<lparr>disk := d2\<rparr>))
         | None \<Rightarrow>
             (case setProjectID flt d1 real (nextProjectID st) of
                Inl e \<Rightarrow> (Some e, st\<lparr>disk := d1\<rparr>)
              | Inr d2 \<Rightarrow>
                  (let projectID = nextProjectID st;
                       st' = st\<lparr>ctl := (ctl st)\<lparr>quotas := (quotas (ctl st))(real \<mapsto> projectID)\<rparr>,
                                nextProjectID := nextProjectID st + 1, disk := d2\<rparr>
                   in case setProjectQuota flt d2 projectID sz of
                        Inl e \<Rightarrow> (Some e, st')
                      | Inr d3 \<Rightarrow> (None, st'\<lparr>disk := d3\<rparr>))))"

definition GetDirQuota :: "faults \<Rightarrow> qstate \<Rightarrow> string \<Rightarrow> qerr + QuotaInfo" where
  "GetDirQuota flt st targetPath =
     (let real = getRealPath (ctl st) targetPath in
      case quotas (ctl st) real of
        None \<Rightarrow> Inl (QuotaNotFound targetPath)
      | Some projectID \<Rightarrow>
          if \<not> statFails flt real \<and> nodes (disk st) real = None then Inl (QuotaNotFound targetPath)
          else if getquotaErrno flt projectID \<noteq> 0 then Inl (GetLimitErr projectID (getquotaErrno flt projectID))
          else Inr \<lparr>Path = targetPath, Quota = hardlimit (disk st) projectID * 512,
                    UsedSpace = bcount (disk st) projectID * 512\<rparr>)"

definition ReleaseDir :: "faults \<Rightarrow> qstate \<Rightarrow> string \<Rightarrow> qerr option \<times> qstate" where
  "ReleaseDir flt st targetPath =
     (let real = getRealPath (ctl st) targetPath in
      if quotas (ctl st) real = None then (Some (QuotaNotFound targetPath), st)
      else if pathDir targetPath \<noteq> basePath (ctl st) then (Some (CannotRelease targetPath), st)
      else if removeFails flt real then (Some (RemoveErr real), st)
      else (None, st\<lparr>disk := removeAll (disk st) real\<rparr>))"

text \<open>\<open>syscall.Statfs\<close> gives available blocks, all blocks and the block size.\<close>

definition GetNodeSpaceInfo ::
  "(string \<Rightarrow> (u64 \<times> u64 \<times> u64) option) \<Rightarrow> qstate \<Rightarrow> string \<Rightarrow> qerr + QuotaInfo" where
  "GetNodeSpaceInfo statfs st targetPath =
     (case statfs (getRealPath (ctl st) targetPath) of
        None \<Rightarrow> Inl StatfsErr
      | Some (bavail, blocks, bsize) \<Rightarrow>
          (let available = bavail * bsize; tot = blocks * bsize
           in Inr \<lparr>Path = targetPath, Quota = tot, UsedSpace = tot - available\<rparr>))"

definition updateMinProjID :: "u32 \<Rightarrow> u32 \<Rightarrow> u32" where
  "updateMinProjID nxt minProjectID = (if nxt \<le> minProjectID then minProjectID + 1 else nxt)"

text \<open>The scan of the base directory: \<open>checkProjID\<close> records the id of one directory.\<close>

type_synonym scan = "(string \<Rightarrow> u32 option) \<times> u32"

definition checkProjID :: "faults \<Rightarrow> xfs \<Rightarrow> string \<Rightarrow> scan \<Rightarrow> (qerr + u32) \<times> scan" where
  "checkProjID flt d p s =
     (case getProjectID flt d p of
        Inl e \<Rightarrow> (Inl e, s)
      | Inr projid \<Rightarrow>
          (Inr projid,
           (if projid > 0 then (fst s)(p \<mapsto> projid) else fst s),
           (if snd s \<le> projid then projid + 1 else snd s)))"

fun scanSub :: "faults \<Rightarrow> xfs \<Rightarrow> string \<Rightarrow> (string \<times> bool) list \<Rightarrow> scan \<Rightarrow> qerr option \<times> scan" where
  "scanSub flt d dir [] s = (None, s)"
| "scanSub flt d dir ((name, isDir) # files) s =
     (if \<not> isDir then scanSub flt d dir files s
      else case checkProjID flt d (pathJoin [dir, name]) s of
          (Inl e, s') \<Rightarrow> (Some e, s')
        | (Inr projid, s') \<Rightarrow> scanSub flt d dir files s')"

fun scanHome :: "faults \<Rightarrow> xfs \<Rightarrow> string \<Rightarrow> u32 \<Rightarrow> (string \<times> bool) list \<Rightarrow> scan \<Rightarrow> qerr option \<times> scan" where
  "scanHome flt d home baseID [] s = (None, s)"
| "scanHome flt d home baseID ((name, isDir) # files) s =
     (if \<not> isDir then scanHome flt d home baseID files s
      else let p = pathJoin [home, name] in
      case checkProjID flt d p s of
        (Inl e, s') \<Rightarrow> (Some e, s')
      | (Inr projid, s') \<Rightarrow>
          if projid > 0 \<and> projid \<noteq> baseID then scanHome flt d home baseID files s'
          else case readdirRes flt p of
            None \<Rightarrow> (Some (ReadDirErr p), s')
          | Some subfiles \<Rightarrow>
              (case scanSub flt d p subfiles s' of
                 (Some e, s'') \<Rightarrow> (Some e, s'')
               | (None, s'') \<Rightarrow> scanHome flt d home baseID files s''))"

definition findNextProjectID :: "faults \<Rightarrow> xfs \<Rightarrow> string \<Rightarrow> u32 \<Rightarrow> scan \<Rightarrow> qerr option \<times> scan" where
  "findNextProjectID flt d home baseID s =
     (case readdirRes flt home of
        None \<Rightarrow> (Some (ReadDirErr home), s)
      | Some files \<Rightarrow> scanHome flt d home baseID files s)"

section \<open>Resolving a path under a prefix\<close>

text \<open>\<open>Lstat\<close> and, for a link, \<open>Readlink\<close>.\<close>

datatype lstatRes = LErr oserr | Plain | Link "oserr + string"

text \<open>The loop over the components; each link is followed once, an absolute target is taken
  under the prefix, a relative one under the directory of the link.\<close>

fun resolveFrom ::
  "(string \<Rightarrow> lstatRes) \<Rightarrow> (string \<Rightarrow> oserr option) \<Rightarrow> string \<Rightarrow> string list \<Rightarrow> string \<Rightarrow>
   (oserr \<times> string) + string" where
  "resolveFrom lstat stat prefix [] currentDir = Inr currentDir"
| "resolveFrom lstat stat prefix (c # cs) currentDir =
     (let cur = pathJoin [currentDir, c] in
      case lstat cur of
        LErr e \<Rightarrow> Inl (e, [])
      | Plain \<Rightarrow> resolveFrom lstat stat prefix cs cur
      | Link (Inl e) \<Rightarrow> Inl (e, [])
      | Link (Inr relPath) \<Rightarrow>
          (let rel = (if \<not> hasPrefix relPath ''/'' then pathJoin [pathDir cur, relPath]
                      else pathJoin [''/'', prefix, relPath])
           in case stat rel of
                None \<Rightarrow> resolveFrom lstat stat prefix cs rel
              | Some e \<Rightarrow> Inl (e, rel)))"

definition FindRealPath ::
  "(string \<Rightarrow> lstatRes) \<Rightarrow> (string \<Rightarrow> oserr option) \<Rightarrow> string \<Rightarrow> string \<Rightarrow> (oserr \<times> string) + string" where
  "FindRealPath lstat stat prefixPath0 spath =
     (let prefix = (if prefixPath0 \<noteq> [] \<and> \<not> hasPrefix prefixPath0 ''/'' then ''/'' @ prefixPath0 else prefixPath0);
          paths = fieldsFunc (\<lambda>c. c = slash) spath
      in resolveFrom lstat stat prefix paths (pathJoin [''/'', prefix]))"

section \<open>Choosing the XFS partition\<close>

record partition =
  Device :: string
  Mountpoint :: string
  Fstype :: string
  Opts :: string

record MaxSpacePartition = partition +
  Total :: u64
  DirLength :: nat

definition noPartition :: MaxSpacePartition where
  "noPartition = \<lparr>Device = [], Mountpoint = [], Fstype = [], Opts = [], Total = 0, DirLength = 100\<rparr>"

text \<open>\<open>isDir\<close> is \<open>os.Stat\<close> of the mount point (\<open>None\<close> an error), \<open>usage\<close> the size
  reported for it (\<open>None\<close> an error).\<close>

definition xfsCandidate ::
  "string \<Rightarrow> (string \<Rightarrow> bool option) \<Rightarrow> (string \<Rightarrow> u64 option) \<Rightarrow> partition \<Rightarrow> MaxSpacePartition option" where
  "xfsCandidate prefix isDir usage part =
     (if Fstype part \<noteq> ''xfs'' then None
      else if prefix \<noteq> [] \<and>
          (\<not> hasPrefix (Mountpoint part) (pathJoin [''/'', prefix]) \<or> isDir (Mountpoint part) = Some False)
        then None
      else case usage (Mountpoint part) of
          None \<Rightarrow> None
        | Some tot \<Rightarrow> Some \<lparr>Device = Device part, Mountpoint = Mountpoint part, Fstype = Fstype part,
            Opts = Opts part, Total = tot, DirLength = length (splitC slash (Mountpoint part))\<rparr>)"

fun pickMax :: "MaxSpacePartition \<Rightarrow> MaxSpacePartition list \<Rightarrow> MaxSpacePartition" where
  "pickMax maxPart [] = maxPart"
| "pickMax maxPart (p # ps) =
     pickMax (if Total p \<ge> Total maxPart \<and> Total p > 0
              then if Device p = Device maxPart
                   then if DirLength maxPart > DirLength p then p else maxPart
                   else p
              else maxPart) ps"

definition GetXFSMount ::
  "partition list option \<Rightarrow> (string \<Rightarrow> bool option) \<Rightarrow> (string \<Rightarrow> u64 option) \<Rightarrow> string \<Rightarrow>
   MaxSpacePartition option" where
  "GetXFSMount parts isDir usage prefix =
     map_option (\<lambda>ps. pickMax noPartition (List.map_filter (xfsCandidate prefix isDir usage) ps)) parts"

section \<open>Start-up\<close>

text \<open>The calls of \<open>NewControl\<close> to the operating system, each as a function of the state of
  the disk it is made in; error numbers are 0 for success.\<close>

record sys =
  sysLstat :: "xfs \<Rightarrow> string \<Rightarrow> lstatRes"
  sysStat :: "xfs \<Rightarrow> string \<Rightarrow> oserr option"
  sysPartitions :: "partition list option"
  sysIsDir :: "string \<Rightarrow> bool option"
  sysUsage :: "string \<Rightarrow> u64 option"
  symlinkFails :: "string \<Rightarrow> bool"
  mknodErrno :: "string \<Rightarrow> nat"
  qstatRes :: "string \<Rightarrow> nat \<times> u16"
  statfsRes :: "string \<Rightarrow> (u64 \<times> u64 \<times> u64) option"

definition EPERM :: nat where "EPERM = 1"
definition ENOENT :: nat where "ENOENT = 2"
definition EFAULT :: nat where "EFAULT = 14"
definition ENOTBLK :: nat where "ENOTBLK = 15"
definition ENOSYS :: nat where "ENOSYS = 38"

text \<open>\<open>FS_QUOTA_PDQ_ACCT\<close> is bit 4 and \<open>FS_QUOTA_PDQ_ENFD\<close> bit 5 of the flags.\<close>

definition hasQuotaSupport :: "sys \<Rightarrow> string \<Rightarrow> qerr + bool" where
  "hasQuotaSupport sy dev =
     (let (errno, flags) = qstatRes sy dev in
      if errno = 0 \<and> bit flags 5 \<and> bit flags 4 then Inr True
      else if errno \<in> {EFAULT, ENOENT, ENOTBLK, EPERM} then Inl (ErrnoErr errno)
      else Inr False)"

definition makeBackingFsDev :: "sys \<Rightarrow> xfs \<Rightarrow> string \<Rightarrow> (qerr + string) \<times> xfs" where
  "makeBackingFsDev sy d home =
     (case sysStat sy d home of
        Some e \<Rightarrow> (Inl (OsErr e), d)
      | None \<Rightarrow>
          (let dev = pathJoin [home, ''backingFsBlockDev2''];
               d1 = (if nodes d dev = Some True then d else d\<lparr>nodes := (nodes d)(dev := None)\<rparr>);
               errno = mknodErrno sy dev
           in if errno = 0 then (Inr dev, d1\<lparr>nodes := (nodes d1)(dev \<mapsto> False)\<rparr>)
              else if errno = ENOSYS \<or> errno = EPERM then (Inl NotSupported, d1)
              else (Inl (MknodErr errno), d1)))"

text \<open>Finding or creating the base directory. \<open>Inl None\<close> is the return of a nil controller
  with a nil error, when no XFS partition is mounted.\<close>

definition locateBase ::
  "faults \<Rightarrow> sys \<Rightarrow> xfs \<Rightarrow> string \<Rightarrow> string \<Rightarrow> (qerr option + string) \<times> xfs" where
  "locateBase flt sy d prefix base =
     (case FindRealPath (sysLstat sy d) (sysStat sy d) prefix base of
        Inr rel \<Rightarrow> (Inr rel, d)
      | Inl (OtherErr m, _) \<Rightarrow> (Inl (Some (OsErr (OtherErr m))), d)
      | Inl (NotExist, _) \<Rightarrow>
          (case mkdirAll flt d (pathJoin [''/'', prefix, pathDir base]) of
             (False, d1) \<Rightarrow> (Inl (Some (MkdirErr base)), d1)
           | (True, d1) \<Rightarrow>
               (case GetXFSMount (sysPartitions sy) (sysIsDir sy) (sysUsage sy) prefix of
                  None \<Rightarrow> (Inl (Some PartitionsErr), d1)
                | Some part \<Rightarrow>
                    if Mountpoint part = [] then (Inl None, d1)
                    else let disk_path = pathJoin [Mountpoint part, ''cloud-disk''];
                             d2 = (if sysStat sy d1 disk_path \<noteq> None then snd (mkdirAll flt d1 disk_path) else d1);
                             lnk = (if prefix = [] then base else pathJoin [''/'', prefix, base]);
                             tgt = (if prefix = [] then disk_path
                                    else trimPrefix disk_path (pathJoin [''/'', prefix]))
                         in if symlinkFails sy lnk then (Inl (Some SymlinkErr), d2)
                            else let d3 = d2\<lparr>symlinks := (symlinks d2)(lnk \<mapsto> tgt)\<rparr>
                                 in (case FindRealPath (sysLstat sy d3) (sysStat sy d3) prefix base of
                                       Inr rel \<Rightarrow> (Inr rel, d3)
                                     | Inl (e, _) \<Rightarrow> (Inl (Some (OsErr e)), d3)))))"

text \<open>The outcome of \<open>NewControl\<close>: the error (if any), the controller (if any), the next
  project id of the process and the disk.\<close>

definition NewControl ::
  "faults \<Rightarrow> sys \<Rightarrow> u32 \<Rightarrow> xfs \<Rightarrow> string \<Rightarrow> string \<Rightarrow> qerr option \<times> Control option \<times> u32 \<times> xfs" where
  "NewControl flt sy nxt d prefix base =
     (case locateBase flt sy d prefix base of
        (Inl e, d1) \<Rightarrow> (e, None, nxt, d1)
      | (Inr rel, d1) \<Rightarrow>
     (case makeBackingFsDev sy d1 rel of
        (Inl e, d2) \<Rightarrow> (Some e, None, nxt, d2)
      | (Inr dev, d2) \<Rightarrow>
     (case hasQuotaSupport sy dev of
        Inl e \<Rightarrow> (Some e, None, nxt, d2)
      | Inr False \<Rightarrow> (Some NotSupported, None, nxt, d2)
      | Inr True \<Rightarrow>
     (case getProjectID flt d2 rel of
        Inl e \<Rightarrow> (Some e, None, nxt, d2)
      | Inr baseProjectID \<Rightarrow>
     (let minProjectID = baseProjectID + 10000 in
      case setProjectQuota flt d2 minProjectID 0 of
        Inl e \<Rightarrow> (Some e, None, nxt, d2)
      | Inr d3 \<Rightarrow>
     (case findNextProjectID flt d3 rel baseProjectID (Map.empty, updateMinProjID nxt minProjectID) of
        (Some e, (qs, nxt')) \<Rightarrow> (Some e, None, nxt', d3)
      | (None, (qs, nxt')) \<Rightarrow>
          (None, Some \<lparr>backingFsBlockDev = dev, prefixPath = prefix, relBasePath = rel,
                       basePath = base, quotas = qs\<rparr>, nxt', d3)))))))"

text \<open>\<open>GetImageDiskQuotaInfo\<close>; the image's driver data is the answer of the container engine.\<close>

definition GetImageDiskQuotaInfo ::
  "sys \<Rightarrow> qstate \<Rightarrow> (string, string) gomap option \<Rightarrow> qerr + QuotaInfo" where
  "GetImageDiskQuotaInfo sy st inspect =
     (case inspect of
        None \<Rightarrow> Inl ImageNotFound
      | Some driverData \<Rightarrow>
          (let targetPath = fold (\<lambda>(key, val) t. if key = ''UpperDir'' then val else t) driverData []
           in if targetPath = [] then Inl TargetNotFound
              else case FindRealPath (sysLstat sy (disk st)) (sysStat sy (disk st)) (prefixPath (ctl st)) targetPath of
                Inl (e, _) \<Rightarrow> Inl (OsErr e)
              | Inr relPath \<Rightarrow>
                  (case statfsRes sy relPath of
                     None \<Rightarrow> Inl StatfsErr
                   | Some (bavail, blocks, bsize) \<Rightarrow>
                       Inr \<lparr>Path = relPath, Quota = blocks * bsize,
                            UsedSpace = blocks * bsize - bavail * bsize\<rparr>)))"

section \<open>Setting and reading a quota\<close>

lemma setProjectQuota_InrD:
  "setProjectQuota flt d i sz = Inr d' \<Longrightarrow>
     d' = d\<lparr>hardlimit := (hardlimit d)(i := sz div 512), softlimit := (softlimit d)(i := sz div 512)\<rparr>"
  by (auto simp: setProjectQuota_def split: if_splits)

lemma setProjectID_InrD:
  "setProjectID flt d p i = Inr d' \<Longrightarrow>
     nodes d p = Some True \<and>
     d' = d\<lparr>projids := (projids d)(p := i), projinherit := (projinherit d)(p := True)\<rparr>"
  by (auto simp: setProjectID_def openDirFails_def split: if_splits)

lemma mkdirFrom_limits:
  "hardlimit (snd (mkdirFrom flt d pre cs)) = hardlimit d \<and> softlimit (snd (mkdirFrom flt d pre cs)) = softlimit d"
  by (induction flt d pre cs rule: mkdirFrom.induct)
    (auto simp: Let_def mkdir1_def split: option.splits bool.splits)

lemma mkdirAll_limits [simp]:
  "hardlimit (snd (mkdirAll flt d p)) = hardlimit d" "softlimit (snd (mkdirAll flt d p)) = softlimit d"
  by (simp_all add: mkdirAll_def mkdirFrom_limits)

text \<open>What a successful call did, by whether the directory was already managed.\<close>

lemma SetDirQuota_fresh:
  assumes "SetDirQuota flt st p sz = (None, st')" and "quotas (ctl st) (getRealPath (ctl st) p) = None"
  shows "ctl st' = (ctl st)\<lparr>quotas := (quotas (ctl st))(getRealPath (ctl st) p \<mapsto> nextProjectID st)\<rparr> \<and>
    nextProjectID st' = nextProjectID st + 1 \<and>
    nodes (disk st') (getRealPath (ctl st) p) = Some True \<and>
    projids (disk st') (getRealPath (ctl st) p) = nextProjectID st \<and>
    projinherit (disk st') (getRealPath (ctl st) p) \<and>
    hardlimit (disk st') = (hardlimit (disk st))(nextProjectID st := sz div 512) \<and>
    softlimit (disk st') = (softlimit (disk st))(nextProjectID st := sz div 512)"
  using assms
  by (auto simp: SetDirQuota_def Let_def split: if_splits sum.splits
      dest!: setProjectID_InrD setProjectQuota_InrD)

lemma SetDirQuota_managed:
  assumes "SetDirQuota flt st p sz = (None, st')" and "quotas (ctl st) (getRealPath (ctl st) p) = Some i"
  shows "ctl st' = ctl st \<and> nextProjectID st' = nextProjectID st \<and>
    hardlimit (disk st') = (hardlimit (disk st))(i := sz div 512) \<and>
    softlimit (disk st') = (softlimit (disk st))(i := sz div 512)"
  using assms
  by (auto simp: SetDirQuota_def Let_def split: if_splits sum.splits dest!: setProjectQuota_InrD)

lemma getRealPath_quotas [simp]: "getRealPath (c\<lparr>quotas := qs\<rparr>) p = getRealPath c p"
  by (simp add: getRealPath_def)

text \<open>C2: a quota set on a new directory is enforced and reported: after a successful
  \<open>SetDirQuota\<close> of a directory the controller did not know, the directory exists and belongs
  (with inheritance) to the project whose hard and soft limits are the size in whole blocks, no
  other project's limits changed, and \<open>GetDirQuota\<close> reports the size rounded down to a
  multiple of 512 bytes.\<close>

theorem new_quota_is_enforced:
  assumes "SetDirQuota flt st p sz = (None, st')"
    and "quotas (ctl st) (getRealPath (ctl st) p) = None"
    and "getquotaErrno flt' (nextProjectID st) = 0"
  shows "let real = getRealPath (ctl st) p; i = nextProjectID st in
    nodes (disk st') real = Some True \<and> projids (disk st') real = i \<and> projinherit (disk st') real \<and>
    hardlimit (disk st') i = sz div 512 \<and> softlimit (disk st') i = sz div 512 \<and>
    (\<forall>j. j \<noteq> i \<longrightarrow> hardlimit (disk st') j = hardlimit (disk st) j \<and> softlimit (disk st') j = softlimit (disk st) j) \<and>
    GetDirQuota flt' st' p =
      Inr \<lparr>Path = p, Quota = sz div 512 * 512, UsedSpace = bcount (disk st') i * 512\<rparr>"
  using SetDirQuota_fresh [OF assms(1,2)] assms(3)
  by (simp add: Let_def GetDirQuota_def)

text \<open>A disk with the base directory, and a controller that manages nothing yet.\<close>

definition noFaults :: faults where
  "noFaults = \<lparr>mkdirFails = (\<lambda>_. False), statFails = (\<lambda>_. False), openFails = (\<lambda>_. False),
     getxattrErrno = (\<lambda>_. 0), setxattrErrno = (\<lambda>_. 0), setlimErrno = (\<lambda>_. 0), getquotaErrno = (\<lambda>_. 0),
     removeFails = (\<lambda>_. False), readdirRes = (\<lambda>_. Some [])\<rparr>"

definition exampleState :: qstate where
  "exampleState = \<lparr>ctl = \<lparr>backingFsBlockDev = ''/d/backingFsBlockDev2'', prefixPath = [], relBasePath = ''/d'',
       basePath = ''/b'', quotas = Map.empty\<rparr>, nextProjectID = 10001,
     disk = \<lparr>nodes = [''/d'' \<mapsto> True], symlinks = Map.empty, projids = (\<lambda>_. 0), projinherit = (\<lambda>_. False),
       hardlimit = (\<lambda>_. 0), softlimit = (\<lambda>_. 0), bcount = (\<lambda>_. 0)\<rparr>\<rparr>"

lemma example_real [simp]: "getRealPath (ctl exampleState) ''/b/u'' = ''/d/u''"
  by code_simp

lemma example_mkdir: "mkdirAll noFaults (disk exampleState) ''/d/u'' = (True, mkdir1 (disk exampleState) ''/d'' ''/d/u'')"
proof -
  have "cleanComps ''/d/u'' = [''d'', ''u'']" by code_simp
  then show ?thesis by (simp add: mkdirAll_def Let_def absPath_def exampleState_def noFaults_def)
qed

lemma example_set:
  "fst (SetDirQuota noFaults exampleState ''/b/u'' 1000) = None"
  using example_mkdir
  by (simp add: SetDirQuota_def Let_def)
    (simp add: exampleState_def noFaults_def setProjectID_def setProjectQuota_def openDirFails_def mkdir1_def)

theorem new_quota_is_enforced_witness:
  "let st' = snd (SetDirQuota noFaults exampleState ''/b/u'' 1000) in
   nodes (disk st') ''/d/u'' = Some True \<and> projids (disk st') ''/d/u'' = 10001 \<and>
   GetDirQuota noFaults st' ''/b/u'' =
     Inr \<lparr>Path = ''/b/u'', Quota = 512, UsedSpace = bcount (disk st') 10001 * 512\<rparr>"
proof -
  have run: "SetDirQuota noFaults exampleState ''/b/u'' 1000 = (None, snd (SetDirQuota noFaults exampleState ''/b/u'' 1000))"
    using example_set by (simp add: prod_eq_iff)
  have "quotas (ctl exampleState) (getRealPath (ctl exampleState) ''/b/u'') = None"
    by (simp add: exampleState_def)
  moreover have "getquotaErrno noFaults (nextProjectID exampleState) = 0" by (simp add: noFaults_def)
  moreover have "nextProjectID exampleState = 10001" by (simp add: exampleState_def)
  moreover have "(1000 :: u64) div 512 * 512 = 512" by code_simp
  ultimately show ?thesis
    using new_quota_is_enforced [OF run, of noFaults] by (simp add: Let_def)
qed

section \<open>Project ids stay unique\<close>

datatype qop = QSet string u64 | QGet string | QRelease string

fun qstep :: "faults \<Rightarrow> qop \<Rightarrow> qstate \<Rightarrow> qstate" where
  "qstep flt (QSet p sz) st = snd (SetDirQuota flt st p sz)"
| "qstep flt (QGet p) st = st"
| "qstep flt (QRelease p) st = snd (ReleaseDir flt st p)"

text \<open>Each operation of a run meets its own faults.\<close>

fun qrun :: "(faults \<times> qop) list \<Rightarrow> qstate \<Rightarrow> qstate" where
  "qrun [] st = st"
| "qrun ((flt, p) # ops) st = qrun ops (qstep flt p st)"

definition quota_wf :: "qstate \<Rightarrow> bool" where
  "quota_wf st \<longleftrightarrow> (\<forall>p i. quotas (ctl st) p = Some i \<longrightarrow> i < nextProjectID st) \<and>
     inj_on (quotas (ctl st)) (dom (quotas (ctl st)))"

definition sameIds :: "qstate \<Rightarrow> qstate \<Rightarrow> bool" where
  "sameIds st st' \<longleftrightarrow> quotas (ctl st') = quotas (ctl st) \<and> nextProjectID st' = nextProjectID st"

definition newId :: "qstate \<Rightarrow> qstate \<Rightarrow> bool" where
  "newId st st' \<longleftrightarrow> nextProjectID st' = nextProjectID st + 1 \<and>
     (\<exists>p. quotas (ctl st) p = None \<and> quotas (ctl st') = (quotas (ctl st))(p \<mapsto> nextProjectID st))"

lemma qstep_ids: "sameIds st (qstep flt opn st) \<or> newId st (qstep flt opn st)"
proof (cases opn)
  case (QSet p sz)
  show ?thesis
  proof (cases "quotas (ctl st) (getRealPath (ctl st) p)")
    case None
    then show ?thesis
      by (auto simp: QSet SetDirQuota_def Let_def sameIds_def newId_def split: sum.splits option.splits)
  next
    case (Some i)
    then show ?thesis by (auto simp: QSet SetDirQuota_def Let_def sameIds_def split: sum.splits option.splits)
  qed
qed (auto simp: ReleaseDir_def Let_def sameIds_def)

lemma word_less_succ: "(n :: u32) \<noteq> - 1 \<Longrightarrow> i \<le> n \<Longrightarrow> i < n + 1"
proof -
  assume n: "n \<noteq> - 1" and i: "i \<le> n"
  have "1 + n \<noteq> 0" using n by (metis add_eq_0_iff2 add.commute)
  then have "unat (n + 1) = Suc (unat n)" using unatSuc [of n] by (simp add: add.commute)
  then show "i < n + 1" using i by (simp add: word_less_nat_alt word_le_nat_alt)
qed

lemma quota_wf_newId:
  assumes "quota_wf st" and "newId st st'" and "nextProjectID st \<noteq> - 1"
  shows "quota_wf st'"
proof -
  from assms(2) obtain p where p: "quotas (ctl st) p = None"
    "quotas (ctl st') = (quotas (ctl st))(p \<mapsto> nextProjectID st)" "nextProjectID st' = nextProjectID st + 1"
    by (auto simp: newId_def)
  have below: "quotas (ctl st) q = Some i \<Longrightarrow> i < nextProjectID st" for q i
    using assms(1) by (auto simp: quota_wf_def)
  have "i < nextProjectID st'" if "quotas (ctl st') q = Some i" for q i
    using that below [of q i] word_less_succ [OF assms(3), of i] by (auto simp: p split: if_splits)
  moreover have "inj_on (quotas (ctl st')) (dom (quotas (ctl st')))"
    using assms(1) below by (fastforce simp: quota_wf_def inj_on_def p split: if_splits)
  ultimately show ?thesis by (auto simp: quota_wf_def)
qed

definition isSet :: "qop \<Rightarrow> bool" where
  "isSet opn \<longleftrightarrow> (case opn of QSet p sz \<Rightarrow> True | _ \<Rightarrow> False)"

lemma qstep_not_set: "\<not> isSet opn \<Longrightarrow> sameIds st (qstep flt opn st)"
  by (cases opn) (auto simp: isSet_def ReleaseDir_def Let_def sameIds_def)

lemma quota_wf_sameIds: "sameIds st st' \<Longrightarrow> quota_wf st \<Longrightarrow> quota_wf st'"
  by (simp add: sameIds_def quota_wf_def)

lemma unat_next:
  "newId st st' \<Longrightarrow> unat (nextProjectID st) + 1 < 2 ^ 32 \<Longrightarrow>
     unat (nextProjectID st') = unat (nextProjectID st) + 1 \<and> nextProjectID st \<noteq> - 1"
proof -
  assume new: "newId st st'" and room: "unat (nextProjectID st) + 1 < 2 ^ 32"
  have "unat (- 1 :: u32) = 2 ^ 32 - 1" by (simp add: unsigned_minus_1_eq_mask mask_eq_exp_minus_1)
  then have max: "nextProjectID st \<noteq> - 1" using room by auto
  then have "1 + nextProjectID st \<noteq> 0" by (metis add_eq_0_iff2 add.commute)
  then show ?thesis using new max unatSuc [of "nextProjectID st"] by (simp add: newId_def add.commute)
qed

text \<open>Ids handed out by a run stay distinct while fewer than $2^{32}$ are left.\<close>

lemma qrun_wf:
  "quota_wf st \<Longrightarrow> unat (nextProjectID st) + length (filter (\<lambda>a. isSet (snd a)) ops) < 2 ^ 32 \<Longrightarrow>
   quota_wf (qrun ops st)"
proof (induction ops arbitrary: st)
  case (Cons a ops)
  obtain flt opn where a: "a = (flt, opn)" by (cases a)
  let ?st = "qstep flt opn st"
  consider "sameIds st ?st" | "newId st ?st" "isSet opn"
    using qstep_ids [of st flt opn] qstep_not_set [of opn st flt] by blast
  then have "quota_wf ?st \<and> unat (nextProjectID ?st) + length (filter (\<lambda>a. isSet (snd a)) ops) < 2 ^ 32"
  proof cases
    case 1
    then have "unat (nextProjectID ?st) = unat (nextProjectID st)" by (simp add: sameIds_def)
    then show ?thesis
      using quota_wf_sameIds [OF 1 Cons.prems(1)] Cons.prems(2) by (auto simp: a split: if_splits)
  next
    case 2
    then have room: "unat (nextProjectID st) + 1 + length (filter (\<lambda>a. isSet (snd a)) ops) < 2 ^ 32"
      using Cons.prems(2) by (simp add: a)
    have one: "unat (nextProjectID st) + 1 < 2 ^ 32" using room by linarith
    show ?thesis
      using quota_wf_newId [OF Cons.prems(1) 2(1)] unat_next [OF 2(1) one] room by linarith
  qed
  then show ?case using Cons.IH by (simp add: a)
qed simp

text \<open>Two managed directories never share a project id: in any run of set, get and
  release requests, each with its own failures of the system calls, the id of every managed
  directory lies below the next id and distinct directories have distinct ids, as long as the
  32-bit counter does not run out.\<close>

theorem project_ids_unique:
  assumes "quota_wf st" and "unat (nextProjectID st) + length (filter (\<lambda>a. isSet (snd a)) ops) < 2 ^ 32"
    and "quotas (ctl (qrun ops st)) p = Some i" and "quotas (ctl (qrun ops st)) q = Some j" and "p \<noteq> q"
  shows "i \<noteq> j \<and> i < nextProjectID (qrun ops st) \<and> j < nextProjectID (qrun ops st)"
proof -
  have wf: "quota_wf (qrun ops st)" using assms(1,2) by (rule qrun_wf)
  then have "quotas (ctl (qrun ops st)) p \<noteq> quotas (ctl (qrun ops st)) q"
    using assms(3-5) unfolding quota_wf_def inj_on_def by blast
  then show ?thesis using wf assms(3,4) by (auto simp: quota_wf_def)
qed

lemma quota_wf_example: "quota_wf exampleState"
  by (simp add: quota_wf_def exampleState_def)

lemma example_real2 [simp]: "getRealPath (ctl exampleState) ''/b/v'' = ''/d/v''"
  by code_simp

lemma example_st1:
  defines "st1 \<equiv> snd (SetDirQuota noFaults exampleState ''/b/u'' 1000)"
  shows "ctl st1 = (ctl exampleState)\<lparr>quotas := [''/d/u'' \<mapsto> 10001]\<rparr>" "nextProjectID st1 = 10002"
    "nodes (disk st1) = [''/d'' \<mapsto> True, ''/d/u'' \<mapsto> True]"
proof -
  have run: "SetDirQuota noFaults exampleState ''/b/u'' 1000 = (None, st1)"
    using example_set by (simp add: prod_eq_iff st1_def)
  have "quotas (ctl exampleState) (getRealPath (ctl exampleState) ''/b/u'') = None"
    by (simp add: exampleState_def)
  note fresh = SetDirQuota_fresh [OF run this, unfolded example_real]
  have ex: "quotas (ctl exampleState) = Map.empty" "nextProjectID exampleState = 10001"
    by (simp_all add: exampleState_def)
  from fresh show "ctl st1 = (ctl exampleState)\<lparr>quotas := [''/d/u'' \<mapsto> 10001]\<rparr>" "nextProjectID st1 = 10002"
    by (simp_all add: ex)
  show "nodes (disk st1) = [''/d'' \<mapsto> True, ''/d/u'' \<mapsto> True]"
    using example_mkdir
    by (simp add: st1_def SetDirQuota_def Let_def)
      (simp add: exampleState_def noFaults_def setProjectID_def setProjectQuota_def openDirFails_def mkdir1_def)
qed

lemma set_under_existing:
  assumes "nodes (disk st) ''/d'' = Some True" "nodes (disk st) ''/d/v'' = None"
    and "getRealPath (ctl st) ''/b/v'' = ''/d/v''" and "quotas (ctl st) ''/d/v'' = None"
  shows "quotas (ctl (snd (SetDirQuota noFaults st ''/b/v'' sz))) = (quotas (ctl st))(''/d/v'' \<mapsto> nextProjectID st)"
proof -
  have "cleanComps ''/d/v'' = [''d'', ''v'']" by code_simp
  then have "mkdirAll noFaults (disk st) ''/d/v'' = (True, mkdir1 (disk st) ''/d'' ''/d/v'')"
    using assms(1,2) by (simp add: mkdirAll_def Let_def absPath_def noFaults_def)
  then show ?thesis
    using assms by (simp add: SetDirQuota_def Let_def)
      (simp add: Let_def noFaults_def setProjectID_def setProjectQuota_def openDirFails_def mkdir1_def)
qed

lemma example_two_sets:
  defines "ops \<equiv> [(noFaults, QSet ''/b/u'' 1000), (noFaults, QSet ''/b/v'' 2048)]"
  shows "quotas (ctl (qrun ops exampleState)) ''/d/u'' = Some 10001"
    and "quotas (ctl (qrun ops exampleState)) ''/d/v'' = Some 10002"
  unfolding ops_def
  using set_under_existing [of "snd (SetDirQuota noFaults exampleState ''/b/u'' 1000)" 2048]
  by (simp_all add: example_st1)

theorem project_ids_unique_witness:
  "let st' = qrun [(noFaults, QSet ''/b/u'' 1000), (noFaults, QSet ''/b/v'' 2048)] exampleState
   in quotas (ctl st') ''/d/u'' = Some 10001 \<and> quotas (ctl st') ''/d/v'' = Some 10002 \<and>
      (10001 :: u32) \<noteq> 10002 \<and> 10002 < nextProjectID st'"
proof -
  have "unat (nextProjectID exampleState) + length (filter (\<lambda>a. isSet (snd a))
      [(noFaults, QSet ''/b/u'' 1000), (noFaults, QSet ''/b/v'' 2048)]) < 2 ^ 32"
    by (simp add: isSet_def exampleState_def)
  from project_ids_unique [OF quota_wf_example this example_two_sets] example_two_sets
  show ?thesis by (simp add: Let_def)
qed

section \<open>Releasing a directory\<close>

lemma length_absPath_snoc: "properComp c \<Longrightarrow> length (absPath cs) < length (absPath (cs @ [c]))"
proof (cases "cs = []")
  case True
  moreover assume "properComp c"
  ultimately show ?thesis by (simp add: absPath_def properComp_def)
qed (simp add: absPath_snoc)

lemma length_absPath_append:
  "\<forall>c \<in> set suf. properComp c \<Longrightarrow> length (absPath pre) \<le> length (absPath (pre @ suf))"
proof (induction suf rule: rev_induct)
  case (snoc c suf)
  then show ?case using length_absPath_snoc [of c "pre @ suf"] by fastforce
qed simp

lemma removeAll_ancestor:
  assumes "\<forall>c \<in> set (pre @ suf). properComp c" and "suf \<noteq> []"
  shows "nodes (removeAll d (absPath (pre @ suf))) (absPath pre) = nodes d (absPath pre)"
proof -
  obtain ini c where suf: "suf = ini @ [c]" using assms(2) by (metis rev_exhaust)
  have "length (absPath pre) < length (absPath (pre @ suf))"
    using length_absPath_append [of ini pre] length_absPath_snoc [of c "pre @ ini"] assms(1)
    by (auto simp: suf)
  then have "absPath pre \<noteq> absPath (pre @ suf) \<and> \<not> hasPrefix (absPath pre) (absPath (pre @ suf) @ [slash])"
    by (auto simp: hasPrefix_def dest: arg_cong [where f = length])
  then show ?thesis by (simp add: removeAll_def)
qed

lemma mkdirFrom_existing:
  "\<forall>k \<in> {1..length cs}. nodes d (absPath (pre @ take k cs)) = Some True \<Longrightarrow>
   mkdirFrom flt d pre (cs @ rest) = mkdirFrom flt d (pre @ cs) rest"
proof (induction cs arbitrary: pre)
  case (Cons c cs)
  have "nodes d (absPath (pre @ [c])) = Some True" using Cons.prems by force
  moreover have "\<forall>k \<in> {1..length cs}. nodes d (absPath ((pre @ [c]) @ take k cs)) = Some True"
  proof
    fix k assume "k \<in> {1..length cs}"
    then have "Suc k \<in> {1..length (c # cs)}" by simp
    then show "nodes d (absPath ((pre @ [c]) @ take k cs)) = Some True"
      using Cons.prems by (metis append.assoc append_Cons append_Nil take_Suc_Cons)
  qed
  ultimately show ?case using Cons.IH [of "pre @ [c]"] by simp
qed simp

text \<open>A directory below existing ones is made by one step and takes after its parent.\<close>

lemma mkdirAll_leaf:
  assumes "\<forall>x \<in> set (cs @ [c]). properComp x" and "nodes d (absPath (cs @ [c])) = None"
    and "\<forall>k \<in> {1..length cs}. nodes d (absPath (take k cs)) = Some True"
    and "\<not> mkdirFails flt (absPath (cs @ [c]))"
  shows "mkdirAll flt d (absPath (cs @ [c])) = (True, mkdir1 d (absPath cs) (absPath (cs @ [c])))"
  using assms mkdirFrom_existing [of cs d "[]" flt "[c]"]
  by (simp add: mkdirAll_def cleanComps_absPath Let_def)

lemma removeAll_gone: "nodes (removeAll d p) p = None"
  by (simp add: removeAll_def)

lemma ReleaseDir_NoneD:
  "ReleaseDir flt st p = (None, st') \<Longrightarrow> st' = st\<lparr>disk := removeAll (disk st) (getRealPath (ctl st) p)\<rparr>"
  by (auto simp: ReleaseDir_def Let_def split: if_splits)

text \<open>A released directory that is set up again has no working quota: \<open>ReleaseDir\<close> keeps
  the entry of the directory in \<open>quotas\<close>, so the next \<open>SetDirQuota\<close> makes the directory
  anew but only sets the limit of the old project; the new directory belongs to project 0 and
  nothing is enforced on it, while \<open>GetDirQuota\<close> reports the limit as if it were.\<close>

theorem quota_after_release_not_enforced:
  assumes real: "getRealPath (ctl st) p = absPath (cs @ [c])" "\<forall>x \<in> set (cs @ [c]). properComp x"
    and dirs: "\<forall>k \<in> {1..length cs}. nodes (disk st) (absPath (take k cs)) = Some True"
    and parent: "\<not> projinherit (disk st) (absPath cs)"
    and known: "quotas (ctl st) (absPath (cs @ [c])) = Some i"
    and ok: "\<not> mkdirFails flt' (absPath (cs @ [c]))" "\<not> statFails flt' (absPath (cs @ [c]))"
      "getquotaErrno flt' i = 0"
    and release: "ReleaseDir flt st p = (None, st1)"
    and again: "SetDirQuota flt' st1 p sz = (None, st2)"
  shows "nodes (disk st2) (absPath (cs @ [c])) = Some True \<and> projids (disk st2) (absPath (cs @ [c])) = 0 \<and>
    \<not> projinherit (disk st2) (absPath (cs @ [c])) \<and>
    GetDirQuota flt' st2 p = Inr \<lparr>Path = p, Quota = sz div 512 * 512, UsedSpace = bcount (disk st2) i * 512\<rparr>"
proof -
  let ?r = "absPath (cs @ [c])" and ?d = "removeAll (disk st) (absPath (cs @ [c]))"
  have st1: "st1 = st\<lparr>disk := ?d\<rparr>" using ReleaseDir_NoneD [OF release] real(1) by simp
  have "nodes ?d (absPath (take k cs)) = Some True" if "k \<in> {1..length cs}" for k
    using removeAll_ancestor [of "take k cs" "drop k cs @ [c]" "disk st"] real(2) dirs that
    by (simp add: append.assoc [symmetric])
  then have mk: "mkdirAll flt' ?d ?r = (True, mkdir1 ?d (absPath cs) ?r)"
    using mkdirAll_leaf [OF real(2) removeAll_gone] ok(1) by blast
  have disk: "disk st2 = (mkdir1 ?d (absPath cs) ?r)\<lparr>
      hardlimit := (hardlimit ?d)(i := sz div 512), softlimit := (softlimit ?d)(i := sz div 512)\<rparr>"
    and ctl: "ctl st2 = ctl st"
    using again mk real(1) known ok(2) removeAll_gone [of "disk st" ?r]
    by (auto simp: SetDirQuota_def Let_def st1 mkdir1_def split: sum.splits dest!: setProjectQuota_InrD)
  have "projinherit ?d (absPath cs) = projinherit (disk st) (absPath cs)" by (simp add: removeAll_def)
  then have fields: "nodes (disk st2) ?r = Some True" "projids (disk st2) ?r = 0" "\<not> projinherit (disk st2) ?r"
    "hardlimit (disk st2) i = sz div 512"
    using parent by (simp_all add: disk mkdir1_def)
  then show ?thesis using real(1) known ok(3) by (simp add: GetDirQuota_def Let_def ctl)
qed

text \<open>A state in which \<open>/d/u\<close> is a managed directory of project 10001.\<close>

definition managedState :: qstate where
  "managedState = exampleState\<lparr>ctl := (ctl exampleState)\<lparr>quotas := [''/d/u'' \<mapsto> 10001]\<rparr>,
     nextProjectID := 10002,
     disk := (disk exampleState)\<lparr>nodes := [''/d'' \<mapsto> True, ''/d/u'' \<mapsto> True],
       projids := (\<lambda>_. 0)(''/d/u'' := 10001), projinherit := (\<lambda>_. False)(''/d/u'' := True)\<rparr>\<rparr>"

lemma managed_real: "getRealPath (ctl managedState) ''/b/u'' = ''/d/u''"
  by (simp add: managedState_def)

lemma managed_release: "ReleaseDir noFaults managedState ''/b/u'' =
    (None, managedState\<lparr>disk := removeAll (disk managedState) ''/d/u''\<rparr>)"
proof -
  have "pathDir ''/b/u'' = ''/b''" by code_simp
  then show ?thesis by (simp add: ReleaseDir_def managed_real Let_def) (simp add: managedState_def exampleState_def noFaults_def)
qed

lemma managed_set_again:
  "fst (SetDirQuota noFaults (managedState\<lparr>disk := d\<rparr>) ''/b/u'' 1024) = None \<or> nodes d ''/d/u'' = Some False"
  by (simp add: SetDirQuota_def managed_real Let_def)
    (simp add: managedState_def setProjectQuota_def noFaults_def)

theorem quota_after_release_not_enforced_witness:
  "let st1 = snd (ReleaseDir noFaults managedState ''/b/u'');
       st2 = snd (SetDirQuota noFaults st1 ''/b/u'' 1024)
   in nodes (disk st2) ''/d/u'' = Some True \<and> projids (disk st2) ''/d/u'' = 0 \<and>
      GetDirQuota noFaults st2 ''/b/u'' =
        Inr \<lparr>Path = ''/b/u'', Quota = 1024, UsedSpace = bcount (disk st2) 10001 * 512\<rparr>"
proof -
  let ?st1 = "managedState\<lparr>disk := removeAll (disk managedState) ''/d/u''\<rparr>"
  have path: "absPath ([''d''] @ [''u'']) = ''/d/u''" "absPath [''d''] = ''/d''" by (simp_all add: absPath_def)
  have again: "SetDirQuota noFaults ?st1 ''/b/u'' 1024 = (None, snd (SetDirQuota noFaults ?st1 ''/b/u'' 1024))"
    using managed_set_again [of "removeAll (disk managedState) ''/d/u''"] removeAll_gone
    by (simp add: prod_eq_iff)
  have "(1024 :: u64) div 512 * 512 = 1024" by code_simp
  moreover have "nodes (disk managedState) ''/d'' = Some True" "\<not> projinherit (disk managedState) ''/d''"
    "quotas (ctl managedState) ''/d/u'' = Some 10001" "\<not> mkdirFails noFaults ''/d/u''"
    "\<not> statFails noFaults ''/d/u''" "getquotaErrno noFaults 10001 = 0"
    by (simp_all add: managedState_def exampleState_def noFaults_def)
  ultimately show ?thesis
    using quota_after_release_not_enforced
        [of managedState "''/b/u''" "[''d'']" "''u''" 10001 noFaults noFaults ?st1 1024, unfolded path, OF _ _ _ _ _ _ _ _ _ again]
    by (simp add: Let_def managed_real managed_release properComp_def path)
qed

section \<open>The scan at start-up\<close>

text \<open>Every recorded id is on the disk, and below the next id.\<close>

definition scan_ok :: "xfs \<Rightarrow> scan \<Rightarrow> bool" where
  "scan_ok d s \<longleftrightarrow> (\<forall>p i. fst s p = Some i \<longrightarrow> projids d p = i \<and> 0 < i \<and> i < snd s)"

lemma checkProjID_ok:
  assumes "scan_ok d s" and "\<forall>q. projids d q \<noteq> - 1"
  shows "scan_ok d (snd (checkProjID flt d p s)) \<and> snd s \<le> snd (snd (checkProjID flt d p s))"
proof (cases "getProjectID flt d p")
  case (Inr projid)
  then have projid: "projid = projids d p" by (auto simp: getProjectID_def split: if_splits)
  have "projid < projid + 1" using assms(2) word_less_succ [of projid projid] by (simp add: projid)
  moreover have "i < projid + 1" if "fst s q = Some i" "snd s \<le> projid" for q i
  proof -
    have "i < snd s" using assms(1) that(1) by (auto simp: scan_ok_def)
    then show ?thesis using that(2) \<open>projid < projid + 1\<close> by (meson less_trans order_less_le_trans)
  qed
  ultimately show ?thesis
    using assms(1) Inr projid by (auto simp: checkProjID_def scan_ok_def not_le)
qed (use assms in \<open>simp add: checkProjID_def\<close>)

lemma scanSub_ok:
  "scan_ok d s \<Longrightarrow> \<forall>q. projids d q \<noteq> - 1 \<Longrightarrow>
   scan_ok d (snd (scanSub flt d dir files s)) \<and> snd s \<le> snd (snd (scanSub flt d dir files s))"
proof (induction files arbitrary: s)
  case (Cons f files)
  obtain name isDir where f: "f = (name, isDir)" by (cases f)
  obtain r s' where r: "checkProjID flt d (pathJoin [dir, name]) s = (r, s')" by (cases "checkProjID flt d (pathJoin [dir, name]) s")
  have "scan_ok d s' \<and> snd s \<le> snd s'" using checkProjID_ok [OF Cons.prems, of flt "pathJoin [dir, name]"] r by simp
  then show ?case
    using Cons.IH [of s'] Cons.IH [of s] Cons.prems by (cases r) (auto simp: f r intro: order_trans)
qed simp

lemma scanHome_ok:
  "scan_ok d s \<Longrightarrow> \<forall>q. projids d q \<noteq> - 1 \<Longrightarrow>
   scan_ok d (snd (scanHome flt d home b files s)) \<and> snd s \<le> snd (snd (scanHome flt d home b files s))"
proof (induction files arbitrary: s)
  case (Cons f files)
  obtain name isDir where f: "f = (name, isDir)" by (cases f)
  let ?p = "pathJoin [home, name]"
  obtain r s' where r: "checkProjID flt d ?p s = (r, s')" by (cases "checkProjID flt d (pathJoin [home, name]) s")
  have s': "scan_ok d s'" "snd s \<le> snd s'" using checkProjID_ok [OF Cons.prems, of flt ?p] r by simp_all
  have rest: "snd s \<le> snd t \<Longrightarrow> scan_ok d t \<Longrightarrow>
      scan_ok d (snd (scanHome flt d home b files t)) \<and> snd s \<le> snd (snd (scanHome flt d home b files t))" for t
    using Cons.IH [of t] Cons.prems(2) by (auto intro: order_trans)
  show ?case
  proof (cases "readdirRes flt ?p")
    case None
    then show ?thesis using rest [of s'] rest [of s] Cons.prems s' by (cases r) (auto simp: f r Let_def)
  next
    case (Some sub)
    obtain q s'' where q: "scanSub flt d ?p sub s' = (q, s'')" by (cases "scanSub flt d ?p sub s'")
    have "scan_ok d s''" "snd s \<le> snd s''"
      using scanSub_ok [OF s'(1) Cons.prems(2), of flt ?p sub] q s'(2) by auto
    then show ?thesis
      using rest [of s''] rest [of s'] rest [of s] Cons.prems s' Some
      by (cases r; cases q) (auto simp: f r q Let_def)
  qed
qed simp

lemma findNextProjectID_ok:
  "scan_ok d s \<Longrightarrow> \<forall>q. projids d q \<noteq> - 1 \<Longrightarrow> findNextProjectID flt d home b s = (r, s') \<Longrightarrow>
   scan_ok d s' \<and> snd s \<le> snd s'"
  using scanHome_ok [of d s flt home b] by (auto simp: findNextProjectID_def split: option.splits) (metis snd_conv)+

lemma NewControl_run:
  assumes "NewControl flt sy nxt d pre base = (None, Some c, nxt', d')"
  shows "findNextProjectID flt d' (relBasePath c) (projids d' (relBasePath c))
           (Map.empty, updateMinProjID nxt (projids d' (relBasePath c) + 10000)) = (None, (quotas c, nxt'))"
proof -
  obtain rel d1 where rel: "locateBase flt sy d pre base = (Inr rel, d1)"
    using assms by (auto simp: NewControl_def split: prod.splits sum.splits)
  obtain dev d2 where dev: "makeBackingFsDev sy d1 rel = (Inr dev, d2)"
    using assms by (auto simp: NewControl_def rel split: prod.splits sum.splits)
  have sup: "hasQuotaSupport sy dev = Inr True"
    using assms by (auto simp: NewControl_def rel dev split: sum.splits bool.splits)
  obtain b where b: "getProjectID flt d2 rel = Inr b"
    using assms by (auto simp: NewControl_def rel dev sup split: sum.splits)
  obtain d3 where d3: "setProjectQuota flt d2 (b + 10000) 0 = Inr d3"
    using assms by (auto simp: NewControl_def rel dev sup b Let_def split: sum.splits)
  have fin: "findNextProjectID flt d3 rel b (Map.empty, updateMinProjID nxt (b + 10000)) = (None, (quotas c, nxt'))"
    "relBasePath c = rel" "d' = d3"
    using assms by (auto simp: NewControl_def rel dev sup b d3 Let_def split: prod.splits option.splits)
  have "b = projids d2 rel" using b by (auto simp: getProjectID_def split: if_splits)
  moreover have "projids d3 = projids d2" using setProjectQuota_InrD [OF d3] by simp
  ultimately show ?thesis using fin by simp
qed

lemma updateMinProjID_above: "b \<noteq> - 1 \<Longrightarrow> b < updateMinProjID nxt b"
  using word_less_succ [of b b] by (auto simp: updateMinProjID_def not_le)

text \<open>A started controller records only real assignments and starts above all of them:
  every id in \<open>quotas\<close> after \<open>NewControl\<close> is the non-zero project id its directory has on
  the disk and is below the next id to be handed out, which is also above the base project id
  plus 10000; so no id found by the scan is handed out again. (The largest 32-bit id must not
  be in use, and the base id must leave room for the offset.)\<close>

theorem NewControl_starts_above_used_ids:
  assumes "NewControl flt sy nxt d pre base = (None, Some c, nxt', d')"
    and "\<forall>q. projids d' q \<noteq> - 1" and "unat (projids d' (relBasePath c)) + 10001 < 2 ^ 32"
  shows "(\<forall>p i. quotas c p = Some i \<longrightarrow> projids d' p = i \<and> 0 < i \<and> i < nxt') \<and>
    projids d' (relBasePath c) + 10000 < nxt'"
proof -
  let ?b = "projids d' (relBasePath c)"
  have scan: "scan_ok d' (quotas c, nxt') \<and> updateMinProjID nxt (?b + 10000) \<le> nxt'"
    using findNextProjectID_ok [OF _ assms(2) NewControl_run [OF assms(1)]] by (simp add: scan_ok_def)
  have "unat (?b + 10000) = unat ?b + 10000"
    using assms(3) by (simp add: unat_word_ariths)
  then have "unat (?b + 10000) \<noteq> unat (- 1 :: u32)"
    using assms(3) by (simp add: unsigned_minus_1_eq_mask mask_eq_exp_minus_1)
  then have "?b + 10000 \<noteq> - 1" by metis
  then have "?b + 10000 < nxt'"
    using updateMinProjID_above [of "?b + 10000" nxt] scan by (meson less_le_trans)
  then show ?thesis using scan by (auto simp: scan_ok_def)
qed

text \<open>A node whose base directory \<open>/d\<close> holds one directory of project 20000.\<close>

definition exampleSys :: sys where
  "exampleSys = \<lparr>sysLstat = (\<lambda>_ _. Plain), sysStat = (\<lambda>_ _. None), sysPartitions = Some [],
     sysIsDir = (\<lambda>_. Some True), sysUsage = (\<lambda>_. None), symlinkFails = (\<lambda>_. False),
     mknodErrno = (\<lambda>_. 0), qstatRes = (\<lambda>_. (0, 48)), statfsRes = (\<lambda>_. None)\<rparr>"

definition exampleDisk :: xfs where
  "exampleDisk = (disk exampleState)\<lparr>nodes := [''/d'' \<mapsto> True, ''/d/u'' \<mapsto> True],
     projids := (\<lambda>_. 0)(''/d/u'' := 20000)\<rparr>"

definition exampleFaults :: faults where
  "exampleFaults = noFaults\<lparr>readdirRes := (\<lambda>_. Some [])(''/d'' := Some [(''u'', True)])\<rparr>"

lemma example_NewControl:
  "\<exists>c d'. NewControl exampleFaults exampleSys 1 exampleDisk [] ''/d'' = (None, Some c, 20001, d') \<and>
     relBasePath c = ''/d'' \<and> quotas c = [''/d/u'' \<mapsto> 20000] \<and> projids d' = projids exampleDisk"
proof -
  have rel: "FindRealPath (\<lambda>_. Plain) (\<lambda>_. None) [] ''/d'' = Inr ''/d''" by code_simp
  have path: "pathJoin [''/d'', ''u''] = ''/d/u''" "pathJoin [''/d'', ''backingFsBlockDev2''] = ''/d/backingFsBlockDev2''"
    by code_simp+
  have flags: "bit (48 :: u16) 5 \<and> bit (48 :: u16) 4" by code_simp
  have start: "updateMinProjID 1 10000 = 10001" by code_simp
  have cmp: "(0 :: u32) < 20000" "(10001 :: u32) \<le> 20000" "(20000 :: u32) + 1 = 20001" "(0 :: u32) \<noteq> 20000" by code_simp+
  show ?thesis
    by (simp add: NewControl_def locateBase_def makeBackingFsDev_def hasQuotaSupport_def Let_def exampleSys_def
        rel path flags)
      (simp add: getProjectID_def openDirFails_def setProjectQuota_def findNextProjectID_def checkProjID_def
        exampleFaults_def noFaults_def exampleDisk_def exampleState_def Let_def path start cmp)
qed

theorem NewControl_starts_above_used_ids_witness:
  "\<exists>c d'. NewControl exampleFaults exampleSys 1 exampleDisk [] ''/d'' = (None, Some c, 20001, d') \<and>
     quotas c ''/d/u'' = Some 20000 \<and> projids d' ''/d/u'' = 20000 \<and> (20000 :: u32) < 20001"
proof -
  obtain c d' where run: "NewControl exampleFaults exampleSys 1 exampleDisk [] ''/d'' = (None, Some c, 20001, d')"
    "relBasePath c = ''/d''" "quotas c = [''/d/u'' \<mapsto> 20000]" "projids d' = projids exampleDisk"
    using example_NewControl by blast
  have "\<forall>q. projids d' q \<noteq> - 1" by (simp add: run exampleDisk_def exampleState_def)
  moreover have "unat (projids d' (relBasePath c)) + 10001 < 2 ^ 32" by (simp add: run exampleDisk_def exampleState_def)
  ultimately have "\<forall>p i. quotas c p = Some i \<longrightarrow> projids d' p = i \<and> 0 < i \<and> i < 20001"
    using NewControl_starts_above_used_ids [OF run(1)] by blast
  then show ?thesis using run by force
qed

section \<open>Choosing a partition, resolving a path\<close>

text \<open>The chosen partition is one of the candidates (or none), and no smaller than any of those
  seen; two mounts of one device have the same size.\<close>

lemma pickMax_ge:
  assumes "\<forall>p \<in> set ps. \<forall>q \<in> insert m (set ps). Device p = Device q \<longrightarrow> Total p = Total q"
  shows "Total m \<le> Total (pickMax m ps) \<and> (\<forall>p \<in> set ps. Total p \<le> Total (pickMax m ps))"
  using assms
proof (induction ps arbitrary: m)
  case (Cons p ps)
  define m' where "m' = (if Total p \<ge> Total m \<and> Total p > 0
            then if Device p = Device m then if DirLength m > DirLength p then p else m else p else m)"
  have m: "m' = p \<or> m' = m" by (simp add: m'_def)
  have le1: "Total m \<le> Total m'" by (auto simp: m'_def)
  have le2: "Total p \<le> Total m'" 
  proof -
    have "Total p = 0 \<or> 0 < Total p" by (simp add: word_gt_0)
    moreover have "Device p = Device m \<longrightarrow> Total p = Total m" using Cons.prems by simp
    moreover have "Total m \<le> Total p \<or> Total p \<le> Total m" by (rule linear)
    ultimately show ?thesis by (auto simp: m'_def)
  qed
  have "\<forall>q \<in> set ps. \<forall>r \<in> insert m' (set ps). Device q = Device r \<longrightarrow> Total q = Total r"
    using Cons.prems m by (smt (verit) insert_iff list.simps(15))
  then have ih: "Total m' \<le> Total (pickMax m' ps) \<and> (\<forall>q \<in> set ps. Total q \<le> Total (pickMax m' ps))"
    by (rule Cons.IH)
  have eq: "pickMax m (p # ps) = pickMax m' ps" by (simp add: m'_def)
  show ?case unfolding eq using le1 le2 ih by (metis order_trans set_ConsD)
qed simp

lemma pickMax_in: "pickMax m ps \<in> insert m (set ps)"
  by (induction ps arbitrary: m) (simp_all, (blast | metis insertE insertI1 insertI2)+)

text \<open>\<open>GetXFSMount\<close> chooses a largest XFS partition: when mounts of one device report one
  size and every device has a name, the result is a usable XFS mount under the prefix whose size
  no other usable mount exceeds, or the empty partition if no usable mount has a size.\<close>

theorem GetXFSMount_picks_largest:
  assumes "GetXFSMount (Some parts) isDir usage prefix = Some m"
    and "\<forall>p \<in> set parts. Device p \<noteq> [] \<and>
          (\<forall>q \<in> set parts. Device p = Device q \<longrightarrow> usage (Mountpoint p) = usage (Mountpoint q))"
  shows "(m = noPartition \<or> (\<exists>p \<in> set parts. xfsCandidate prefix isDir usage p = Some m)) \<and>
    (\<forall>p \<in> set parts. \<forall>c. xfsCandidate prefix isDir usage p = Some c \<longrightarrow> Total c \<le> Total m)"
proof -
  let ?cs = "List.map_filter (xfsCandidate prefix isDir usage) parts"
  have cs: "c \<in> set (List.map_filter (xfsCandidate prefix isDir usage) parts) \<longleftrightarrow> (\<exists>p \<in> set parts. xfsCandidate prefix isDir usage p = Some c)" for c
    by (induction parts) (auto simp: map_filter_simps split: option.splits)
  have m: "m = pickMax noPartition ?cs" using assms(1) by (simp add: GetXFSMount_def)
  have fields: "Device c = Device p \<and> usage (Mountpoint p) = Some (Total c)"
    if "xfsCandidate prefix isDir usage p = Some c" for p c
    using that by (auto simp: xfsCandidate_def split: if_splits option.splits)
  have "\<forall>p \<in> set ?cs. \<forall>q \<in> insert noPartition (set ?cs). Device p = Device q \<longrightarrow> Total p = Total q"
  proof (intro ballI impI)
    fix p q assume p: "p \<in> set ?cs" and q: "q \<in> insert noPartition (set ?cs)" and dev: "Device p = Device q"
    obtain p' where p': "p' \<in> set parts" "xfsCandidate prefix isDir usage p' = Some p" using p cs by blast
    have "Device p \<noteq> []" using fields [OF p'(2)] assms(2) p'(1) by metis
    then have "q \<noteq> noPartition" using dev by (auto simp: noPartition_def)
    then have "q \<in> set ?cs" using q by simp
    then obtain q' where q': "q' \<in> set parts" "xfsCandidate prefix isDir usage q' = Some q" using cs by blast
    have "Device p' = Device q'" using fields [OF p'(2)] fields [OF q'(2)] dev by simp
    then have "usage (Mountpoint p') = usage (Mountpoint q')" using assms(2) p'(1) q'(1) by blast
    then show "Total p = Total q" using fields [OF p'(2)] fields [OF q'(2)] by simp
  qed
  from pickMax_ge [OF this] pickMax_in [of noPartition ?cs] show ?thesis
    unfolding m using cs by blast
qed

theorem GetXFSMount_picks_largest_witness:
  "let p = \<lparr>Device = ''sda'', Mountpoint = ''/a'', Fstype = ''xfs'', Opts = []\<rparr>;
       q = \<lparr>Device = ''sdb'', Mountpoint = ''/b'', Fstype = ''xfs'', Opts = []\<rparr>;
       usage = (\<lambda>s. if s = ''/a'' then Some 7 else Some 9)
   in \<exists>m. GetXFSMount (Some [p, q]) (\<lambda>_. Some True) usage [] = Some m \<and> Mountpoint m = ''/b'' \<and> 7 \<le> Total m"
proof -
  let ?p = "\<lparr>Device = ''sda'', Mountpoint = ''/a'', Fstype = ''xfs'', Opts = []\<rparr>"
  let ?q = "\<lparr>Device = ''sdb'', Mountpoint = ''/b'', Fstype = ''xfs'', Opts = []\<rparr>"
  let ?usage = "\<lambda>s. if s = ''/a'' then Some 7 else Some (9 :: u64)"
  have lt: "(7 :: u64) \<le> 9" "(0 :: u64) < 7" "(0 :: u64) < 9" by code_simp+
  obtain m where m: "GetXFSMount (Some [?p, ?q]) (\<lambda>_. Some True) ?usage [] = Some m" "Mountpoint m = ''/b''"
    by (simp add: GetXFSMount_def map_filter_simps xfsCandidate_def noPartition_def lt)
  have "xfsCandidate [] (\<lambda>_. Some True) ?usage ?p =
    Some \<lparr>Device = ''sda'', Mountpoint = ''/a'', Fstype = ''xfs'', Opts = [], Total = 7, DirLength = 2\<rparr>"
    by (simp add: xfsCandidate_def)
  then have "7 \<le> Total m"
    using GetXFSMount_picks_largest [OF m(1)] by fastforce
  then show ?thesis using m by (simp add: Let_def)
qed

end
