(* ===== verification/Http_Reply.thy ===== *)
theory Http_Reply
  imports Go_Prelude
begin

text \<open>
  What the HTTP handlers share: Go's \<open>http.ResponseWriter\<close>, of which the first write or
  \<open>WriteHeader\<close> fixes the status, the uniform answers \<open>SUCCESS_RES\<close> and \<open>FAIL_RES\<close> of
  \<open>utils/Common.go\<close>, and the signature check of \<open>Service/ProxyService.go\<close>. The messages
  \<open>'m\<close> and the data \<open>'d\<close> of an answer differ between the services.
\<close>

section \<open>Responses\<close>

datatype ('m, 'd) body =
    ErrorText 'm | SuccessRes string 'd | FailRes 'm 'd | RemoteBody string

record ('m, 'd) response =
  status :: "nat option"
  bodies :: "('m, 'd) body list"

definition WriteHeader :: "nat \<Rightarrow> ('m, 'd) response \<Rightarrow> ('m, 'd) response" where
  "WriteHeader code r = (if status r = None then r\<lparr>status := Some code\<rparr> else r)"

definition Write :: "('m, 'd) body \<Rightarrow> ('m, 'd) response \<Rightarrow> ('m, 'd) response" where
  "Write b r = (WriteHeader 200 r)\<lparr>bodies := bodies r @ [b]\<rparr>"

definition SUCCESS_RES :: "string \<Rightarrow> 'd \<Rightarrow> ('m, 'd) response \<Rightarrow> ('m, 'd) response" where
  "SUCCESS_RES msg data r = Write (SuccessRes msg data) r"

definition FAIL_RES :: "'m \<Rightarrow> 'd \<Rightarrow> ('m, 'd) response \<Rightarrow> ('m, 'd) response" where
  "FAIL_RES msg data r = Write (FailRes msg data) r"

definition emptyResponse :: "('m, 'd) response" where
  "emptyResponse = \<lparr>status = None, bodies = []\<rparr>"

lemmas reply_defs = emptyResponse_def Write_def WriteHeader_def SUCCESS_RES_def FAIL_RES_def

lemma Write_simps [simp]:
  "bodies (Write b r) = bodies r @ [b]"
  "status (Write b r) = (if status r = None then Some 200 else status r)"
  by (simp_all add: Write_def WriteHeader_def)

lemma WriteHeader_simps [simp]:
  "bodies (WriteHeader c r) = bodies r"
  "status (WriteHeader c r) = (if status r = None then Some c else status r)"
  by (simp_all add: WriteHeader_def)

lemma emptyResponse_simps [simp]: "status emptyResponse = None" "bodies emptyResponse = []"
  by (simp_all add: emptyResponse_def)

text \<open>The order of the two calls decides the status.\<close>

lemma late_status_ignored: "WriteHeader c (Write b r) = Write b r"
  by (simp add: Write_def WriteHeader_def)

section \<open>Requests between nodes\<close>

text \<open>What the signature check reads of a request: the \<open>Target_host\<close> header, and the query
  parameters \<open>timestamp\<close> and \<open>sign\<close> (empty when absent).\<close>

record signedReq =
  TargetHost :: string
  timestamp :: string
  sign :: string

text \<open>The outcome of \<open>RequestAndRedirect\<close>: handed to the reverse proxy of a host, refused with an
  answer, or to be handled here. The two results the callers look at are whether it was redirected
  and whether there was an error. \<open>md5hex\<close> is the hexadecimal MD5 digest.\<close>

datatype redirect = ToHost string | AuthFail | HandleHere

definition RequestAndRedirect :: "(string \<Rightarrow> string) \<Rightarrow> int \<Rightarrow> string \<Rightarrow> signedReq \<Rightarrow> redirect" where
  "RequestAndRedirect md5hex port key r =
     (if TargetHost r \<noteq> [] then ToHost (TargetHost r @ '':'' @ showInt port)
      else if timestamp r = [] then AuthFail
      else if md5hex (timestamp r @ ''_'' @ key) \<noteq> sign r then AuthFail
      else HandleHere)"

definition redirected :: "redirect \<Rightarrow> bool" where
  "redirected d = (case d of ToHost _ \<Rightarrow> True | _ \<Rightarrow> False)"

definition refused :: "redirect \<Rightarrow> bool" where
  "refused d = (d = AuthFail)"

lemma HandleHere_iff:
  "RequestAndRedirect md5hex port key r = HandleHere \<longleftrightarrow>
     TargetHost r = [] \<and> timestamp r \<noteq> [] \<and> sign r = md5hex (timestamp r @ ''_'' @ key)"
  by (auto simp: RequestAndRedirect_def)

end
