(* ===== verification/Quota_Service.thy ===== *)
theory Quota_Service
  imports AES_Auth Project_Quota Http_Reply
begin

text \<open>
  The HTTP handlers of the quota service, \<open>Service/QuotaService.go\<close>, with the answers of
  \<open>utils/Common.go\<close>: each handler authenticates a token and either works on the local quota
  controller or forwards the request, under a new token, to the node named in it. The response
  writer and its rule that the first write fixes the status are in \<open>Http_Reply\<close>. JSON, the HTTP client
  and the block cipher are parameters.
\<close>

section \<open>Responses\<close>

record AuthParam =
  AHost :: string
  AExpirationTime :: int

record QuotaParam =
  ParamAuth :: AuthParam
  Token :: string
  ImageName :: string
  TargetPath :: string
  ParamQuota :: u64
  CallBackUrl :: string
  Async :: int

datatype resdata = NoData | ParamData QuotaParam | InfoData QuotaInfo

datatype message =
    AuthFailure auth_error | BadClaims | QuotaNotSupport | NoClient | QuotaError qerr | RequestFailed

type_synonym qbody = "(message, resdata) body"

section \<open>The surroundings of a handler\<close>

text \<open>\<open>post\<close> is one attempt of the HTTP client, by number; \<open>None\<close> is an error.\<close>

record svc =
  Enc :: "byte list \<Rightarrow> byte list \<Rightarrow> byte list"
  Dec :: "byte list \<Rightarrow> byte list \<Rightarrow> byte list"
  secretKey :: "byte list"
  nextIV :: "byte list"
  marshalAuth :: "AuthParam \<Rightarrow> byte list"
  unmarshalAuth :: "byte list \<Rightarrow> AuthParam option"
  serverPort :: int
  post :: "nat \<Rightarrow> string \<Rightarrow> QuotaParam \<Rightarrow> string option"
  nowMilli :: int
  callFaults :: faults
  sysView :: sys
  dockerClient :: bool
  imageData :: "string \<Rightarrow> (string, string) gomap option"

text \<open>What a request does: the answer, the controller afterwards, the requests sent on and the
  callbacks. A run-time panic ends the request.\<close>

record effects =
  answer :: "(message, resdata) response"
  control :: "qstate option"
  sent :: "(string \<times> QuotaParam) list"
  callbacks :: "(string \<times> nat \<times> qbody) list"
  panicked :: bool

definition startEffects :: "qstate option \<Rightarrow> effects" where
  "startEffects c = \<lparr>answer = emptyResponse, control = c, sent = [], callbacks = [], panicked = False\<rparr>"

definition GetURLByHost :: "svc \<Rightarrow> string \<Rightarrow> string" where
  "GetURLByHost s host =
     (if hasPrefix host ''http'' then trimSuffix host ''/'' @ '':'' @ showInt (serverPort s)
      else ''http://'' @ trimSuffix host ''/'' @ '':'' @ showInt (serverPort s))"

definition isExpirationAuth :: "int \<Rightarrow> AuthParam \<Rightarrow> bool" where
  "isExpirationAuth now p \<longleftrightarrow> \<not> AExpirationTime p > now"

definition callback :: "string \<Rightarrow> nat \<Rightarrow> qbody \<Rightarrow> effects \<Rightarrow> effects" where
  "callback url st res eff =
     (if url = [] then eff else eff\<lparr>callbacks := callbacks eff @ [(url, st, res)]\<rparr>)"

text \<open>\<open>retry.Do\<close> with three attempts: every attempt sends, the first success ends it.\<close>

fun retryPost :: "svc \<Rightarrow> nat \<Rightarrow> nat \<Rightarrow> string \<Rightarrow> QuotaParam \<Rightarrow> nat \<times> string option" where
  "retryPost s k 0 url p = (0, None)"
| "retryPost s k (Suc n) url p =
     (case post s k url p of
        Some r \<Rightarrow> (1, Some r)
      | None \<Rightarrow> (let (m, res) = retryPost s (k + 1) n url p in (m + 1, res)))"

text \<open>The request is sent on and its answer copied back when the caller waits for it; the failure
  part differs between the handlers and is a parameter.\<close>

definition sendOn :: "svc \<Rightarrow> string \<Rightarrow> QuotaParam \<Rightarrow> (effects \<Rightarrow> effects) \<Rightarrow> effects \<Rightarrow> effects" where
  "sendOn s url p failed eff =
     (let (attempts, res) = retryPost s 0 3 url p;
          eff1 = eff\<lparr>sent := sent eff @ replicate attempts (url, p)\<rparr>
      in case res of
           Some r \<Rightarrow>
             callback (CallBackUrl p) 1 (RemoteBody r)
               (if Async p = 0 then eff1\<lparr>answer := Write (RemoteBody r) (answer eff1)\<rparr> else eff1)
         | None \<Rightarrow> callback (CallBackUrl p) 0 (FailRes RequestFailed NoData) (failed eff1))"

text \<open>The two orders in which the handlers write an error and its status.\<close>

definition statusThenBody :: "nat \<Rightarrow> qbody \<Rightarrow> effects \<Rightarrow> effects" where
  "statusThenBody code b eff = eff\<lparr>answer := Write b (WriteHeader code (answer eff))\<rparr>"

definition bodyThenStatus :: "nat \<Rightarrow> qbody \<Rightarrow> effects \<Rightarrow> effects" where
  "bodyThenStatus code b eff = eff\<lparr>answer := WriteHeader code (Write b (answer eff))\<rparr>"

text \<open>Authentication at the start of every handler: the claims, or the message of the error.\<close>

definition authenticate :: "svc \<Rightarrow> string \<Rightarrow> message + AuthParam" where
  "authenticate s token =
     (case AuthJWTToken (Dec s) (secretKey s) token of
        Ret res \<Rightarrow> (case unmarshalAuth s res of None \<Rightarrow> Inl BadClaims | Some p \<Rightarrow> Inr p)
      | Fail e \<Rightarrow> Inl (AuthFailure e)
      | Panic \<Rightarrow> Inl (AuthFailure InvalidToken))"

text \<open>The parameter of the forwarded request: claims for the local node and a token over them.\<close>

definition forwardParam :: "svc \<Rightarrow> int \<Rightarrow> QuotaParam \<Rightarrow> QuotaParam outcome" where
  "forwardParam s expiry p =
     (let claims = \<lparr>AHost = ''localhost'', AExpirationTime = expiry\<rparr> in
      case GeneratorJWTToken (Enc s) (secretKey s) (nextIV s) (marshalAuth s claims) of
        Ret t \<Rightarrow> Ret (p\<lparr>ParamAuth := claims, Token := t\<rparr>)
      | Fail e \<Rightarrow> Fail e
      | Panic \<Rightarrow> Panic)"

section \<open>Handlers\<close>

definition GetImageDiskQuotaInfoHandler :: "svc \<Rightarrow> qstate option \<Rightarrow> QuotaParam \<Rightarrow> effects" where
  "GetImageDiskQuotaInfoHandler s c param =
     (let eff = startEffects c in
      case authenticate s (Token param) of
        Inl m \<Rightarrow> statusThenBody 401 (ErrorText m) eff
      | Inr hostParam \<Rightarrow>
          if AHost hostParam = ''localhost'' then
            (case c of
               None \<Rightarrow> eff\<lparr>answer := FAIL_RES QuotaNotSupport (ParamData param) (answer eff)\<rparr>
             | Some st \<Rightarrow>
                 if \<not> dockerClient s then eff\<lparr>answer := FAIL_RES NoClient (ParamData param) (answer eff)\<rparr>
                 else case GetImageDiskQuotaInfo (sysView s) st (imageData s (ImageName param)) of
                     Inr info \<Rightarrow> eff\<lparr>answer := SUCCESS_RES ''success'' (InfoData info) (answer eff)\<rparr>
                   | Inl e \<Rightarrow> eff\<lparr>answer := FAIL_RES (QuotaError e) NoData (answer eff)\<rparr>)
          else (case forwardParam s (nowMilli s + 1000 * 2) param of
                  Ret p \<Rightarrow> sendOn s (GetURLByHost s (AHost (ParamAuth param)) @ ''/api/getImageQuotaInfo'') p
                             (statusThenBody 400 (FailRes RequestFailed NoData)) eff
                | _ \<Rightarrow> eff\<lparr>panicked := True\<rparr>))"

definition GetNodeSpaceInfoHandler :: "svc \<Rightarrow> qstate option \<Rightarrow> QuotaParam \<Rightarrow> effects" where
  "GetNodeSpaceInfoHandler s c param =
     (let eff = startEffects c in
      case authenticate s (Token param) of
        Inl m \<Rightarrow> bodyThenStatus 401 (ErrorText m) eff
      | Inr hostParam \<Rightarrow>
          if AHost hostParam = ''localhost'' then
            (case c of
               None \<Rightarrow> eff\<lparr>answer := FAIL_RES QuotaNotSupport (ParamData param) (answer eff)\<rparr>
             | Some st \<Rightarrow>
                 (case GetNodeSpaceInfo (statfsRes (sysView s)) st (TargetPath param) of
                    Inr info \<Rightarrow> eff\<lparr>answer := SUCCESS_RES ''success'' (InfoData info) (answer eff)\<rparr>
                  | Inl e \<Rightarrow> eff\<lparr>answer := FAIL_RES (QuotaError e) NoData (answer eff)\<rparr>))
          else (case forwardParam s 0 param of
                  Ret p \<Rightarrow> sendOn s (GetURLByHost s (AHost (ParamAuth param)) @ ''/api/getNodeSpaceInfo'') p
                             (bodyThenStatus 400 (FailRes RequestFailed NoData)) eff
                | _ \<Rightarrow> eff\<lparr>panicked := True\<rparr>))"

text \<open>\<open>ReleaseDirHandler\<close> looks at no error of the token it makes (a failed one is empty), and
  answers at once when the caller does not wait; the detached part then writes to the finished
  response only on a failure.\<close>

definition ReleaseDirHandler :: "svc \<Rightarrow> qstate option \<Rightarrow> QuotaParam \<Rightarrow> effects" where
  "ReleaseDirHandler s c param =
     (let eff = startEffects c in
      case authenticate s (Token param) of
        Inl m \<Rightarrow> bodyThenStatus 401 (ErrorText m) eff
      | Inr hostParam \<Rightarrow>
          if AHost hostParam = ''localhost'' then
            (case c of
               None \<Rightarrow> eff\<lparr>answer := FAIL_RES QuotaNotSupport (ParamData param) (answer eff)\<rparr>
             | Some st \<Rightarrow>
                 (case ReleaseDir (callFaults s) st (TargetPath param) of
                    (None, st') \<Rightarrow> eff\<lparr>answer := SUCCESS_RES ''success'' (ParamData param) (answer eff),
                                      control := Some st'\<rparr>
                  | (Some e, st') \<Rightarrow> eff\<lparr>answer := FAIL_RES (QuotaError e) NoData (answer eff),
                                        control := Some st'\<rparr>))
          else (case forwardParam s 0 param of
                  Panic \<Rightarrow> eff\<lparr>panicked := True\<rparr>
                | r \<Rightarrow>
                   (let p = (case r of Ret p \<Rightarrow> p
                             | _ \<Rightarrow> param\<lparr>ParamAuth := \<lparr>AHost = ''localhost'', AExpirationTime = 0\<rparr>, Token := []\<rparr>);
                        url = GetURLByHost s (AHost (ParamAuth param)) @ ''/api/releaseDir'';
                        eff1 = (if Async p > 0 then eff\<lparr>answer := SUCCESS_RES ''request success'' (ParamData p) (answer eff)\<rparr>
                                else eff)
                    in sendOn s url p
                         (if Async p = 0 then bodyThenStatus 400 (FailRes RequestFailed NoData)
                          else (\<lambda>e. e\<lparr>answer := FAIL_RES RequestFailed NoData (answer e)\<rparr>)) eff1)))"

definition SetDirQuotaHandler :: "svc \<Rightarrow> qstate option \<Rightarrow> QuotaParam \<Rightarrow> effects" where
  "SetDirQuotaHandler s c param =
     (let eff = startEffects c in
      case authenticate s (Token param) of
        Inl m \<Rightarrow> bodyThenStatus 401 (ErrorText m) eff
      | Inr hostParam \<Rightarrow>
          if AHost hostParam = ''localhost'' then
            (case c of
               None \<Rightarrow> eff\<lparr>answer := FAIL_RES QuotaNotSupport (ParamData param) (answer eff)\<rparr>
             | Some st \<Rightarrow>
                 (case SetDirQuota (callFaults s) st (TargetPath param) (ParamQuota param) of
                    (None, st') \<Rightarrow> eff\<lparr>answer := SUCCESS_RES ''success'' (ParamData param) (answer eff),
                                      control := Some st'\<rparr>
                  | (Some e, st') \<Rightarrow> eff\<lparr>answer := FAIL_RES (QuotaError e) (ParamData param) (answer eff),
                                        control := Some st'\<rparr>))
          else (case forwardParam s 0 param of
                  Ret p \<Rightarrow> sendOn s (GetURLByHost s (AHost (ParamAuth param)) @ ''/api/setDirQuota'') p
                             (bodyThenStatus 400 (FailRes RequestFailed NoData)) eff
                | _ \<Rightarrow> eff\<lparr>panicked := True\<rparr>))"

definition GetDirQuotaInfoHandler :: "svc \<Rightarrow> qstate option \<Rightarrow> QuotaParam \<Rightarrow> effects" where
  "GetDirQuotaInfoHandler s c param =
     (let eff = startEffects c in
      case authenticate s (Token param) of
        Inl m \<Rightarrow> statusThenBody 401 (ErrorText m) eff
      | Inr hostParam \<Rightarrow>
          if AHost hostParam = ''localhost'' then
            (case c of
               None \<Rightarrow> eff\<lparr>answer := FAIL_RES QuotaNotSupport (ParamData param) (answer eff)\<rparr>
             | Some st \<Rightarrow>
                 (case GetDirQuota (callFaults s) st (TargetPath param) of
                    Inr info \<Rightarrow> eff\<lparr>answer := SUCCESS_RES ''success'' (InfoData info) (answer eff)\<rparr>
                  | Inl e \<Rightarrow> eff\<lparr>answer := FAIL_RES (QuotaError e) NoData (answer eff)\<rparr>))
          else (case forwardParam s (nowMilli s + 1000 * 2) param of
                  Ret p \<Rightarrow> sendOn s (GetURLByHost s (AHost (ParamAuth param)) @ ''/api/getDirQuotaInfo'') p
                             (statusThenBody 400 (FailRes RequestFailed NoData)) eff
                | _ \<Rightarrow> eff\<lparr>panicked := True\<rparr>))"

section \<open>Authentication guards every effect\<close>

lemmas handler_defs = GetImageDiskQuotaInfoHandler_def GetNodeSpaceInfoHandler_def ReleaseDirHandler_def
  SetDirQuotaHandler_def GetDirQuotaInfoHandler_def

lemmas response_defs = startEffects_def emptyResponse_def Write_def WriteHeader_def SUCCESS_RES_def FAIL_RES_def
  statusThenBody_def bodyThenStatus_def

definition handlers :: "(svc \<Rightarrow> qstate option \<Rightarrow> QuotaParam \<Rightarrow> effects) list" where
  "handlers = [GetImageDiskQuotaInfoHandler, GetNodeSpaceInfoHandler, ReleaseDirHandler, SetDirQuotaHandler,
     GetDirQuotaInfoHandler]"

lemma callback_frame [simp]: "control (callback u st b eff) = control eff" "sent (callback u st b eff) = sent eff"
  "answer (callback u st b eff) = answer eff"
  by (simp_all add: callback_def)

lemma sendOn_control:
  "control (failed (eff\<lparr>sent := sent eff @ replicate (fst (retryPost s 0 3 url p)) (url, p)\<rparr>)) = control eff \<Longrightarrow>
   control (sendOn s url p failed eff) = control eff"
  by (auto simp: sendOn_def Let_def split: prod.splits option.splits)

lemma bodyOrder_control [simp]: "control (statusThenBody c b eff) = control eff" "control (bodyThenStatus c b eff) = control eff"
  by (simp_all add: statusThenBody_def bodyThenStatus_def)

lemma forwarded_keeps_control:
  assumes "h \<in> set handlers" and "authenticate s (Token param) = Inr claims" and "AHost claims \<noteq> ''localhost''"
  shows "control (h s c param) = c"
proof -
  have start: "control (startEffects c) = c" by (simp add: startEffects_def)
  show ?thesis
    using assms unfolding handlers_def
    by (auto simp: handler_defs Let_def start sendOn_control split: outcome.splits)
qed

lemma rejected_effects:
  assumes "h \<in> set handlers" and "authenticate s (Token param) = Inl m"
  shows "control (h s c param) = c \<and> sent (h s c param) = [] \<and> callbacks (h s c param) = [] \<and>
    bodies (answer (h s c param)) = [ErrorText m]"
  using assms by (auto simp: handlers_def handler_defs Let_def response_defs)

text \<open>C9: nothing happens without a valid token: for every handler of the quota service, a
  request that changes the quota state carried a token that decrypts, under the node's key, to
  claims for the local node, and a request that is sent on or reported to a callback carried one
  that decrypts to valid claims; any other request only gets the error text.\<close>

theorem quota_effects_need_valid_token:
  assumes "h \<in> set handlers"
  shows "(control (h s c param) \<noteq> c \<longrightarrow> (\<exists>claims. authenticate s (Token param) = Inr claims \<and> AHost claims = ''localhost'')) \<and>
    (sent (h s c param) \<noteq> [] \<or> callbacks (h s c param) \<noteq> [] \<longrightarrow> (\<exists>claims. authenticate s (Token param) = Inr claims)) \<and>
    (\<forall>m. authenticate s (Token param) = Inl m \<longrightarrow> bodies (answer (h s c param)) = [ErrorText m])"
proof (cases "authenticate s (Token param)")
  case (Inl m)
  then show ?thesis using rejected_effects [OF assms Inl, of c] by simp
next
  case (Inr claims)
  then show ?thesis using forwarded_keeps_control [OF assms Inr, of c] by auto
qed

text \<open>A service over a cipher that flips bits, with claims written as one byte.\<close>

definition exampleSvc :: svc where
  "exampleSvc = \<lparr>Enc = (\<lambda>k. map (\<lambda>b. b XOR 5)), Dec = (\<lambda>k. map (\<lambda>b. b XOR 5)), secretKey = replicate 16 7,
     nextIV = replicate 16 1, marshalAuth = (\<lambda>a. if AHost a = ''localhost'' then [1] else [2]),
     unmarshalAuth = (\<lambda>bs. if bs = [1] then Some \<lparr>AHost = ''localhost'', AExpirationTime = 0\<rparr>
        else if bs = [2] then Some \<lparr>AHost = ''node1'', AExpirationTime = 0\<rparr> else None),
     serverPort = 80, post = (\<lambda>_ _ _. Some ''ok''), nowMilli = 5, callFaults = noFaults, sysView = exampleSys,
     dockerClient = False, imageData = (\<lambda>_. None)\<rparr>"

definition exampleParam :: QuotaParam where
  "exampleParam = \<lparr>ParamAuth = \<lparr>AHost = ''node2'', AExpirationTime = 0\<rparr>, Token = ''!'', ImageName = [],
     TargetPath = ''/b/u'', ParamQuota = 1000, CallBackUrl = [], Async = 0\<rparr>"

lemma example_rejected: "authenticate exampleSvc ''!'' = Inl (AuthFailure BadBase64)"
  by code_simp

theorem quota_effects_need_valid_token_witness:
  "bodies (answer (SetDirQuotaHandler exampleSvc (Some exampleState) exampleParam)) = [ErrorText (AuthFailure BadBase64)]"
proof -
  have "SetDirQuotaHandler \<in> set handlers" by (simp add: handlers_def)
  from quota_effects_need_valid_token [OF this, of exampleSvc "Some exampleState" exampleParam]
  show ?thesis using example_rejected by (simp add: exampleParam_def)
qed

text \<open>Three handlers answer a rejected request with status 200: \<open>GetNodeSpaceInfo\<close>,
  \<open>ReleaseDir\<close> and \<open>SetDirQuota\<close> write the error text before the status, so the
  status 401 they set afterwards has no effect; the other two answer 401.\<close>

theorem rejected_status:
  assumes "authenticate s (Token param) = Inl m"
  shows "status (answer (SetDirQuotaHandler s c param)) = Some 200 \<and>
    status (answer (ReleaseDirHandler s c param)) = Some 200 \<and>
    status (answer (GetNodeSpaceInfoHandler s c param)) = Some 200 \<and>
    status (answer (GetDirQuotaInfoHandler s c param)) = Some 401 \<and>
    status (answer (GetImageDiskQuotaInfoHandler s c param)) = Some 401"
  using assms by (simp add: handler_defs Let_def response_defs)

theorem rejected_status_witness:
  "status (answer (SetDirQuotaHandler exampleSvc None exampleParam)) = Some 200"
proof -
  have "authenticate exampleSvc (Token exampleParam) = Inl (AuthFailure BadBase64)"
    using example_rejected by (simp add: exampleParam_def)
  from rejected_status [OF this, of None] show ?thesis by blast
qed

section \<open>Local and forwarded requests\<close>

lemma SetDirQuotaHandler_local:
  assumes "authenticate s (Token param) = Inr claims" and "AHost claims = ''localhost''"
    and "SetDirQuota (callFaults s) st (TargetPath param) (ParamQuota param) = (e, st')"
  shows "SetDirQuotaHandler s (Some st) param =
    (startEffects (Some st'))\<lparr>answer := Write (case e of None \<Rightarrow> SuccessRes ''success'' (ParamData param)
        | Some q \<Rightarrow> FailRes (QuotaError q) (ParamData param)) emptyResponse\<rparr>"
  using assms
  by (auto simp: SetDirQuotaHandler_def Let_def SUCCESS_RES_def FAIL_RES_def startEffects_def split: option.splits)

text \<open>Expired tokens are accepted: a token whose claims name the local node lets a request set
  a quota whatever their expiration time is; no handler of the service consults
  \<open>isExpiration\<close>.\<close>

theorem expired_token_sets_quota:
  assumes "authenticate s (Token param) = Inr claims" and "AHost claims = ''localhost''"
    and "isExpirationAuth (nowMilli s) claims"
    and "SetDirQuota (callFaults s) st (TargetPath param) (ParamQuota param) = (None, st')"
  shows "control (SetDirQuotaHandler s (Some st) param) = Some st' \<and>
    bodies (answer (SetDirQuotaHandler s (Some st) param)) = [SuccessRes ''success'' (ParamData param)]"
  using SetDirQuotaHandler_local [OF assms(1,2,4)] by (simp add: response_defs)

text \<open>Two nodes of one cluster: they share the key, decryption on one inverts encryption on the
  other, and the claims of a forwarded request survive JSON.\<close>

definition sameCluster :: "svc \<Rightarrow> svc \<Rightarrow> int \<Rightarrow> bool" where
  "sameCluster s s' expiry \<longleftrightarrow> keySizeOk (secretKey s) \<and> length (nextIV s) = blockSize \<and> secretKey s' = secretKey s \<and>
     blockCipher (Enc s (secretKey s)) (Dec s' (secretKey s)) \<and>
     unmarshalAuth s' (marshalAuth s \<lparr>AHost = ''localhost'', AExpirationTime = expiry\<rparr>) =
       Some \<lparr>AHost = ''localhost'', AExpirationTime = expiry\<rparr>"

lemma forwardParam_accepted:
  assumes "sameCluster s s' expiry"
  obtains p where "forwardParam s expiry param = Ret p"
    and "p = param\<lparr>ParamAuth := \<lparr>AHost = ''localhost'', AExpirationTime = expiry\<rparr>, Token := Token p\<rparr>"
    and "authenticate s' (Token p) = Inr \<lparr>AHost = ''localhost'', AExpirationTime = expiry\<rparr>"
proof -
  let ?claims = "\<lparr>AHost = ''localhost'', AExpirationTime = expiry\<rparr>"
  obtain t where t: "GeneratorJWTToken (Enc s) (secretKey s) (nextIV s) (marshalAuth s ?claims) = Ret t"
    "AuthJWTToken (Dec s') (secretKey s) t = Ret (marshalAuth s ?claims)"
    using assms generated_token_decrypts [of "secretKey s" "nextIV s" "Enc s" "Dec s'" "marshalAuth s ?claims"]
    by (auto simp: sameCluster_def)
  then have "authenticate s' t = Inr ?claims" using assms by (simp add: authenticate_def sameCluster_def)
  then show ?thesis
    using t that [of "param\<lparr>ParamAuth := ?claims, Token := t\<rparr>"] by (simp add: forwardParam_def Let_def)
qed

text \<open>C8: a request to set a quota takes effect on the node it is sent to: with a token for another
  node, the receiving node sends exactly one request when the first attempt succeeds, to the host
  named in the body (whatever host the token names), and a node of the same cluster that handles
  this request authenticates it as local and performs the quota change with the caller's path and
  size.\<close>

theorem forwarded_quota_request_executes:
  assumes "authenticate s (Token param) = Inr claims" and "AHost claims \<noteq> ''localhost''" and "sameCluster s s' 0"
    and "\<And>url p. post s 0 url p \<noteq> None"
    and "SetDirQuota (callFaults s') st (TargetPath param) (ParamQuota param) = (e, st')"
  shows "\<exists>p. sent (SetDirQuotaHandler s c param) =
        [(GetURLByHost s (AHost (ParamAuth param)) @ ''/api/setDirQuota'', p)] \<and>
      control (SetDirQuotaHandler s' (Some st) p) = Some st' \<and>
      bodies (answer (SetDirQuotaHandler s' (Some st) p)) =
        [case e of None \<Rightarrow> SuccessRes ''success'' (ParamData p) | Some q \<Rightarrow> FailRes (QuotaError q) (ParamData p)]"
proof -
  obtain p where p: "forwardParam s 0 param = Ret p"
    "p = param\<lparr>ParamAuth := \<lparr>AHost = ''localhost'', AExpirationTime = 0\<rparr>, Token := Token p\<rparr>"
    "authenticate s' (Token p) = Inr \<lparr>AHost = ''localhost'', AExpirationTime = 0\<rparr>"
    using forwardParam_accepted [OF assms(3)] by blast
  have same: "TargetPath p = TargetPath param" "ParamQuota p = ParamQuota param"
    by (subst p(2), simp)+
  let ?url = "GetURLByHost s (AHost (ParamAuth param)) @ ''/api/setDirQuota''"
  obtain r where "post s 0 ?url p = Some r" using assms(4) [of ?url p] by auto
  then have "retryPost s 0 3 ?url p = (1, Some r)" by (simp add: numeral_3_eq_3)
  then have "sent (SetDirQuotaHandler s c param) = [(?url, p)]"
    using assms(1,2) p(1) by (simp add: SetDirQuotaHandler_def Let_def sendOn_def startEffects_def)
  moreover have "SetDirQuotaHandler s' (Some st) p =
    (startEffects (Some st'))\<lparr>answer := Write (case e of None \<Rightarrow> SuccessRes ''success'' (ParamData p)
        | Some q \<Rightarrow> FailRes (QuotaError q) (ParamData p)) emptyResponse\<rparr>"
    using SetDirQuotaHandler_local [OF p(3)] assms(5) same by simp
  ultimately show ?thesis by (auto simp: response_defs)
qed

text \<open>Tokens of the example service.\<close>

definition exampleToken :: "byte \<Rightarrow> string" where
  "exampleToken b = (case GeneratorJWTToken (Enc exampleSvc) (secretKey exampleSvc) (nextIV exampleSvc) [b] of
     Ret t \<Rightarrow> t | _ \<Rightarrow> [])"

lemma example_cipher: "blockCipher (Enc exampleSvc k) (Dec exampleSvc k)"
  by (simp add: blockCipher_def exampleSvc_def comp_def xor.assoc)

lemma example_key: "keySizeOk (secretKey exampleSvc)" "length (nextIV exampleSvc) = blockSize"
  by (simp_all add: exampleSvc_def keySizeOk_def blockSize_def)

lemma example_token: "AuthJWTToken (Dec exampleSvc) (secretKey exampleSvc) (exampleToken b) = Ret [b]"
proof -
  obtain t where "GeneratorJWTToken (Enc exampleSvc) (secretKey exampleSvc) (nextIV exampleSvc) [b] = Ret t"
    "AuthJWTToken (Dec exampleSvc) (secretKey exampleSvc) t = Ret [b]"
    using generated_token_decrypts [of "secretKey exampleSvc" "nextIV exampleSvc" "Enc exampleSvc" "Dec exampleSvc" "[b]"]
      example_key example_cipher by blast
  then show ?thesis by (simp add: exampleToken_def)
qed

lemma example_authenticate: "authenticate exampleSvc (exampleToken b) =
    (case unmarshalAuth exampleSvc [b] of None \<Rightarrow> Inl BadClaims | Some p \<Rightarrow> Inr p)"
  by (simp add: authenticate_def example_token)

theorem expired_token_sets_quota_witness:
  "\<exists>st'. control (SetDirQuotaHandler exampleSvc (Some exampleState) (exampleParam\<lparr>Token := exampleToken 1\<rparr>)) = Some st' \<and>
     isExpirationAuth (nowMilli exampleSvc) \<lparr>AHost = ''localhost'', AExpirationTime = 0\<rparr>"
proof -
  let ?p = "exampleParam\<lparr>Token := exampleToken 1\<rparr>" and ?c = "\<lparr>AHost = ''localhost'', AExpirationTime = 0\<rparr>"
  have auth: "authenticate exampleSvc (Token ?p) = Inr ?c"
    using example_authenticate [of 1] by (simp add: exampleSvc_def)
  have exp: "isExpirationAuth (nowMilli exampleSvc) ?c" by (simp add: isExpirationAuth_def exampleSvc_def)
  have "SetDirQuota (callFaults exampleSvc) exampleState (TargetPath ?p) (ParamQuota ?p) =
      (None, snd (SetDirQuota noFaults exampleState ''/b/u'' 1000))"
    using example_set by (simp add: exampleSvc_def exampleParam_def prod_eq_iff)
  from expired_token_sets_quota [OF auth _ exp this] exp show ?thesis by simp
qed

lemma example_cluster: "sameCluster exampleSvc exampleSvc 0"
  using example_cipher example_key by (simp add: sameCluster_def) (simp add: exampleSvc_def)

theorem forwarded_quota_request_executes_witness:
  "\<exists>p st'. sent (SetDirQuotaHandler exampleSvc None (exampleParam\<lparr>Token := exampleToken 2\<rparr>)) =
       [(''http://node2:80/api/setDirQuota'', p)] \<and>
     control (SetDirQuotaHandler exampleSvc (Some exampleState) p) = Some st' \<and>
     bodies (answer (SetDirQuotaHandler exampleSvc (Some exampleState) p)) = [SuccessRes ''success'' (ParamData p)]"
proof -
  let ?p = "exampleParam\<lparr>Token := exampleToken 2\<rparr>"
  have auth: "authenticate exampleSvc (Token ?p) = Inr \<lparr>AHost = ''node1'', AExpirationTime = 0\<rparr>"
    using example_authenticate [of 2] by (simp add: exampleSvc_def)
  have post: "post exampleSvc 0 url p \<noteq> None" for url p by (simp add: exampleSvc_def)
  have url: "GetURLByHost exampleSvc (AHost (ParamAuth ?p)) = ''http://node2:80''" by code_simp
  have set: "SetDirQuota (callFaults exampleSvc) exampleState (TargetPath ?p) (ParamQuota ?p) =
      (None, snd (SetDirQuota noFaults exampleState ''/b/u'' 1000))"
    using example_set by (simp add: exampleSvc_def exampleParam_def prod_eq_iff)
  from forwarded_quota_request_executes [OF auth _ example_cluster post set] url
  show ?thesis by fastforce
qed

end
