(* ===== verification/Log_Config.thy ===== *)
theory Log_Config
  imports Go_Path "HOL-Library.List_Lexorder" "HOL-Library.Char_ord"
begin

text \<open>
  The log declarations of a container, \<open>pilot/pilot.go\<close> (parsing part), \<open>pilot/format.go\<close>,
  \<open>pilot/extension.go\<close> and \<open>pilot/piloter.go\<close>: labels and environment variables of the form
  \<open>cv.logs.NAME\<close> are gathered into a tree of nodes and each child of the root becomes one log
  configuration with its host directory, format and tags. Errors are values; a Go run-time panic
  is the error \<open>LPanic\<close>.
\<close>

datatype lerr =
    LPanic | NotKV string | NoParent string | PathEmpty string | TagsErr string lerr
  | InvalidTopic string | TopicsUnreadable | UnsupportedFormat string | BadProperty string string
  | EmptyPattern | FormatErr string lerr | NotAbsolute string string | NotMounted string string
  | InspectErr | RenderErr | WriteErr string | RemoveConfErr | ConfDirErr | NotStarted

section \<open>The label tree\<close>

datatype LogInfoNode = LogInfoNode (nvalue: string) (children: "(string \<times> LogInfoNode) list")

definition newLogInfoNode :: "string \<Rightarrow> LogInfoNode" where
  "newLogInfoNode v = LogInfoNode v []"

text \<open>\<open>insert\<close> returns the error of the first level only: the one of a recursive call is
  dropped.\<close>

fun insertNode :: "LogInfoNode \<Rightarrow> string list \<Rightarrow> string \<Rightarrow> lerr option \<times> LogInfoNode" where
  "insertNode node [] v = (None, node)"
| "insertNode node [key] v =
     (None, LogInfoNode (nvalue node) (gm_set key (newLogInfoNode v) (children node)))"
| "insertNode node (key # k2 # keys) v =
     (case gm_get (children node) key of
        Some child \<Rightarrow>
          (None, LogInfoNode (nvalue node)
             (gm_set key (snd (insertNode child (k2 # keys) v)) (children node)))
      | None \<Rightarrow> (Some (NoParent key), node))"

definition getNode :: "LogInfoNode \<Rightarrow> string \<Rightarrow> string" where
  "getNode node key = (case gm_get (children node) key of Some child \<Rightarrow> nvalue child | None \<Rightarrow> [])"

section \<open>Formats\<close>

fun convertChildren :: "string \<Rightarrow> string list \<Rightarrow> (string \<times> LogInfoNode) list \<Rightarrow> (string, string) gomap \<Rightarrow>
  lerr + (string, string) gomap" where
  "convertChildren fmt props [] ret = Inr ret"
| "convertChildren fmt props ((k, v) # cs) ret =
     (if k \<notin> set props then Inl (BadProperty k fmt)
      else convertChildren fmt props cs (gm_set k (nvalue v) ret))"

definition simpleConverter :: "string list \<Rightarrow> LogInfoNode \<Rightarrow> lerr + (string, string) gomap" where
  "simpleConverter props info = convertChildren (nvalue info) props (children info) []"

text \<open>The value a Go map of strings gives for a key: the empty string when it is absent.\<close>

definition strGet :: "(string, string) gomap \<Rightarrow> string \<Rightarrow> string" where
  "strGet m k = (case gm_get m k of Some v \<Rightarrow> v | None \<Rightarrow> [])"

definition regexpConverter :: "LogInfoNode \<Rightarrow> lerr + (string, string) gomap" where
  "regexpConverter info =
     (case simpleConverter [''pattern'', ''time_format''] info of
        Inl e \<Rightarrow> Inl e
      | Inr ret \<Rightarrow> if strGet ret ''pattern'' = [] then Inl EmptyPattern else Inr ret)"

text \<open>The registered converters; the second registration of \<open>regexp\<close> replaces the first.\<close>

definition converters :: "(string, LogInfoNode \<Rightarrow> lerr + (string, string) gomap) gomap" where
  "converters = fold (\<lambda>(f, c). gm_set f c)
     [(''nonex'', simpleConverter []),
      (''csv'', simpleConverter [''time_key'', ''time_format'', ''keys'']),
      (''json'', simpleConverter [''time_key'', ''time_format'']),
      (''regexp'', simpleConverter [''time_key'', ''time_format'']),
      (''apache2'', simpleConverter []),
      (''apache_error'', simpleConverter []),
      (''nginx'', simpleConverter []),
      (''regexp'', regexpConverter)] []"

definition Convert :: "LogInfoNode \<Rightarrow> lerr + (string, string) gomap" where
  "Convert info =
     (case gm_get converters (nvalue info) of
        None \<Rightarrow> Inl (UnsupportedFormat (nvalue info))
      | Some converter \<Rightarrow> converter info)"

section \<open>Tags and mounts\<close>

fun parseTagList :: "string list \<Rightarrow> (string, string) gomap \<Rightarrow> lerr + (string, string) gomap" where
  "parseTagList [] m = Inr m"
| "parseTagList (kv # kvs) m =
     (case splitC (CHR ''='') kv of
        [a, b] \<Rightarrow>
          (let key = trimSpace a; val = trimSpace b in
           if key = [] \<or> val = [] then Inl (NotKV kv) else parseTagList kvs (gm_set key val m))
      | _ \<Rightarrow> Inl (NotKV kv))"

definition parseTags :: "string \<Rightarrow> lerr + (string, string) gomap" where
  "parseTags tags = (if tags = [] then Inr [] else parseTagList (splitC (CHR '','') tags) [])"

text \<open>The walk from a directory up to the nearest mount. The code panics when \<open>Rel\<close> fails.\<close>

function hostWalk :: "(string \<Rightarrow> string option) \<Rightarrow> string \<Rightarrow> string \<Rightarrow> lerr + string" where
  "hostWalk mounts confPath p =
     (case mounts p of
        Some src \<Rightarrow>
          if confPath = p then Inr src
          else (case pathRel p confPath of
                  None \<Rightarrow> Inl LPanic
                | Some relPath \<Rightarrow> Inr (src @ ''/'' @ relPath))
      | None \<Rightarrow>
          let q = pathDir p in if q = ''/'' \<or> q = ''.'' then Inr [] else hostWalk mounts confPath q)"
  by pat_completeness auto
termination
  by (relation "measure (\<lambda>(mounts, confPath, p). length p)") (use pathDir_shorter in auto)

declare hostWalk.simps [simp del]

definition hostDirOf :: "(string \<Rightarrow> string option) \<Rightarrow> string \<Rightarrow> lerr + string" where
  "hostDirOf mounts p = hostWalk mounts p p"

section \<open>One log configuration\<close>

record LogConfig =
  Name :: string
  HostDir :: string
  ContainerDir :: string
  Format :: string
  FormatConfig :: "(string, string) gomap"
  File :: string
  Tags :: "(string, string) gomap"
  Target :: string
  EstimateTime :: bool
  Stdout :: bool
  CustomFields :: "(string, string) gomap"
  CustomConfigs :: "(string, string) gomap"

text \<open>The settings of the pilot and of its environment that parsing reads; \<open>kafkaTopics\<close> is
  the topics file: \<open>None\<close> when it does not exist, an error or its content otherwise.\<close>

record pilotEnv =
  pilotType :: string
  pbaseDir :: string
  logPrefix :: "string list"
  createSymlink :: bool
  loggingOutput :: string
  kafkaTopics :: "(unit + string) option"
  nodeName :: string

definition ReadFile :: "unit + string \<Rightarrow> char \<Rightarrow> unit + string list" where
  "ReadFile content sep = (case content of Inl e \<Rightarrow> Inl e | Inr s \<Rightarrow> Inr (splitC sep s))"

definition tryCheckKafkaTopic :: "pilotEnv \<Rightarrow> string \<Rightarrow> lerr option" where
  "tryCheckKafkaTopic env topic =
     (if loggingOutput env \<noteq> ''kafka'' then None
      else case kafkaTopics env of
          None \<Rightarrow> None
        | Some content \<Rightarrow>
            (case ReadFile content (CHR '','') of
               Inl _ \<Rightarrow> Some TopicsUnreadable
             | Inr topics \<Rightarrow> if topic \<in> set topics then None else Some (InvalidTopic topic)))"

definition tagDefault :: "string \<Rightarrow> string \<Rightarrow> string \<Rightarrow> (string, string) gomap \<Rightarrow> (string, string) gomap" where
  "tagDefault key target name m =
     (case gm_get m key of
        Some _ \<Rightarrow> m
      | None \<Rightarrow> gm_set key (if target \<noteq> [] then target else name) m)"

definition chooseFormat :: "LogInfoNode \<Rightarrow> LogInfoNode" where
  "chooseFormat info =
     (case gm_get (children info) ''format'' of
        None \<Rightarrow> newLogInfoNode ''nonex''
      | Some fmt \<Rightarrow> if nvalue fmt = ''none'' then newLogInfoNode ''nonex'' else fmt)"

definition stdoutTimeFormat :: string where
  "stdoutTimeFormat = ''%Y-%m-%dT%H:%M:%S.%NZ''"

definition parseLogConfig ::
  "pilotEnv \<Rightarrow> string \<Rightarrow> LogInfoNode \<Rightarrow> string \<Rightarrow> (string \<Rightarrow> string option) \<Rightarrow> lerr + LogConfig" where
  "parseLogConfig env name info jsonLogPath mounts =
     (let p = trimSpace (nvalue info) in
      if p = [] then Inl (PathEmpty name)
      else case parseTags (getNode info ''tags'') of
        Inl e \<Rightarrow> Inl (TagsErr name e)
      | Inr tags0 \<Rightarrow>
     (let target = getNode info ''target'';
          tagMap = tagDefault ''topic'' target name (tagDefault ''index'' target name tags0)
      in case tryCheckKafkaTopic env (strGet tagMap ''topic'') of
        Some e \<Rightarrow> Inl e
      | None \<Rightarrow>
     (let format = chooseFormat info in
      case Convert format of
        Inl e \<Rightarrow> Inl (FormatErr name e)
      | Inr conf0 \<Rightarrow>
     (let isRe = (nvalue format = ''regexp'');
          fmtValue = (if isRe then ''/'' @ strGet conf0 ''pattern'' @ ''/'' else nvalue format);
          formatConfig = (if isRe then gm_delete ''pattern'' conf0 else conf0)
      in if p = ''stdout'' then
           Inr \<lparr>Name = name, HostDir = pathJoin [pbaseDir env, pathDir jsonLogPath], ContainerDir = [],
                Format = fmtValue, FormatConfig = [(''time_format'', stdoutTimeFormat)],
                File = (if pilotType env = ''filebeat'' then pathBase jsonLogPath @ ''*'' else pathBase jsonLogPath),
                Tags = tagMap, Target = target, EstimateTime = False, Stdout = True,
                CustomFields = [], CustomConfigs = []\<rparr>
         else if \<not> isAbs p then Inl (NotAbsolute p name)
         else case hostDirOf mounts (pathDir p) of
           Inl e \<Rightarrow> Inl e
         | Inr hostDir \<Rightarrow>
             if hostDir = [] then Inl (NotMounted name p)
             else let est = (strGet formatConfig ''time_key'' = [])
                  in Inr \<lparr>Name = name, HostDir = pathJoin [pbaseDir env, hostDir], ContainerDir = pathDir p,
                       Format = fmtValue,
                       FormatConfig = (if est then gm_set ''time_key'' ''time'' formatConfig else formatConfig),
                       File = pathBase p, Tags = tagMap, Target = target, EstimateTime = est, Stdout = False,
                       CustomFields = [], CustomConfigs = []\<rparr>))))"

section \<open>All configurations of a container\<close>

record MountPoint =
  Type :: string
  MName :: string
  Source :: string
  Destination :: string

definition mountsMap :: "MountPoint list \<Rightarrow> string \<Rightarrow> string option" where
  "mountsMap mounts = fold (\<lambda>m f. f(Destination m \<mapsto> Source m)) mounts Map.empty"

fun customEntries :: "string list \<Rightarrow> (string, string) gomap \<Rightarrow> lerr + (string, string) gomap" where
  "customEntries [] m = Inr m"
| "customEntries (c # cs) m =
     (if c = [] then customEntries cs m
      else case splitN2 (CHR ''='') c of
          [k, v] \<Rightarrow> customEntries cs (gm_set k v m)
        | _ \<Rightarrow> Inl LPanic)"

text \<open>One label under one prefix; the state is the tree and the custom configuration.\<close>

type_synonym gather = "LogInfoNode \<times> (string, string) gomap"

definition gatherLabel :: "string \<Rightarrow> string \<Rightarrow> string \<Rightarrow> gather \<Rightarrow> lerr + gather" where
  "gatherLabel pre k v s =
     (if pre @ ''_logs_custom_config'' = k then
        (case customEntries (splitC (CHR '';'') v) (snd s) of
           Inl e \<Rightarrow> Inl e
         | Inr m \<Rightarrow> Inr (fst s, m))
      else let serviceLogs = pre @ ''.logs.'' in
        if \<not> hasPrefix k serviceLogs \<or> count_list k (CHR ''.'') = 1 then Inr s
        else case insertNode (fst s) (splitC (CHR ''.'') (trimPrefix k serviceLogs)) v of
            (Some e, _) \<Rightarrow> Inl e
          | (None, root) \<Rightarrow> Inr (root, snd s))"

fun gatherAll :: "(string \<times> string \<times> string) list \<Rightarrow> gather \<Rightarrow> lerr + gather" where
  "gatherAll [] s = Inr s"
| "gatherAll ((k, pre, v) # rest) s =
     (case gatherLabel pre k v s of Inl e \<Rightarrow> Inl e | Inr s' \<Rightarrow> gatherAll rest s')"

fun customSplit :: "string \<Rightarrow> (string, string) gomap \<Rightarrow>
  (string, string) gomap \<times> (string, string) gomap \<Rightarrow> (string, string) gomap \<times> (string, string) gomap" where
  "customSplit name [] fc = fc"
| "customSplit name ((k, v) # cs) (flds, configs) =
     (if hasPrefix k name then
        let key = trimPrefix k (name @ ''.'') in
        if hasPrefix key ''fields'' then customSplit name cs (gm_set (trimPrefix key ''fields.'') v flds, configs)
        else customSplit name cs (flds, gm_set key v configs)
      else customSplit name cs (flds, configs))"

definition CustomConfig :: "pilotEnv \<Rightarrow> string \<Rightarrow> (string, string) gomap \<Rightarrow> LogConfig \<Rightarrow> LogConfig" where
  "CustomConfig env name customConfigs lc =
     (if pilotType env = ''filebeat'' then
        let (flds, configs) = customSplit name customConfigs ([], [])
        in lc\<lparr>CustomFields := flds, CustomConfigs := configs\<rparr>
      else lc)"

fun configsOf :: "pilotEnv \<Rightarrow> string \<Rightarrow> (string \<Rightarrow> string option) \<Rightarrow> (string, string) gomap \<Rightarrow>
  (string \<times> LogInfoNode) list \<Rightarrow> lerr + LogConfig list" where
  "configsOf env jsonLogPath mounts custom [] = Inr []"
| "configsOf env jsonLogPath mounts custom ((name, node) # rest) =
     (case parseLogConfig env name node jsonLogPath mounts of
        Inl e \<Rightarrow> Inl e
      | Inr lc \<Rightarrow>
          (case configsOf env jsonLogPath mounts custom rest of
             Inl e \<Rightarrow> Inl e
           | Inr lcs \<Rightarrow> Inr (CustomConfig env name custom lc # lcs)))"

definition labelWork :: "string list \<Rightarrow> (string, string) gomap \<Rightarrow> (string \<times> string \<times> string) list" where
  "labelWork prefixes labels =
     concat (map (\<lambda>k. map (\<lambda>pre. (k, pre, strGet labels k)) prefixes) (sort (map fst labels)))"

definition getLogConfigs ::
  "pilotEnv \<Rightarrow> string \<Rightarrow> MountPoint list \<Rightarrow> (string, string) gomap \<Rightarrow> lerr + LogConfig list" where
  "getLogConfigs env jsonLogPath mounts labels =
     (case gatherAll (labelWork (logPrefix env) labels) (newLogInfoNode [], []) of
        Inl e \<Rightarrow> Inl e
      | Inr (root, custom) \<Rightarrow> configsOf env jsonLogPath (mountsMap mounts) custom (children root))"

section \<open>The nearest mount\<close>

lemma dropCommon_append: "dropCommon as (as @ bs) = ([], bs)"
  by (induction as) simp_all

lemma pathRel_absPath:
  "\<forall>c \<in> set (as @ bs). properComp c \<Longrightarrow> bs \<noteq> [] \<Longrightarrow>
   pathRel (absPath as) (absPath (as @ bs)) = Some (joinC slash bs)"
  using cleanComps_absPath [of as] cleanComps_absPath [of "as @ bs"]
  by (simp add: pathRel_def Let_def dropCommon_append)

text \<open>The answer when the nearest mount is at depth \<open>k\<close>.\<close>

definition mountAnswer :: "string list \<Rightarrow> nat \<Rightarrow> string \<Rightarrow> string" where
  "mountAnswer cs k src = (if k = length cs then src else src @ ''/'' @ joinC slash (drop k cs))"

lemma hostWalk_nearest:
  assumes "\<forall>c \<in> set cs. properComp c" and "1 \<le> n" and "n \<le> length cs"
    and "\<forall>j. n < j \<and> j \<le> length cs \<longrightarrow> mounts (absPath (take j cs)) = None"
  shows "(\<exists>k src. 1 \<le> k \<and> k \<le> length cs \<and> mounts (absPath (take k cs)) = Some src \<and>
            (\<forall>j. k < j \<and> j \<le> length cs \<longrightarrow> mounts (absPath (take j cs)) = None) \<and>
            hostWalk mounts (absPath cs) (absPath (take n cs)) = Inr (mountAnswer cs k src)) \<or>
         (\<forall>j. 1 \<le> j \<and> j \<le> length cs \<longrightarrow> mounts (absPath (take j cs)) = None) \<and>
            hostWalk mounts (absPath cs) (absPath (take n cs)) = Inr []"
  using assms
proof (induction n rule: less_induct)
  case (less n)
  let ?p = "absPath (take n cs)"
  have proper: "\<forall>c \<in> set (take n cs). properComp c" using less.prems(1) by (meson in_set_takeD)
  show ?case
  proof (cases "mounts ?p")
    case (Some src)
    have "absPath cs = ?p \<longleftrightarrow> n = length cs"
      using cleanComps_absPath [OF less.prems(1)] cleanComps_absPath [OF proper] less.prems(3)
      by (metis length_take min.absorb2 order_refl take_all)
    moreover have "n \<noteq> length cs \<Longrightarrow> pathRel ?p (absPath cs) = Some (joinC slash (drop n cs))"
      using pathRel_absPath [of "take n cs" "drop n cs"] less.prems by simp
    ultimately have "hostWalk mounts (absPath cs) ?p = Inr (mountAnswer cs n src)"
      using Some by (simp add: hostWalk.simps mountAnswer_def)
    then show ?thesis using Some less.prems by blast
  next
    case None
    obtain m where n: "n = Suc m" using less.prems(2) by (cases n) auto
    then have snoc: "take n cs = take m cs @ [cs ! m]" using less.prems(3) by (simp add: take_Suc_conv_app_nth)
    then have dir: "pathDir ?p = absPath (take m cs)"
      using proper pathDir_absPath [of "take m cs" "cs ! m"] by simp
    have none: "\<forall>j. m < j \<and> j \<le> length cs \<longrightarrow> mounts (absPath (take j cs)) = None"
      using less.prems(4) None n by (metis Suc_leI le_neq_implies_less)
    show ?thesis
    proof (cases "m = 0")
      case True
      then have "hostWalk mounts (absPath cs) ?p = Inr []"
        using None dir by (simp add: hostWalk.simps absPath_def)
      then show ?thesis using none True by simp
    next
      case False
      have "take m cs \<noteq> []" using False less.prems(3) n by auto
      moreover have "\<forall>c \<in> set (take m cs). properComp c" using less.prems(1) by (meson in_set_takeD)
      ultimately have "absPath (take m cs) \<noteq> ''/'' \<and> absPath (take m cs) \<noteq> ''.''"
        using cleanComps_absPath [of "take m cs"] by (auto simp: absPath_def cleanComps_def isAbs_def)
      then have "hostWalk mounts (absPath cs) ?p = hostWalk mounts (absPath cs) (absPath (take m cs))"
        using None dir by (simp add: hostWalk.simps [of _ _ ?p] Let_def)
      then show ?thesis using less.IH [of m] False n less.prems none by simp
    qed
  qed
qed

text \<open>The host directory of a log is that of the nearest mount: for a clean absolute
  directory below the root, \<open>hostDirOf\<close> never panics and answers with the source of the
  deepest mounted ancestor (the directory itself included) followed by the remaining components,
  or with the empty string when neither the directory nor an ancestor below the root is
  mounted.\<close>

theorem hostDirOf_nearest_mount:
  assumes "\<forall>c \<in> set cs. properComp c" and "cs \<noteq> []"
  shows "(\<exists>k src. 1 \<le> k \<and> k \<le> length cs \<and> mounts (absPath (take k cs)) = Some src \<and>
            (\<forall>j. k < j \<and> j \<le> length cs \<longrightarrow> mounts (absPath (take j cs)) = None) \<and>
            hostDirOf mounts (absPath cs) =
              Inr (if k = length cs then src else src @ ''/'' @ joinC slash (drop k cs))) \<or>
         (\<forall>j. 1 \<le> j \<and> j \<le> length cs \<longrightarrow> mounts (absPath (take j cs)) = None) \<and>
            hostDirOf mounts (absPath cs) = Inr []"
proof -
  have "1 \<le> length cs" using assms(2) by (cases cs) auto
  moreover have "\<forall>j. length cs < j \<and> j \<le> length cs \<longrightarrow> mounts (absPath (take j cs)) = None" by auto
  ultimately show ?thesis
    using hostWalk_nearest [OF assms(1) _ order_refl, of mounts]
    unfolding hostDirOf_def mountAnswer_def take_all [OF order_refl] by blast
qed

theorem hostDirOf_nearest_mount_witness:
  "hostDirOf [''/var'' \<mapsto> ''/h1'', ''/var/log'' \<mapsto> ''/h2''] ''/var/log/app'' = Inr ''/h2/app''"
proof -
  let ?m = "[''/var'' \<mapsto> ''/h1'', ''/var/log'' \<mapsto> ''/h2'']" and ?cs = "[''var'', ''log'', ''app'']"
  have path: "absPath ?cs = ''/var/log/app''" "absPath (take 1 ?cs) = ''/var''" "absPath (take 2 ?cs) = ''/var/log''"
    "absPath (take 3 ?cs) = ''/var/log/app''" by (simp_all add: absPath_def)
  have ks: "1 \<le> k \<and> k \<le> length ?cs \<longleftrightarrow> k = 1 \<or> k = 2 \<or> k = (3 :: nat)" for k by auto
  have "\<forall>c \<in> set ?cs. properComp c" by (simp add: properComp_def)
  from hostDirOf_nearest_mount [OF this, of ?m] obtain k src where k: "1 \<le> k \<and> k \<le> length ?cs"
    "?m (absPath (take k ?cs)) = Some src"
    "\<forall>j. k < j \<and> j \<le> length ?cs \<longrightarrow> ?m (absPath (take j ?cs)) = None"
    "hostDirOf ?m (absPath ?cs) = Inr (if k = length ?cs then src else src @ ''/'' @ joinC slash (drop k ?cs))"
    using path(2) by (force simp: ks)
  have "k = 2"
  proof (rule ccontr)
    assume "k \<noteq> 2"
    then have "k = 1 \<or> k = 3" using k(1) ks by blast
    then show False
    proof
      assume "k = 1"
      then show False using spec [OF k(3), of 2] path(3) by simp
    next
      assume "k = 3"
      then show False using k(2) path(4) by simp
    qed
  qed
  then show ?thesis using k(2,4) path by simp
qed

section \<open>Tags\<close>

text \<open>A tag as it is written, and what makes its sides survive the parser.\<close>

definition tagText :: "string \<times> string \<Rightarrow> string" where
  "tagText kv = fst kv @ ''='' @ snd kv"

definition tagSide :: "string \<Rightarrow> bool" where
  "tagSide s \<longleftrightarrow> s \<noteq> [] \<and> CHR ''='' \<notin> set s \<and> CHR '','' \<notin> set s \<and> trimSpace s = s"

lemma parseTagList_text:
  "\<forall>kv \<in> set kvs. tagSide (fst kv) \<and> tagSide (snd kv) \<Longrightarrow>
   parseTagList (map tagText kvs) m = Inr (fold (\<lambda>(k, v). gm_set k v) kvs m)"
proof (induction kvs arbitrary: m)
  case (Cons kv kvs)
  obtain k v where kv: "kv = (k, v)" by (cases kv)
  have side: "tagSide k" "tagSide v" using Cons.prems by (simp_all add: kv)
  then have "splitC (CHR ''='') (tagText kv) = [k, v]"
    by (simp add: kv tagText_def tagSide_def splitC_append splitC_single)
  then show ?case using Cons side by (simp add: kv tagSide_def)
qed simp

lemma fold_gm_set:
  "gm_get (fold (\<lambda>(k, v). gm_set k v) kvs m) = gm_get m ++ gm_get (rev kvs)"
  by (induction kvs arbitrary: m) (auto simp: map_add_def fun_eq_iff split: option.splits)

text \<open>Tags are read as they are written: a non-empty list of tags with distinct keys, whose
  sides are non-empty and trimmed and hold neither a comma nor an equals sign, printed as
  \<open>k=v\<close> joined with commas, is parsed back into exactly that map.\<close>

theorem parseTags_round_trip:
  assumes "\<forall>kv \<in> set kvs. tagSide (fst kv) \<and> tagSide (snd kv)" and "distinct (map fst kvs)" and "kvs \<noteq> []"
  shows "\<exists>m. parseTags (joinC (CHR '','') (map tagText kvs)) = Inr m \<and> gm_get m = gm_get kvs"
proof -
  have "CHR '','' \<notin> set (tagText kv)" if "kv \<in> set kvs" for kv
    using assms(1) that by (auto simp: tagText_def tagSide_def)
  then have split: "splitC (CHR '','') (joinC (CHR '','') (map tagText kvs)) = map tagText kvs"
    using assms(3) by (simp add: splitC_join)
  have "joinC (CHR '','') (map tagText kvs) \<noteq> []"
  proof
    assume "joinC (CHR '','') (map tagText kvs) = []"
    then have "map tagText kvs = [[]]" using split by simp
    then show False using assms(3) by (auto simp: tagText_def)
  qed
  then show ?thesis
    using assms split parseTagList_text [of kvs "[]"] fold_gm_set [of kvs "[]"]
    by (simp add: parseTags_def map_of_rev_distinct)
qed

theorem parseTags_round_trip_witness:
  "\<exists>m. parseTags ''a=1,b=2'' = Inr m \<and> gm_get m = [''a'' \<mapsto> ''1'', ''b'' \<mapsto> ''2'']"
proof -
  have "tagSide ''a'' \<and> tagSide ''1'' \<and> tagSide ''b'' \<and> tagSide ''2''" by code_simp
  moreover have "joinC (CHR '','') (map tagText [(''a'', ''1''), (''b'', ''2'')]) = ''a=1,b=2''" by code_simp
  ultimately show ?thesis
    using parseTags_round_trip [of "[(''a'', ''1''), (''b'', ''2'')]"] by (auto simp: fun_eq_iff)
qed

section \<open>Gathering the labels\<close>

abbreviation dot :: char where "dot \<equiv> CHR ''.''"

abbreviation logKey :: "string \<Rightarrow> string \<Rightarrow> string" where
  "logKey pre s \<equiv> pre @ ''.logs.'' @ s"

lemma append_less: "(xs :: string) < xs @ y # ys"
  by (induction xs) simp_all

lemma insertNode_single:
  "insertNode node [a] v = (None, n') \<Longrightarrow>
   map_option nvalue (gm_get (children n') b) = (if b = a then Some v else map_option nvalue (gm_get (children node) b))"
  by (auto simp: newLogInfoNode_def)

lemma nvalue_insertNode [simp]: "nvalue (snd (insertNode node keys v)) = nvalue node"
  by (cases "(node, keys, v)" rule: insertNode.cases) (auto split: option.splits)

lemma insertNode_deep:
  assumes "gm_get (children node) a \<noteq> None"
  shows "fst (insertNode node (a # k # ks) v) = None \<and>
    map_option nvalue (gm_get (children (snd (insertNode node (a # k # ks) v))) b) =
      map_option nvalue (gm_get (children node) b)"
  using assms by auto

lemma count_logKey: "count_list (logKey pre s) dot \<noteq> 1"
  by simp

text \<open>The values at the first level of the tree.\<close>

definition topValues :: "LogInfoNode \<Rightarrow> string \<Rightarrow> string option" where
  "topValues root a = map_option nvalue (gm_get (children root) a)"

lemma gatherLabel_top:
  "dot \<notin> set a \<Longrightarrow> \<exists>root'. gatherLabel pre (logKey pre a) v (root, cs) = Inr (root', cs) \<and>
     topValues root' = (topValues root)(a \<mapsto> v)"
  using count_logKey [of pre a] trimPrefix_append [of "pre @ ''.logs.''" a]
  by (auto simp: gatherLabel_def Let_def splitC_single topValues_def newLogInfoNode_def fun_eq_iff hasPrefix_iff
      split: if_splits)

lemma gatherLabel_deep:
  assumes "dot \<notin> set a" and "topValues root a \<noteq> None"
  shows "\<exists>root'. gatherLabel pre (logKey pre (a @ dot # r)) v (root, cs) = Inr (root', cs) \<and>
     topValues root' = topValues root"
proof -
  obtain k ks where ks: "splitC dot r = k # ks" by (cases "splitC dot r") auto
  then have "splitC dot (a @ dot # r) = a # k # ks" using assms(1) by (simp add: splitC_append)
  moreover obtain root' where root': "insertNode root (a # k # ks) v = (None, root')" "topValues root' = topValues root"
    using insertNode_deep [of root a k ks v] assms(2)
    by (cases "insertNode root (a # k # ks) v") (auto simp: topValues_def fun_eq_iff)
  ultimately show ?thesis
    using count_logKey [of pre "a @ dot # r"] trimPrefix_append [of "pre @ ''.logs.''" "a @ dot # r"]
    by (simp add: gatherLabel_def Let_def hasPrefix_iff)
qed

lemma gatherLabel_other:
  "\<not> hasPrefix k (pre @ ''.logs.'') \<Longrightarrow> k \<noteq> pre @ ''_logs_custom_config'' \<Longrightarrow> gatherLabel pre k v s = Inr s"
  by (auto simp: gatherLabel_def Let_def)

text \<open>Every nested label has its log declared under the same prefix.\<close>

definition parentsDeclared :: "string \<Rightarrow> string set \<Rightarrow> bool" where
  "parentsDeclared pre keys \<longleftrightarrow>
     (\<forall>a r. dot \<notin> set a \<and> logKey pre (a @ dot # r) \<in> keys \<longrightarrow> logKey pre a \<in> keys)"

lemma log_key_cases:
  assumes "hasPrefix k (pre @ ''.logs.'')"
  obtains (top_level) a where "k = logKey pre a" "dot \<notin> set a"
    | (nested) a r where "k = logKey pre (a @ dot # r)" "dot \<notin> set a"
proof -
  obtain s where s: "k = logKey pre s" using assms by (auto simp: hasPrefix_iff)
  show ?thesis
  proof (cases "dot \<in> set s")
    case True
    then obtain a r where "s = a @ dot # r" "dot \<notin> set a" by (meson split_list_first)
    then show ?thesis using nested s by blast
  qed (use top_level s in blast)
qed

text \<open>The first level of the tree after the keys \<open>D\<close> were handled.\<close>

definition topMatches :: "string \<Rightarrow> (string \<Rightarrow> string) \<Rightarrow> string set \<Rightarrow> LogInfoNode \<Rightarrow> bool" where
  "topMatches pre val D root \<longleftrightarrow> (\<forall>a. dot \<notin> set a \<longrightarrow>
     topValues root a = (if logKey pre a \<in> D then Some (val (logKey pre a)) else None))"

lemma gatherLabel_step:
  assumes "topMatches pre val D root" and "k \<noteq> pre @ ''_logs_custom_config''"
    and "\<And>a r. k = logKey pre (a @ dot # r) \<Longrightarrow> dot \<notin> set a \<Longrightarrow> logKey pre a \<in> D"
  shows "\<exists>root'. gatherLabel pre k (val k) (root, cs) = Inr (root', cs) \<and> topMatches pre val (insert k D) root'"
proof (cases "hasPrefix k (pre @ ''.logs.'')")
  case True
  then show ?thesis
  proof (cases rule: log_key_cases)
    case (top_level a)
    then show ?thesis
      using gatherLabel_top [of a pre "val k" root cs] assms(1) by (auto simp: topMatches_def)
  next
    case (nested a r)
    then have "topValues root a \<noteq> None" using assms(1,3) by (auto simp: topMatches_def)
    then obtain root' where "gatherLabel pre k (val k) (root, cs) = Inr (root', cs)" "topValues root' = topValues root"
      using gatherLabel_deep [of a root pre r "val k" cs] nested by blast
    moreover have "logKey pre b \<noteq> k" if "dot \<notin> set b" for b using that nested by auto
    ultimately show ?thesis using assms(1) by (auto simp: topMatches_def)
  qed
next
  case False
  then have "logKey pre b \<noteq> k" for b by (auto simp: hasPrefix_iff)
  then show ?thesis using gatherLabel_other [OF False assms(2)] assms(1) by (auto simp: topMatches_def)
qed

lemma gatherAll_sorted:
  assumes "sorted ks" and "topMatches pre val D root" and "parentsDeclared pre (D \<union> set ks)"
    and "pre @ ''_logs_custom_config'' \<notin> set ks"
  shows "\<exists>root'. gatherAll (map (\<lambda>k. (k, pre, val k)) ks) (root, cs) = Inr (root', cs) \<and>
    topMatches pre val (D \<union> set ks) root'"
  using assms
proof (induction ks arbitrary: D root)
  case (Cons k ks)
  have "logKey pre a \<in> D" if "k = logKey pre (a @ dot # r)" "dot \<notin> set a" for a r
  proof -
    have "logKey pre a < k" using that append_less [of "logKey pre a" dot r] by simp
    moreover have "logKey pre a \<in> D \<union> set (k # ks)" using Cons.prems(3) that by (auto simp: parentsDeclared_def)
    ultimately show ?thesis using Cons.prems(1) by auto
  qed
  then obtain root' where root': "gatherLabel pre k (val k) (root, cs) = Inr (root', cs)" "topMatches pre val (insert k D) root'"
    using gatherLabel_step [OF Cons.prems(2), of k cs] Cons.prems(4) by auto
  have "insert k D \<union> set ks = D \<union> set (k # ks)" by simp
  then show ?case
    using Cons.IH [OF _ root'(2)] Cons.prems root'(1) by (simp del: Un_insert_left Un_insert_right)
qed simp

lemma labelWork_single: "labelWork [pre] labels = map (\<lambda>k. (k, pre, strGet labels k)) (sort (map fst labels))"
  by (simp add: labelWork_def concat_map_singleton)

text \<open>C4: every declared log is gathered, whatever the order of the labels: when each nested
  label \<open>cv.logs.a.x\<close> has its log \<open>cv.logs.a\<close> declared and there is no custom
  configuration label, gathering succeeds, and the children of the root are exactly the names
  \<open>a\<close> of the labels \<open>cv.logs.a\<close>, each with the label's value. (Sorting puts a parent
  before its children.)\<close>

theorem declared_logs_gathered:
  assumes "parentsDeclared pre (set (map fst labels))" and "pre @ ''_logs_custom_config'' \<notin> set (map fst labels)"
  shows "\<exists>root. gatherAll (labelWork [pre] labels) (newLogInfoNode [], []) = Inr (root, []) \<and>
    (\<forall>a. dot \<notin> set a \<longrightarrow> map_option nvalue (gm_get (children root) a) = gm_get labels (pre @ ''.logs.'' @ a))"
proof -
  have "topMatches pre (strGet labels) {} (newLogInfoNode [])"
    by (simp add: topMatches_def topValues_def newLogInfoNode_def)
  then obtain root where root: "gatherAll (labelWork [pre] labels) (newLogInfoNode [], []) = Inr (root, [])"
    "topMatches pre (strGet labels) (set (map fst labels)) root"
    using gatherAll_sorted [of "sort (map fst labels)" pre "strGet labels" "{}" "newLogInfoNode []" "[]"] assms
    by (auto simp: labelWork_single)
  have "map_option nvalue (gm_get (children root) a) = gm_get labels (logKey pre a)" if "dot \<notin> set a" for a
  proof (cases "gm_get labels (logKey pre a)")
    case None
    then have "logKey pre a \<notin> set (map fst labels)" by (simp add: map_of_eq_None_iff)
    then show ?thesis using root(2) that None by (simp add: topMatches_def topValues_def)
  next
    case (Some v)
    then have "logKey pre a \<in> set (map fst labels)" by (metis domI dom_map_of_conv_image_fst list.set_map)
    then show ?thesis using root(2) that Some by (simp add: topMatches_def topValues_def strGet_def)
  qed
  then show ?thesis using root(1) by blast
qed

theorem declared_logs_gathered_witness:
  "\<exists>root. gatherAll (labelWork [''cv''] [(''cv.logs.a.tags'', ''x=y''), (''cv.logs.a'', ''/l/a.log'')])
      (newLogInfoNode [], []) = Inr (root, []) \<and>
    map_option nvalue (gm_get (children root) ''a'') = Some ''/l/a.log''"
proof -
  let ?labels = "[(''cv.logs.a.tags'', ''x=y''), (''cv.logs.a'', ''/l/a.log'')]"
  have "parentsDeclared ''cv'' (set (map fst ?labels))"
  proof -
    have "a = ''a''" if "a @ dot # r = ''a.tags''" "dot \<notin> set a" for a r
    proof -
      have "splitC dot (a @ dot # r) = a # splitC dot r" using that(2) by (rule splitC_append)
      moreover have "splitC dot ''a.tags'' = [''a'', ''tags'']" by simp
      ultimately show ?thesis using that(1) by simp
    qed
    moreover have "a @ dot # r \<noteq> ''a''" for a r by (cases a) auto
    ultimately show ?thesis by (auto simp: parentsDeclared_def)
  qed
  moreover have "''cv'' @ ''_logs_custom_config'' \<notin> set (map fst ?labels)" by simp
  ultimately obtain root where root: "gatherAll (labelWork [''cv''] ?labels) (newLogInfoNode [], []) = Inr (root, [])"
    "\<forall>a. dot \<notin> set a \<longrightarrow> map_option nvalue (gm_get (children root) a) = gm_get ?labels (''cv'' @ ''.logs.'' @ a)"
    using declared_logs_gathered [of "''cv''" ?labels] by blast
  have "map_option nvalue (gm_get (children root) ''a'') = gm_get ?labels (''cv'' @ ''.logs.'' @ ''a'')"
    using root(2) by (rule allE [where x = "''a''"]) simp
  then show ?thesis using root(1) by simp
qed

section \<open>What an accepted declaration gives\<close>

lemma tagDefault_present: "gm_get (tagDefault key t n m) key \<noteq> None"
  by (auto simp: tagDefault_def split: option.splits)

lemma tagDefault_keeps: "gm_get m k = Some v \<Longrightarrow> gm_get (tagDefault key t n m) k = Some v"
  by (auto simp: tagDefault_def split: option.splits)

lemma tagDefault_value:
  "gm_get m key = None \<Longrightarrow> gm_get (tagDefault key t n m) key = Some (if t \<noteq> [] then t else n)"
  by (simp add: tagDefault_def)

lemma parseLogConfig_tags:
  assumes "parseLogConfig env name info jl mounts = Inr c"
  obtains tags0 where "parseTags (getNode info ''tags'') = Inr tags0"
    and "Tags c = tagDefault ''topic'' (getNode info ''target'') name (tagDefault ''index'' (getNode info ''target'') name tags0)"
    and "tryCheckKafkaTopic env (strGet (Tags c) ''topic'') = None"
  using assms
  by (auto simp: parseLogConfig_def Let_def split: if_splits sum.splits option.splits)

lemma parseLogConfig_files:
  assumes "parseLogConfig env name info jl mounts = Inr c" and "\<not> Stdout c"
  shows "isAbs (trimSpace (nvalue info)) \<and> ContainerDir c = pathDir (trimSpace (nvalue info)) \<and>
    File c = pathBase (trimSpace (nvalue info)) \<and> strGet (FormatConfig c) ''time_key'' \<noteq> [] \<and>
    (\<exists>h. hostDirOf mounts (ContainerDir c) = Inr h \<and> h \<noteq> [] \<and> HostDir c = pathJoin [pbaseDir env, h])"
  using assms
  by (auto simp: parseLogConfig_def Let_def strGet_def split: if_splits sum.splits option.splits)


definition exampleEnv :: pilotEnv where
  "exampleEnv = \<lparr>pilotType = ''filebeat'', pbaseDir = ''/host'', logPrefix = [''cv''], createSymlink = False,
     loggingOutput = [], kafkaTopics = None, nodeName = []\<rparr>"

definition exampleNode :: LogInfoNode where
  "exampleNode = LogInfoNode '' /l/a.log '' [(''format'', newLogInfoNode ''json'')]"

lemma example_hostDirOf: "hostDirOf [''/l'' \<mapsto> ''/h''] ''/l'' = Inr ''/h''"
  by (simp add: hostDirOf_def hostWalk.simps)

lemma example_parse:
  "\<exists>c. parseLogConfig exampleEnv ''a'' exampleNode [] [''/l'' \<mapsto> ''/h''] = Inr c \<and> \<not> Stdout c"
proof -
  have facts: "trimSpace '' /l/a.log '' = ''/l/a.log''" "pathDir ''/l/a.log'' = ''/l''" "isAbs ''/l/a.log''" by code_simp+
  have conv: "Convert (LogInfoNode ''json'' []) = Inr []" by code_simp
  have tags: "parseTags [] = Inr []" by (simp add: parseTags_def)
  show ?thesis
    by (simp add: parseLogConfig_def Let_def exampleNode_def exampleEnv_def getNode_def chooseFormat_def
        newLogInfoNode_def tryCheckKafkaTopic_def facts conv tags example_hostDirOf)
qed


section \<open>Custom configuration\<close>

lemma customEntries_panic:
  "c \<in> set cs \<Longrightarrow> c \<noteq> [] \<Longrightarrow> CHR ''='' \<notin> set c \<Longrightarrow> customEntries cs m = Inl LPanic"
proof (induction cs arbitrary: m)
  case (Cons d cs)
  show ?case
  proof (cases "d = []")
    case True
    then show ?thesis using Cons by auto
  next
    case False
    show ?thesis
    proof (cases "CHR ''='' \<in> set d")
      case True
      then obtain k v where "splitN2 (CHR ''='') d = [k, v]" by (simp add: splitN2_def)
      then show ?thesis using Cons False True by auto
    next
      case False
      then show ?thesis using \<open>d \<noteq> []\<close> by (simp add: splitN2_not_found)
    qed
  qed
qed simp

text \<open>A container can crash the pilot: a custom configuration with a non-empty entry that
  has no equals sign (\<open>cv_logs_custom_config=abc\<close> in the environment is enough) makes
  \<open>getLogConfigs\<close> index past the end of the split entry, a run-time panic that nothing on the
  path from the event loop recovers.\<close>

theorem malformed_custom_config_panics:
  assumes "logPrefix env = [pre]" and "c \<in> set (splitC (CHR '';'') v)" and "c \<noteq> []" and "CHR ''='' \<notin> set c"
  shows "getLogConfigs env jl mounts [(pre @ ''_logs_custom_config'', v)] = Inl LPanic"
  using customEntries_panic [OF assms(2-4)] assms(1)
  by (simp add: getLogConfigs_def labelWork_single strGet_def gatherLabel_def)

theorem malformed_custom_config_panics_witness:
  "getLogConfigs exampleEnv [] [] [(''cv'' @ ''_logs_custom_config'', ''a.x=1;abc'')] = Inl LPanic"
proof -
  have "logPrefix exampleEnv = [''cv'']" by (simp add: exampleEnv_def)
  moreover have "''abc'' \<in> set (splitC (CHR '';'') ''a.x=1;abc'')" by simp
  ultimately show ?thesis using malformed_custom_config_panics [of exampleEnv "''cv''" "''abc''" "''a.x=1;abc''"] by simp
qed

text \<open>A setting of one log reaches another whose name is a prefix of it: with Filebeat, the
  custom entry \<open>app2.key\<close> meant for the log \<open>app2\<close> is also added to the configuration
  of the log \<open>app\<close>, under its full key, because the name is matched as a bare prefix without
  the dot that ends it.\<close>

theorem custom_config_reaches_longer_name:
  assumes "pilotType env = ''filebeat''" and "x \<noteq> dot" and "\<not> hasPrefix (name @ x # rest) ''fields''"
  shows "CustomConfigs (CustomConfig env name [(name @ x # rest, v)] c) = [(name @ x # rest, v)]"
proof -
  have "\<not> hasPrefix (name @ x # rest) (name @ ''.'')" using assms(2) by (simp add: hasPrefix_def)
  then have "trimPrefix (name @ x # rest) (name @ ''.'') = name @ x # rest" by (simp add: trimPrefix_def)
  then show ?thesis using assms by (simp add: CustomConfig_def Let_def)
qed

theorem custom_config_reaches_longer_name_witness:
  "\<exists>c. CustomConfigs (CustomConfig exampleEnv ''app'' [(''app2.multiline'', ''1'')] c) = [(''app2.multiline'', ''1'')]"
proof -
  have "pilotType exampleEnv = ''filebeat''" by (simp add: exampleEnv_def)
  then show ?thesis using custom_config_reaches_longer_name [of exampleEnv "CHR ''2''" "''app''" "''.multiline''" "''1''"] by simp
qed

end
