(* ===== verification/Filebeat.thy ===== *)
theory Filebeat
  imports Log_Config
begin

text \<open>
  The two collectors behind the \<open>Piloter\<close> interface, \<open>pilot/filebeat_piloter.go\<close> and
  \<open>pilot/fluentd_piloter.go\<close>: where each keeps the configuration of a container, and
  Filebeat's watcher, which removes the configuration of a dead container once its logs have
  been read. The directory of configurations is an association list from paths to contents; the
  YAML reader, the glob and the sizes of log files are parameters.
\<close>

section \<open>The Piloter interface\<close>

definition FILEBEAT_CONF_DIR :: string where "FILEBEAT_CONF_DIR = ''/config/filebeat/prospectors.d''"
definition FLUENTD_CONF_DIR :: string where "FLUENTD_CONF_DIR = ''/etc/fluentd/conf.d''"

definition fbGetConfPath :: "string \<Rightarrow> string" where
  "fbGetConfPath container = FILEBEAT_CONF_DIR @ ''/'' @ container @ ''.yml''"

definition fdGetConfPath :: "string \<Rightarrow> string" where
  "fdGetConfPath container = FLUENTD_CONF_DIR @ ''/'' @ container @ ''.conf''"

type_synonym confdir = "(string, string) gomap"

text \<open>What the pilot relies on: one configuration path per container, in the collector's
  directory.\<close>

locale piloter =
  fixes getConfPath :: "string \<Rightarrow> string" and confHome :: string
  assumes conf_inj: "getConfPath a = getConfPath b \<longleftrightarrow> a = b"
    and conf_home: "hasPrefix (getConfPath a) (confHome @ ''/'')"
begin

lemma write_conf:
  "gm_get (gm_set (getConfPath a) t fs) (getConfPath b) = (if a = b then Some t else gm_get fs (getConfPath b))"
  by (auto simp: conf_inj)

lemma remove_conf:
  "gm_get (gm_delete (getConfPath a) fs) (getConfPath b) = (if a = b then None else gm_get fs (getConfPath b))"
  by (auto simp: conf_inj)

end

interpretation fb: piloter fbGetConfPath FILEBEAT_CONF_DIR
  by unfold_locales (simp_all add: fbGetConfPath_def hasPrefix_def)

interpretation fd: piloter fdGetConfPath FLUENTD_CONF_DIR
  by unfold_locales (simp_all add: fdGetConfPath_def hasPrefix_def)

section \<open>Filebeat's watcher\<close>

record RegistryState =
  Source :: string
  Offset :: int

datatype fstat = StatNotExist | StatError | StatSize int

text \<open>The outside of the watcher: the YAML reader (\<open>None\<close> on an error), the glob, the sizes
  of files, removals that fail, the base directory, and the decoded registry.\<close>

record watchEnv =
  loadYaml :: "string \<Rightarrow> string list option"
  globFiles :: "string \<Rightarrow> string list"
  statOf :: "string \<Rightarrow> fstat"
  confRemoveFails :: "string \<Rightarrow> bool"
  fbBaseDir :: string
  registryStates :: "RegistryState list option"

definition loadConfig :: "watchEnv \<Rightarrow> confdir \<Rightarrow> string \<Rightarrow> string list option" where
  "loadConfig env confs container =
     (case gm_get confs (fbGetConfPath container) of None \<Rightarrow> None | Some content \<Rightarrow> loadYaml env content)"

text \<open>The first state of each source is kept.\<close>

definition getRegsitryState :: "watchEnv \<Rightarrow> (string \<Rightarrow> RegistryState option) option" where
  "getRegsitryState env =
     map_option (\<lambda>states. fold (\<lambda>s m. if m (Source s) = None then m(Source s \<mapsto> s) else m) states Map.empty)
       (registryStates env)"

text \<open>The patterns are anchored prefixes followed by anything but a line break; base directories
  hold no character that is special in a regular expression.\<close>

definition prefixPattern :: "string \<Rightarrow> string \<Rightarrow> bool" where
  "prefixPattern dir p \<longleftrightarrow> hasPrefix p dir \<and> CHR 0x0A \<notin> set (drop (length dir) p)"

definition isAutoMountPath :: "watchEnv \<Rightarrow> string \<Rightarrow> bool" where
  "isAutoMountPath env p \<longleftrightarrow>
     prefixPattern (pathJoin [fbBaseDir env, ''/var/lib/docker/'']) p \<or>
     prefixPattern (pathJoin [fbBaseDir env, ''/var/lib/kubelet/'']) p"

text \<open>The files of one path: \<open>Inr True\<close> when none holds the removal back. A file that cannot be
  examined for another reason than absence has no size to read, a nil dereference.\<close>

fun filesDone :: "watchEnv \<Rightarrow> (string \<Rightarrow> RegistryState option) \<Rightarrow> bool \<Rightarrow> bool \<Rightarrow> string list \<Rightarrow> lerr + bool" where
  "filesDone env registry autoMount shared [] = Inr True"
| "filesDone env registry autoMount shared (f # fs) =
     (if statOf env f = StatNotExist then filesDone env registry autoMount shared fs
      else case registry f of
        None \<Rightarrow> filesDone env registry autoMount shared fs
      | Some st \<Rightarrow>
          (case statOf env f of
             StatSize n \<Rightarrow>
               if Offset st < n \<and> (autoMount \<or> \<not> shared) then Inr False
               else filesDone env registry autoMount shared fs
           | _ \<Rightarrow> Inl LPanic))"

fun pathsDone :: "watchEnv \<Rightarrow> (string \<Rightarrow> RegistryState option) \<Rightarrow> (string \<Rightarrow> string option) \<Rightarrow> string list \<Rightarrow>
  lerr + bool" where
  "pathsDone env registry configPaths [] = Inr True"
| "pathsDone env registry configPaths (p # ps) =
     (case filesDone env registry (isAutoMountPath env (pathDir p)) (configPaths p \<noteq> None) (globFiles env p) of
        Inr True \<Rightarrow> pathsDone env registry configPaths ps
      | r \<Rightarrow> r)"

definition canRemoveConf :: "watchEnv \<Rightarrow> confdir \<Rightarrow> string \<Rightarrow> (string \<Rightarrow> RegistryState option) \<Rightarrow>
  (string \<Rightarrow> string option) \<Rightarrow> lerr + bool" where
  "canRemoveConf env confs container registry configPaths =
     (case loadConfig env confs container of
        None \<Rightarrow> Inr False
      | Some ps \<Rightarrow> pathsDone env registry configPaths ps)"

text \<open>The names in the configuration directory, in order.\<close>

definition confNames :: "confdir \<Rightarrow> string list" where
  "confNames confs =
     sort (map (\<lambda>p. drop (length FILEBEAT_CONF_DIR + 1) p)
       (filter (\<lambda>p. hasPrefix p (FILEBEAT_CONF_DIR @ ''/'')) (map fst confs)))"

definition addPaths :: "string \<Rightarrow> string list \<Rightarrow> (string \<Rightarrow> string option) \<Rightarrow> string \<Rightarrow> string option" where
  "addPaths container ps m = fold (\<lambda>p m. if m p = None then m(p \<mapsto> container) else m) ps m"

text \<open>The container's name is cut off with \<open>TrimRight\<close>, which strips a set of characters.\<close>

definition loadConfigPaths :: "watchEnv \<Rightarrow> (string, string) gomap \<Rightarrow> confdir \<Rightarrow> string \<Rightarrow> string option" where
  "loadConfigPaths env watched confs =
     fold (\<lambda>name m.
       let container = trimRight name ''.yml'' in
       if gm_get watched container \<noteq> None then m
       else case loadConfig env confs container of
           None \<Rightarrow> m
         | Some ps \<Rightarrow> addPaths container ps m) (confNames confs) Map.empty"

type_synonym watchstate = "(string, string) gomap \<times> confdir"

fun scanLoop :: "watchEnv \<Rightarrow> (string \<Rightarrow> RegistryState option) \<Rightarrow> (string \<Rightarrow> string option) \<Rightarrow> string list \<Rightarrow>
  watchstate \<Rightarrow> lerr + watchstate" where
  "scanLoop env registry configPaths [] s = Inr s"
| "scanLoop env registry configPaths (container # rest) (watched, confs) =
     (let confPath = fbGetConfPath container in
      if gm_get confs confPath = None
      then scanLoop env registry configPaths rest (gm_delete container watched, confs)
      else case canRemoveConf env confs container registry configPaths of
        Inl e \<Rightarrow> Inl e
      | Inr False \<Rightarrow> scanLoop env registry configPaths rest (watched, confs)
      | Inr True \<Rightarrow>
          if confRemoveFails env confPath then scanLoop env registry configPaths rest (watched, confs)
          else scanLoop env registry configPaths rest (gm_delete container watched, gm_delete confPath confs))"

definition fbScan :: "watchEnv \<Rightarrow> watchstate \<Rightarrow> lerr + watchstate" where
  "fbScan env s =
     (case getRegsitryState env of
        None \<Rightarrow> Inr s
      | Some states \<Rightarrow> scanLoop env states (loadConfigPaths env (fst s) (snd s)) (map fst (fst s)) s)"

definition feed :: "string \<Rightarrow> (string, string) gomap \<Rightarrow> (string, string) gomap" where
  "feed containerID watched =
     (if gm_get watched containerID = None then gm_set containerID containerID watched else watched)"

section \<open>The collector processes\<close>

text \<open>\<open>Start\<close> of either collector: a running process is an error; otherwise a process is
  started together with a goroutine that waits for it and starts it again, and, for Filebeat, with
  a watcher. When the command cannot be started Filebeat's goroutine dereferences the missing
  process.\<close>

record proc =
  running :: bool
  watchers :: nat
  crashed :: bool

datatype startres = Started | AlreadyStarted | StartFailed

definition fbStart :: "bool \<Rightarrow> proc \<Rightarrow> startres \<times> proc" where
  "fbStart startOk pr =
     (if running pr then (AlreadyStarted, pr)
      else (if startOk then Started else StartFailed,
            pr\<lparr>running := True, watchers := watchers pr + 1, crashed := crashed pr \<or> \<not> startOk\<rparr>))"

text \<open>The process ends: the waiting goroutine forgets it and starts the next one.\<close>

definition fbExit :: "bool \<Rightarrow> proc \<Rightarrow> proc" where
  "fbExit startOk pr = (if running pr then snd (fbStart startOk (pr\<lparr>running := False\<rparr>)) else pr)"

text \<open>\<open>Stop\<close> hands one token to one watcher; without one it blocks.\<close>

definition fbStop :: "proc \<Rightarrow> proc option" where
  "fbStop pr = (if watchers pr = 0 then None else Some (pr\<lparr>watchers := watchers pr - 1\<rparr>))"

definition fdWorker :: "string \<Rightarrow> bool \<Rightarrow> string" where
  "fdWorker worker isNumber = (if worker = [] \<or> \<not> isNumber then ''1'' else worker)"

definition fdStart :: "bool \<Rightarrow> proc \<Rightarrow> startres \<times> proc" where
  "fdStart startOk pr =
     (if running pr then (AlreadyStarted, pr)
      else (if startOk then Started else StartFailed, pr\<lparr>running := True\<rparr>))"

text \<open>\<open>Reload\<close> of Fluentd: a hang-up signal, and a kill of the worker if it is still the same
  one five seconds later; the result is the worker to be killed.\<close>

definition fdReload :: "proc \<Rightarrow> string \<Rightarrow> string \<Rightarrow> lerr + string option" where
  "fdReload pr childId afterChildId =
     (if \<not> running pr then Inl NotStarted
      else Inr (if childId = afterChildId then Some childId else None))"

section \<open>A configuration is removed only when its logs are read\<close>

text \<open>A file that does not hold back the removal of a configuration that lists it.\<close>

definition fileSettled :: "watchEnv \<Rightarrow> (string \<Rightarrow> RegistryState option) \<Rightarrow> bool \<Rightarrow> string \<Rightarrow> bool" where
  "fileSettled env registry elsewhere f \<longleftrightarrow>
     statOf env f = StatNotExist \<or> registry f = None \<or>
     (\<exists>st n. registry f = Some st \<and> statOf env f = StatSize n \<and> (n \<le> Offset st \<or> elsewhere))"

lemma filesDone_settled:
  "filesDone env registry autoMount shared fs = Inr True \<Longrightarrow> f \<in> set fs \<Longrightarrow>
   fileSettled env registry (\<not> autoMount \<and> shared) f"
  by (induction fs) (auto simp: fileSettled_def split: if_splits option.splits fstat.splits)

lemma pathsDone_settled:
  "pathsDone env registry configPaths ps = Inr True \<Longrightarrow> p \<in> set ps \<Longrightarrow> f \<in> set (globFiles env p) \<Longrightarrow>
   fileSettled env registry (\<not> isAutoMountPath env (pathDir p) \<and> configPaths p \<noteq> None) f"
proof (induction ps)
  case (Cons q ps)
  then have first: "filesDone env registry (isAutoMountPath env (pathDir q)) (configPaths q \<noteq> None) (globFiles env q) = Inr True"
    and rest: "pathsDone env registry configPaths ps = Inr True"
    by (auto split: sum.splits bool.splits)
  show ?case
    using Cons.IH [OF rest] Cons.prems(2,3) filesDone_settled [OF first] by auto
qed simp

lemma canRemoveConf_local:
  "gm_get confs (fbGetConfPath c) = gm_get confs' (fbGetConfPath c) \<Longrightarrow>
   canRemoveConf env confs c registry cp = canRemoveConf env confs' c registry cp"
  by (simp add: canRemoveConf_def loadConfig_def)

lemma scanLoop_removes:
  "scanLoop env registry cp cs (w, confs) = Inr (w', confs') \<Longrightarrow>
   gm_get confs' q = gm_get confs q \<or>
   (\<exists>c \<in> set cs. q = fbGetConfPath c \<and> gm_get confs' q = None \<and> canRemoveConf env confs c registry cp = Inr True)"
proof (induction cs arbitrary: w confs)
  case (Cons c cs)
  let ?p = "fbGetConfPath c"
  show ?case
  proof (cases "gm_get confs ?p \<noteq> None \<and> canRemoveConf env confs c registry cp = Inr True \<and> \<not> confRemoveFails env ?p")
    case False
    then obtain v where "scanLoop env registry cp cs (v, confs) = Inr (w', confs')"
      using Cons.prems by (auto simp: Let_def split: if_splits sum.splits bool.splits)
    then show ?thesis using Cons.IH by auto
  next
    case True
    then have run: "scanLoop env registry cp cs (gm_delete c w, gm_delete ?p confs) = Inr (w', confs')"
      using Cons.prems by (auto simp: Let_def)
    show ?thesis
    proof (cases "q = ?p")
      case True
      then show ?thesis using Cons.IH [OF run] \<open>_ \<and> _\<close> by auto
    next
      case False
      then have "gm_get (gm_delete ?p confs) q = gm_get confs q" by auto
      then show ?thesis using Cons.IH [OF run] canRemoveConf_local [of "gm_delete ?p confs" _ confs] False by force
    qed
  qed
qed simp

lemma addPaths_Some: "addPaths c ps m p = Some d \<Longrightarrow> m p = Some d \<or> (d = c \<and> p \<in> set ps)"
  unfolding addPaths_def
  by (induction ps arbitrary: m) (fastforce split: if_splits)+

definition listedBy :: "watchEnv \<Rightarrow> (string, string) gomap \<Rightarrow> confdir \<Rightarrow> string \<Rightarrow> string \<Rightarrow> bool" where
  "listedBy env watched confs p c \<longleftrightarrow>
     gm_get watched c = None \<and> (\<exists>ps. loadConfig env confs c = Some ps \<and> p \<in> set ps)"

lemma loadConfigPaths_Some:
  assumes "loadConfigPaths env watched confs p = Some d"
  shows "listedBy env watched confs p d"
proof -
  let ?step = "\<lambda>name m. let container = trimRight name ''.yml'' in
     if gm_get watched container \<noteq> None then m
     else case loadConfig env confs container of None \<Rightarrow> m | Some ps \<Rightarrow> addPaths container ps m"
  have "fold ?step names m p = Some d \<Longrightarrow> m p = Some d \<or> listedBy env watched confs p d" for names m
    by (induction names arbitrary: m)
      (fastforce simp: Let_def listedBy_def dest: addPaths_Some split: if_splits option.splits)+
  from this [of "confNames confs" Map.empty] assms show ?thesis by (simp add: loadConfigPaths_def)
qed


text \<open>One dead container whose only log has been read to its end.\<close>

definition readEnv :: watchEnv where
  "readEnv = \<lparr>loadYaml = (\<lambda>_. Some [''/h/a.log'']), globFiles = (\<lambda>p. [p]), statOf = (\<lambda>_. StatSize 5),
     confRemoveFails = (\<lambda>_. False), fbBaseDir = ''/host'',
     registryStates = Some [\<lparr>Source = ''/h/a.log'', Offset = 5\<rparr>]\<rparr>"

lemma readEnv_registry: "getRegsitryState readEnv = Some [''/h/a.log'' \<mapsto> \<lparr>Source = ''/h/a.log'', Offset = 5\<rparr>]"
  by (simp add: getRegsitryState_def readEnv_def)

lemma readEnv_canRemove:
  "gm_get confs (fbGetConfPath c) \<noteq> None \<Longrightarrow>
   canRemoveConf readEnv confs c [''/h/a.log'' \<mapsto> \<lparr>Source = ''/h/a.log'', Offset = 5\<rparr>] cp = Inr True"
  by (auto simp: canRemoveConf_def loadConfig_def readEnv_def)

lemma readEnv_scan:
  "gm_get confs (fbGetConfPath c) \<noteq> None \<Longrightarrow> fbScan readEnv ([(c, c)], confs) = Inr ([], gm_delete (fbGetConfPath c) confs)"
  using readEnv_canRemove [of confs c] by (auto simp: fbScan_def readEnv_registry Let_def) (simp_all add: readEnv_def)


section \<open>Watchers\<close>

text \<open>Each restart of Filebeat leaves one more watcher behind: after the first start and
  \<open>n\<close> exits of the process, \<open>n + 1\<close> watcher goroutines run over the one unprotected map of
  watched containers, and a \<open>Stop\<close> ends only one of them.\<close>

theorem restarts_accumulate_watchers:
  "let pr = (fbExit True ^^ n) (snd (fbStart True \<lparr>running = False, watchers = 0, crashed = False\<rparr>))
   in watchers pr = n + 1 \<and> running pr \<and> map_option watchers (fbStop pr) = Some n"
proof -
  let ?pr = "\<lambda>n. (fbExit True ^^ n) (snd (fbStart True \<lparr>running = False, watchers = 0, crashed = False\<rparr>))"
  have "watchers (?pr n) = n + 1 \<and> running (?pr n)"
    by (induction n) (simp_all add: fbStart_def fbExit_def)
  then show ?thesis by (simp add: Let_def fbStop_def)
qed

end
