(* ===== verification/Pilot_Events.thy ===== *)
theory Pilot_Events
  imports Filebeat
begin

text \<open>
  The pilot proper, \<open>pilot/pilot.go\<close>: what happens when containers start and die. The state
  holds the directory of configurations, Filebeat's watched containers, the timers that will
  remove a Fluentd configuration, the volume links made for containers and whether the reload
  goroutine is waiting. The template engine and the container engine are parameters.
\<close>

section \<open>State\<close>

record ContainerJSON =
  ID :: string
  CName :: string
  LogPath :: string
  Env :: "string list"
  Labels :: "(string, string) gomap"
  Mounts :: "MountPoint list"

record pilotState =
  confs :: confdir
  watched :: "(string, string) gomap"
  cleaners :: "string list"
  linkDirs :: "string list"
  links :: "(string, string) gomap"
  reloaderWaiting :: bool
  reloads :: nat

text \<open>The world around the pilot: rendering of the template (\<open>None\<close> on an error), writes that
  fail, inspection of containers and volumes (name and mount point), directories that cannot be
  made, and the output variables.\<close>

record pilotWorld =
  render :: "string \<Rightarrow> (string, string) gomap \<Rightarrow> LogConfig list \<Rightarrow> string \<Rightarrow> string option"
  confWriteFails :: "string \<Rightarrow> bool"
  inspect :: "string \<Rightarrow> ContainerJSON option"
  inspectVolume :: "string \<Rightarrow> (string \<times> string) option"
  linkDirFails :: "string \<Rightarrow> bool"
  fluentdOutput :: string
  filebeatOutput :: string

definition GetConfPath :: "pilotEnv \<Rightarrow> string \<Rightarrow> string" where
  "GetConfPath env = (if pilotType env = ''filebeat'' then fbGetConfPath else fdGetConfPath)"

definition GetConfHome :: "pilotEnv \<Rightarrow> string" where
  "GetConfHome env = (if pilotType env = ''filebeat'' then FILEBEAT_CONF_DIR else FLUENTD_CONF_DIR)"

section \<open>Describing a container\<close>

definition putIfNotEmpty :: "string \<Rightarrow> string \<Rightarrow> (string, string) gomap \<Rightarrow> (string, string) gomap" where
  "putIfNotEmpty key val store = (if key = [] \<or> val = [] then store else gm_set key val store)"

fun extension :: "(string \<times> string) list \<Rightarrow> (string, string) gomap \<Rightarrow> (string, string) gomap" where
  "extension [] c = c"
| "extension ((name, val) # labels) c =
     extension labels
       (if hasPrefix name ''com.aliyun.access.'' then putIfNotEmpty (replaceC dot (CHR ''_'') name) val c else c)"

definition container :: "pilotEnv \<Rightarrow> ContainerJSON \<Rightarrow> (string, string) gomap" where
  "container env cj =
     (let lab = strGet (Labels cj) in
      extension (Labels cj)
       (putIfNotEmpty ''docker_container'' (trimPrefix (CName cj) ''/'')
       (putIfNotEmpty ''k8s_node_name'' (nodeName env)
       (putIfNotEmpty ''k8s_container_name'' (lab ''io.kubernetes.container.name'')
       (putIfNotEmpty ''k8s_pod_namespace'' (lab ''io.kubernetes.pod.namespace'')
       (putIfNotEmpty ''k8s_pod'' (lab ''io.kubernetes.pod.name'')
       (putIfNotEmpty ''docker_service'' (lab ''com.docker.swarm.service.name'')
       (putIfNotEmpty ''docker_service'' (lab ''com.docker.compose.service'')
       (putIfNotEmpty ''docker_app'' (lab ''com.docker.stack.namespace'')
       (putIfNotEmpty ''docker_app'' (lab ''com.docker.compose.project'') []))))))))))"

text \<open>One environment entry under one prefix; slicing past the end of an entry that is nothing
  but the name of the custom configuration panics.\<close>

definition applyEnv1 :: "string \<Rightarrow> string \<Rightarrow> (string, string) gomap \<Rightarrow> lerr + (string, string) gomap" where
  "applyEnv1 pre e labels =
     (let customConfig = pre @ ''_logs_custom_config'' in
      if hasPrefix e customConfig then
        (if length e < length customConfig + 1 then Inl LPanic
         else Inr (gm_set customConfig (drop (length customConfig + 1) e) labels))
      else if \<not> hasPrefix e (pre @ ''_logs_'') then Inr labels
      else case splitN2 (CHR ''='') e of
          [k, v] \<Rightarrow> Inr (gm_set (replaceC (CHR ''_'') dot k) v labels)
        | _ \<Rightarrow> Inr labels)"

fun applyEnv :: "(string \<times> string) list \<Rightarrow> (string, string) gomap \<Rightarrow> lerr + (string, string) gomap" where
  "applyEnv [] labels = Inr labels"
| "applyEnv ((e, pre) # rest) labels =
     (case applyEnv1 pre e labels of Inl err \<Rightarrow> Inl err | Inr labels' \<Rightarrow> applyEnv rest labels')"

definition envWork :: "string list \<Rightarrow> string list \<Rightarrow> (string \<times> string) list" where
  "envWork prefixes es = concat (map (\<lambda>e. map (\<lambda>pre. (e, pre)) prefixes) es)"

definition skipped :: "string list \<Rightarrow> (string, string) gomap \<Rightarrow> bool" where
  "skipped prefixes labels \<longleftrightarrow>
     list_ex (\<lambda>pre. let v = strGet labels (pre @ ''_log_skip'') in v = ''1'' \<or> v = ''true'') prefixes"

section \<open>Volume links\<close>

definition linkBaseDir :: "pilotEnv \<Rightarrow> string" where
  "linkBaseDir env = pathJoin [pbaseDir env, ''/acs/log/'']"

text \<open>The volumes of a container: the first volume that names a mount point wins.\<close>

fun volumeLinks :: "pilotWorld \<Rightarrow> string \<Rightarrow> MountPoint list \<Rightarrow> (string, string) gomap \<Rightarrow> (string, string) gomap" where
  "volumeLinks w dir [] symlinks = symlinks"
| "volumeLinks w dir (m # ms) symlinks =
     (if Type m \<noteq> ''volume'' then volumeLinks w dir ms symlinks
      else case inspectVolume w (MName m) of
          None \<Rightarrow> volumeLinks w dir ms symlinks
        | Some (name, mountpoint) \<Rightarrow>
            volumeLinks w dir ms
              (if gm_get symlinks mountpoint = None then gm_set mountpoint (pathJoin [dir, name]) symlinks
               else symlinks))"

text \<open>An existing link is left as it is.\<close>

definition makeLink :: "string \<times> string \<Rightarrow> (string, string) gomap \<Rightarrow> (string, string) gomap" where
  "makeLink ml ls = (case ml of (mountpoint, symlink) \<Rightarrow>
     if gm_get ls symlink = None then gm_set symlink mountpoint ls else ls)"

definition createVolumeSymlink :: "pilotEnv \<Rightarrow> pilotWorld \<Rightarrow> ContainerJSON \<Rightarrow> pilotState \<Rightarrow> pilotState" where
  "createVolumeSymlink env w cj st =
     (if \<not> createSymlink env then st
      else let info = container env cj;
               dir = pathJoin [linkBaseDir env, strGet info ''docker_app'', strGet info ''docker_service'', ID cj];
               symlinks = volumeLinks w dir (Mounts cj) []
           in if symlinks = [] then st
              else if dir \<notin> set (linkDirs st) \<and> linkDirFails w dir then st
              else st\<lparr>linkDirs := (if dir \<in> set (linkDirs st) then linkDirs st else dir # linkDirs st),
                      links := fold makeLink symlinks (links st)\<rparr>)"

text \<open>The third component below the base directory, on which both the listing and the glob
  \<open>*/*/id\<close> work.\<close>

definition thirdBelow :: "string \<Rightarrow> string \<Rightarrow> string option" where
  "thirdBelow base p =
     (let b = cleanComps base; cs = cleanComps p
      in if length b + 3 \<le> length cs \<and> take (length b) cs = b then Some (cs ! (length b + 2)) else None)"

definition removeVolumeSymlink :: "pilotEnv \<Rightarrow> string \<Rightarrow> pilotState \<Rightarrow> pilotState" where
  "removeVolumeSymlink env containerId st =
     (if \<not> createSymlink env then st
      else st\<lparr>linkDirs := filter (\<lambda>d. thirdBelow (linkBaseDir env) d \<noteq> Some containerId) (linkDirs st),
              links := filter (\<lambda>l. thirdBelow (linkBaseDir env) (fst l) \<noteq> Some containerId) (links st)\<rparr>)"

definition listAllSymlinkContainer :: "pilotEnv \<Rightarrow> pilotState \<Rightarrow> string list" where
  "listAllSymlinkContainer env st = remdups (List.map_filter (thirdBelow (linkBaseDir env)) (linkDirs st))"

definition processSymlink :: "pilotEnv \<Rightarrow> string list \<Rightarrow> pilotState \<Rightarrow> pilotState" where
  "processSymlink env existing st =
     fold (\<lambda>c st. if c \<in> set existing then st else removeVolumeSymlink env c st) (listAllSymlinkContainer env st) st"

section \<open>Events\<close>

definition tryReload :: "pilotState \<Rightarrow> pilotState" where
  "tryReload st = (if reloaderWaiting st then st\<lparr>reloaderWaiting := False\<rparr> else st)"

text \<open>The reload goroutine, once it holds a request: it reloads and waits for the next one.\<close>

definition doReload :: "pilotState \<Rightarrow> pilotState" where
  "doReload st = (if reloaderWaiting st then st else st\<lparr>reloaderWaiting := True, reloads := reloads st + 1\<rparr>)"

definition renderOutput :: "pilotEnv \<Rightarrow> pilotWorld \<Rightarrow> string" where
  "renderOutput env w =
     (let o1 = (if pilotType env = ''filebeat'' then filebeatOutput w else fluentdOutput w)
      in if o1 = [] then loggingOutput env else o1)"

text \<open>\<open>Pilot.render\<close>: the template over the container, its log configurations and the output.\<close>

definition renderTempl ::
  "pilotEnv \<Rightarrow> pilotWorld \<Rightarrow> string \<Rightarrow> (string, string) gomap \<Rightarrow> LogConfig list \<Rightarrow> string option" where
  "renderTempl env w containerId c configList = render w containerId c configList (renderOutput env w)"

declare renderTempl_def [simp]

definition existsConf :: "pilotEnv \<Rightarrow> string \<Rightarrow> pilotState \<Rightarrow> bool" where
  "existsConf env containId st \<longleftrightarrow> gm_get (confs st) (GetConfPath env containId) \<noteq> None"

definition newContainer :: "pilotEnv \<Rightarrow> pilotWorld \<Rightarrow> ContainerJSON \<Rightarrow> pilotState \<Rightarrow> lerr option \<times> pilotState" where
  "newContainer env w cj st =
     (let c = container env cj in
      case applyEnv (envWork (logPrefix env) (Env cj)) (Labels cj) of
        Inl e \<Rightarrow> (Some e, st)
      | Inr labels \<Rightarrow>
     (case getLogConfigs env (LogPath cj) (Mounts cj) labels of
        Inl e \<Rightarrow> (Some e, st)
      | Inr logConfigs \<Rightarrow>
          if skipped (logPrefix env) labels then (None, st)
          else if logConfigs = [] then (None, st)
          else let st1 = createVolumeSymlink env w (cj\<lparr>Labels := labels\<rparr>) st in
            (case renderTempl env w (ID cj) c logConfigs of
               None \<Rightarrow> (Some RenderErr, st1)
             | Some content \<Rightarrow>
                 if confWriteFails w (GetConfPath env (ID cj)) then (Some (WriteErr (ID cj)), st1)
                 else (None, tryReload (st1\<lparr>confs := gm_set (GetConfPath env (ID cj)) content (confs st1)\<rparr>)))))"

definition OnDestroyEvent :: "pilotEnv \<Rightarrow> string \<Rightarrow> (string, string) gomap \<Rightarrow> (string, string) gomap" where
  "OnDestroyEvent env cid ws = (if pilotType env = ''fluentd'' then ws else feed cid ws)"

text \<open>A dead container: Fluentd's configuration is removed by a timer fifteen minutes later,
  Filebeat's by its watcher.\<close>

definition delContainer :: "pilotEnv \<Rightarrow> string \<Rightarrow> pilotState \<Rightarrow> pilotState" where
  "delContainer env cid st =
     (let st1 = removeVolumeSymlink env cid st in
      if pilotType env = ''fluentd'' then st1\<lparr>cleaners := cid # cleaners st1\<rparr>
      else st1\<lparr>watched := OnDestroyEvent env cid (watched st1)\<rparr>)"

definition cleanFires :: "pilotEnv \<Rightarrow> string \<Rightarrow> pilotState \<Rightarrow> pilotState" where
  "cleanFires env cid st =
     (if cid \<notin> set (cleaners st) then st
      else let st1 = st\<lparr>cleaners := remove1 cid (cleaners st)\<rparr> in
        if existsConf env cid st1
        then tryReload (st1\<lparr>confs := gm_delete (GetConfPath env cid) (confs st1)\<rparr>)
        else st1)"

definition processEvent :: "pilotEnv \<Rightarrow> pilotWorld \<Rightarrow> string \<Rightarrow> string \<Rightarrow> pilotState \<Rightarrow> lerr option \<times> pilotState" where
  "processEvent env w action cid st =
     (if action = ''start'' \<or> action = ''restart'' then
        if existsConf env cid st then (None, st)
        else case inspect w cid of
            None \<Rightarrow> (Some InspectErr, st)
          | Some cj \<Rightarrow> newContainer env w cj st
      else if action = ''destroy'' \<or> action = ''die'' then (None, delContainer env cid st)
      else (None, st))"

text \<open>Start-up: the configurations of an earlier run are removed, then every running container
  is handled. A panic ends the pilot.\<close>

fun cleanNames :: "string \<Rightarrow> (string \<times> fstat \<times> bool \<times> bool) list \<Rightarrow> confdir \<Rightarrow> lerr option \<times> confdir" where
  "cleanNames home [] fs = (None, fs)"
| "cleanNames home ((name, stat, isRegular, removeFails) # rest) fs =
     (if stat = StatNotExist \<or> stat = StatError then (Some ConfDirErr, fs)
      else if \<not> isRegular then cleanNames home rest fs
      else if removeFails then (Some RemoveConfErr, fs)
      else cleanNames home rest (gm_delete (pathJoin [home, name]) fs))"

definition cleanConfigs ::
  "pilotEnv \<Rightarrow> (string \<times> fstat \<times> bool \<times> bool) list option \<Rightarrow> pilotState \<Rightarrow> lerr option \<times> pilotState" where
  "cleanConfigs env names st =
     (case names of
        None \<Rightarrow> (Some ConfDirErr, st)
      | Some ns \<Rightarrow> (case cleanNames (GetConfHome env) ns (confs st) of (e, fs) \<Rightarrow> (e, st\<lparr>confs := fs\<rparr>)))"

fun processContainers :: "pilotEnv \<Rightarrow> pilotWorld \<Rightarrow> (string \<times> string) list \<Rightarrow> pilotState \<Rightarrow> lerr option \<times> pilotState" where
  "processContainers env w [] st = (None, st)"
| "processContainers env w ((cid, state) # cs) st =
     (if state = ''removing'' \<or> existsConf env cid st then processContainers env w cs st
      else case inspect w cid of
          None \<Rightarrow> processContainers env w cs st
        | Some cj \<Rightarrow>
            (case newContainer env w cj st of
               (Some LPanic, st') \<Rightarrow> (Some LPanic, st')
             | (_, st') \<Rightarrow> processContainers env w cs st'))"

definition processAllContainers ::
  "pilotEnv \<Rightarrow> pilotWorld \<Rightarrow> (string \<times> string) list option \<Rightarrow> pilotState \<Rightarrow> lerr option \<times> pilotState" where
  "processAllContainers env w listing st =
     (case listing of
        None \<Rightarrow> (None, st)
      | Some cs \<Rightarrow>
          (case processContainers env w cs st of
             (Some e, st') \<Rightarrow> (Some e, st')
           | (None, st') \<Rightarrow> (None, processSymlink env (map fst cs) st')))"

section \<open>Events touch only their container\<close>

interpretation conf: piloter "GetConfPath env" "GetConfHome env" for env
  by unfold_locales
    (simp_all add: GetConfPath_def GetConfHome_def fb.conf_inj fd.conf_inj fb.conf_home fd.conf_home)

lemma symlink_frame [simp]:
  "confs (createVolumeSymlink env w cj st) = confs st" "watched (createVolumeSymlink env w cj st) = watched st"
  "confs (removeVolumeSymlink env c st) = confs st" "watched (removeVolumeSymlink env c st) = watched st"
  by (simp_all add: createVolumeSymlink_def removeVolumeSymlink_def Let_def)

lemma tryReload_frame [simp]: "confs (tryReload st) = confs st" "watched (tryReload st) = watched st"
  by (simp_all add: tryReload_def)

text \<open>The outcomes of \<open>newContainer\<close>: nothing written, or the rendered text at its path.\<close>

lemma newContainer_cases:
  assumes "newContainer env w cj st = (e, st')"
  obtains (unchanged) "confs st' = confs st" "watched st' = watched st"
  | (written) labels lcs content where "e = None"
    "applyEnv (envWork (logPrefix env) (Env cj)) (Labels cj) = Inr labels"
    "getLogConfigs env (LogPath cj) (Mounts cj) labels = Inr lcs" "lcs \<noteq> []"
    "\<not> skipped (logPrefix env) labels"
    "render w (ID cj) (container env cj) lcs (renderOutput env w) = Some content"
    "confs st' = gm_set (GetConfPath env (ID cj)) content (confs st)" "watched st' = watched st"
proof (cases "applyEnv (envWork (logPrefix env) (Env cj)) (Labels cj)")
  case (Inl a)
  then show ?thesis using assms unchanged by (auto simp: newContainer_def Let_def)
next
  case labels: (Inr labels)
  show ?thesis
  proof (cases "getLogConfigs env (LogPath cj) (Mounts cj) labels")
    case (Inl a)
    then show ?thesis using assms unchanged by (auto simp: newContainer_def Let_def labels)
  next
    case (Inr lcs)
    then show ?thesis
      using assms unchanged written [OF _ labels Inr]
      by (auto simp: newContainer_def Let_def labels split: if_splits option.splits)
  qed
qed

lemma feed_other: "c \<noteq> d \<Longrightarrow> gm_get (feed c ws) d = gm_get ws d"
  by (auto simp: feed_def)

lemma feed_same: "gm_get (feed c ws) c \<noteq> None"
  by (auto simp: feed_def)

text \<open>An event changes only what belongs to its container: if the container engine
  answers an inspection with the container asked for, then after any event the configuration
  file and the watched entry of every other container are as before, a configuration that
  already exists for the container is never overwritten or removed by an event, and a death
  of a container under Filebeat leaves it watched.\<close>

theorem events_touch_only_their_container:
  assumes "processEvent env w action cid st = (e, st')" and "\<And>cj. inspect w cid = Some cj \<Longrightarrow> ID cj = cid"
  shows "(\<forall>d. d \<noteq> cid \<longrightarrow> gm_get (confs st') (GetConfPath env d) = gm_get (confs st) (GetConfPath env d) \<and>
            gm_get (watched st') d = gm_get (watched st) d) \<and>
    (existsConf env cid st \<longrightarrow> gm_get (confs st') (GetConfPath env cid) = gm_get (confs st) (GetConfPath env cid)) \<and>
    (action \<in> {''destroy'', ''die''} \<and> pilotType env \<noteq> ''fluentd'' \<longrightarrow> gm_get (watched st') cid \<noteq> None)"
proof -
  consider "action \<in> {''start'', ''restart''}" "\<not> existsConf env cid st"
    | "action \<in> {''destroy'', ''die''}" | "st' = st" "action \<notin> {''destroy'', ''die''}"
    using assms(1) by (auto simp: processEvent_def split: if_splits)
  then show ?thesis
  proof cases
    case 1
    show ?thesis
    proof (cases "inspect w cid")
      case None
      then show ?thesis using 1 assms(1) by (auto simp: processEvent_def)
    next
      case (Some cj)
      then have new: "newContainer env w cj st = (e, st')" using 1 assms(1) by (auto simp: processEvent_def)
      show ?thesis
        using new by (cases rule: newContainer_cases) (use 1 assms(2) [OF Some] in \<open>auto simp: conf.conf_inj\<close>)
    qed
  next
    case 2
    then have "st' = delContainer env cid st" using assms(1) by (auto simp: processEvent_def)
    then show ?thesis using 2 feed_same [of cid] by (auto simp: delContainer_def OnDestroyEvent_def Let_def feed_other)
  qed auto
qed

definition exampleWorld :: pilotWorld where
  "exampleWorld = \<lparr>render = (\<lambda>_ _ _ _. Some ''x''), confWriteFails = (\<lambda>_. False), inspect = (\<lambda>_. None),
     inspectVolume = (\<lambda>_. None), linkDirFails = (\<lambda>_. False), fluentdOutput = [], filebeatOutput = []\<rparr>"

definition twoContainers :: pilotState where
  "twoContainers = \<lparr>confs = [(fbGetConfPath ''c1'', ''x''), (fbGetConfPath ''c2'', ''y'')], watched = [], cleaners = [],
     linkDirs = [], links = [], reloaderWaiting = True, reloads = 0\<rparr>"

lemma example_die: "processEvent exampleEnv exampleWorld ''die'' ''c1'' twoContainers =
    (None, twoContainers\<lparr>watched := [(''c1'', ''c1'')]\<rparr>)"
  by (simp add: processEvent_def delContainer_def OnDestroyEvent_def removeVolumeSymlink_def exampleEnv_def twoContainers_def feed_def)

theorem events_touch_only_their_container_witness:
  "let st' = snd (processEvent exampleEnv exampleWorld ''die'' ''c1'' twoContainers)
   in gm_get (watched st') ''c1'' \<noteq> None \<and>
      gm_get (confs st') (GetConfPath exampleEnv ''c2'') = gm_get (confs twoContainers) (GetConfPath exampleEnv ''c2'')"
proof -
  have type: "pilotType exampleEnv = ''filebeat''" by (simp add: exampleEnv_def)
  have ins: "inspect exampleWorld ''c1'' = Some cj \<Longrightarrow> ID cj = ''c1''" for cj by (simp add: exampleWorld_def)
  note ev = events_touch_only_their_container [OF example_die ins]
  from ev have "gm_get (watched (twoContainers\<lparr>watched := [(''c1'', ''c1'')]\<rparr>)) ''c1'' \<noteq> None"
    using type by fastforce
  moreover from ev have "gm_get (confs (twoContainers\<lparr>watched := [(''c1'', ''c1'')]\<rparr>)) (GetConfPath exampleEnv ''c2'') =
      gm_get (confs twoContainers) (GetConfPath exampleEnv ''c2'')" by fastforce
  ultimately show ?thesis by (simp add: example_die Let_def)
qed

section \<open>Starting a container\<close>

text \<open>C32: a started container that declares logs is collected: when a start event of a container
  without a configuration ends without error, the container is not to be skipped and its labels
  and environment give at least one log configuration, its configuration file holds the text
  rendered from exactly those, and the reload goroutine has been asked to reload.\<close>

theorem started_container_is_configured:
  assumes "processEvent env w action cid st = (None, st')" and "action \<in> {''start'', ''restart''}"
    and "\<not> existsConf env cid st" and "inspect w cid = Some cj" and "ID cj = cid"
    and "applyEnv (envWork (logPrefix env) (Env cj)) (Labels cj) = Inr labels"
    and "getLogConfigs env (LogPath cj) (Mounts cj) labels = Inr lcs" and "lcs \<noteq> []"
    and "\<not> skipped (logPrefix env) labels"
  shows "\<exists>content. render w cid (container env cj) lcs (renderOutput env w) = Some content \<and>
    gm_get (confs st') (GetConfPath env cid) = Some content \<and> \<not> reloaderWaiting st'"
proof -
  have "newContainer env w cj st = (None, st')"
    using assms(1-4) by (auto simp: processEvent_def)
  then show ?thesis
    using assms(5-9) by (auto simp: newContainer_def Let_def tryReload_def split: option.splits if_splits)
qed

definition webContainer :: ContainerJSON where
  "webContainer = \<lparr>ID = ''c9'', CName = ''/web'', LogPath = ''/l/c9.log'', Env = [''cv_logs_web=stdout''],
     Labels = [], Mounts = []\<rparr>"

lemma web_env: "applyEnv (envWork (logPrefix exampleEnv) (Env webContainer)) (Labels webContainer) = Inr [(''cv.logs.web'', ''stdout'')]"
  by code_simp

lemma web_configs: "\<exists>lcs. getLogConfigs exampleEnv (LogPath webContainer) (Mounts webContainer) [(''cv.logs.web'', ''stdout'')] = Inr lcs \<and> lcs \<noteq> []"
proof -
  have "gatherAll (labelWork (logPrefix exampleEnv) [(''cv.logs.web'', ''stdout'')]) (newLogInfoNode [], []) =
      Inr (LogInfoNode [] [(''web'', LogInfoNode ''stdout'' [])], [])" by code_simp
  moreover have "Convert (newLogInfoNode ''nonex'') = Inr []" "trimSpace ''stdout'' = ''stdout''" by code_simp+
  ultimately show ?thesis
    by (simp add: getLogConfigs_def parseLogConfig_def Let_def getNode_def parseTags_def chooseFormat_def
        tryCheckKafkaTopic_def newLogInfoNode_def) (simp add: exampleEnv_def)
qed

theorem started_container_is_configured_witness:
  "let w = exampleWorld\<lparr>inspect := (\<lambda>_. Some webContainer)\<rparr>;
       st' = snd (processEvent exampleEnv w ''start'' ''c9'' twoContainers)
   in gm_get (confs st') (GetConfPath exampleEnv ''c9'') = Some ''x'' \<and> \<not> reloaderWaiting st'"
proof -
  let ?w = "exampleWorld\<lparr>inspect := (\<lambda>_. Some webContainer)\<rparr>"
  obtain lcs where lcs: "getLogConfigs exampleEnv (LogPath webContainer) (Mounts webContainer) [(''cv.logs.web'', ''stdout'')] = Inr lcs" "lcs \<noteq> []"
    using web_configs by blast
  have no: "\<not> existsConf exampleEnv ''c9'' twoContainers" by code_simp
  have skip: "\<not> skipped (logPrefix exampleEnv) [(''cv.logs.web'', ''stdout'')]" by code_simp
  have ins: "inspect ?w ''c9'' = Some webContainer" "ID webContainer = ''c9''" by (simp_all add: webContainer_def)
  have "fst (processEvent exampleEnv ?w ''start'' ''c9'' twoContainers) = None"
    using no by (simp add: processEvent_def newContainer_def Let_def web_env lcs skip) (simp add: exampleWorld_def)
  then have run: "processEvent exampleEnv ?w ''start'' ''c9'' twoContainers =
      (None, snd (processEvent exampleEnv ?w ''start'' ''c9'' twoContainers))" by (simp add: prod_eq_iff)
  have "render ?w ''c9'' (container exampleEnv webContainer) lcs (renderOutput exampleEnv ?w) = Some ''x''"
    by (simp add: exampleWorld_def)
  then show ?thesis
    using started_container_is_configured [OF run _ no ins web_env lcs skip] by (simp add: Let_def)
qed

section \<open>Restarting a container\<close>

lemma scanLoop_removed:
  "scanLoop env registry cp cs (ws, fs) = Inr (ws', fs') \<Longrightarrow> c \<in> set cs \<Longrightarrow>
   gm_get fs (fbGetConfPath c) \<noteq> None \<Longrightarrow> canRemoveConf env fs c registry cp = Inr True \<Longrightarrow>
   \<not> confRemoveFails env (fbGetConfPath c) \<Longrightarrow> gm_get fs' (fbGetConfPath c) = None"
proof (induction cs arbitrary: ws fs)
  case (Cons d cs)
  show ?case
  proof (cases "d = c")
    case True
    then have "scanLoop env registry cp cs (gm_delete c ws, gm_delete (fbGetConfPath c) fs) = Inr (ws', fs')"
      using Cons.prems by (auto simp: Let_def)
    from scanLoop_removes [OF this, of "fbGetConfPath c"] show ?thesis by auto
  next
    case False
    then obtain vs gs where gs: "scanLoop env registry cp cs (vs, gs) = Inr (ws', fs')"
      "gm_get gs (fbGetConfPath c) = gm_get fs (fbGetConfPath c)"
      using Cons.prems(1) fb.conf_inj [of d c]
      by (fastforce simp: Let_def split: if_splits sum.splits bool.splits)
    then show ?thesis
      using Cons.IH [OF gs(1)] Cons.prems False canRemoveConf_local [OF gs(2)] by auto
  qed
qed simp

text \<open>A restarted container stops being collected: under Filebeat, a death followed by a
  start leaves the container watched, because the start event of a container whose configuration
  still exists is ignored; so the next scan that finds its logs read to the end removes the
  configuration of the now running container, and no later step of the pilot but another start
  event writes it again.\<close>

theorem restarted_container_loses_configuration:
  assumes "pilotType env = ''filebeat''" and "existsConf env cid st"
    and "processEvent env w ''die'' cid st = (None, st1)" and "processEvent env w ''start'' cid st1 = (None, st2)"
    and "getRegsitryState wenv = Some registry"
    and "canRemoveConf wenv (confs st) cid registry (loadConfigPaths wenv (watched st1) (confs st)) = Inr True"
    and "\<not> confRemoveFails wenv (GetConfPath env cid)"
    and "fbScan wenv (watched st2, confs st2) = Inr (ws, fs)"
  shows "existsConf env cid st2 \<and> gm_get fs (GetConfPath env cid) = None"
proof -
  have path: "GetConfPath env cid = fbGetConfPath cid" using assms(1) by (simp add: GetConfPath_def)
  have st1: "confs st1 = confs st" "gm_get (watched st1) cid \<noteq> None"
    using assms(1,3) feed_same [of cid] by (auto simp: processEvent_def delContainer_def OnDestroyEvent_def)
  have st2: "st2 = st1" using assms(2,4) st1(1) by (simp add: processEvent_def existsConf_def)
  have "cid \<in> set (map fst (watched st1))" using st1(2) by (simp add: map_of_eq_None_iff)
  moreover have "scanLoop wenv registry (loadConfigPaths wenv (watched st1) (confs st)) (map fst (watched st1))
      (watched st1, confs st) = Inr (ws, fs)"
    using assms(5,8) st1(1) by (simp add: fbScan_def st2)
  ultimately have "gm_get fs (fbGetConfPath cid) = None"
    using scanLoop_removed assms(2,6,7) path by (simp add: existsConf_def)
  then show ?thesis using assms(2) st1(1) by (simp add: st2 existsConf_def path)
qed

theorem restarted_container_loses_configuration_witness:
  "let st1 = snd (processEvent exampleEnv exampleWorld ''die'' ''c1'' twoContainers);
       st2 = snd (processEvent exampleEnv exampleWorld ''start'' ''c1'' st1)
   in \<exists>ws fs. fbScan readEnv (watched st2, confs st2) = Inr (ws, fs) \<and>
        gm_get fs (GetConfPath exampleEnv ''c1'') = None"
proof -
  let ?st1 = "twoContainers\<lparr>watched := [(''c1'', ''c1'')]\<rparr>"
  have type: "pilotType exampleEnv = ''filebeat''" by (simp add: exampleEnv_def)
  have conf: "gm_get (confs twoContainers) (fbGetConfPath ''c1'') \<noteq> None" by (simp add: twoContainers_def)
  then have ex: "existsConf exampleEnv ''c1'' twoContainers" by (simp add: existsConf_def GetConfPath_def type)
  then have start: "processEvent exampleEnv exampleWorld ''start'' ''c1'' ?st1 = (None, ?st1)"
    by (simp add: processEvent_def existsConf_def)
  have scan: "fbScan readEnv (watched ?st1, confs ?st1) = Inr ([], gm_delete (fbGetConfPath ''c1'') (confs ?st1))"
    using readEnv_scan [of "confs ?st1" "''c1''"] conf by simp
  have "\<not> confRemoveFails readEnv (GetConfPath exampleEnv ''c1'')" by (simp add: readEnv_def)
  from restarted_container_loses_configuration
    [OF type ex example_die start readEnv_registry readEnv_canRemove [OF conf] this scan]
  show ?thesis using scan by (simp add: example_die start Let_def)
qed

end
