(* ===== verification/Conn_Pool.thy ===== *)
theory Conn_Pool
  imports Go_Prelude
begin

text \<open>
  The connection pool of the proxy, \<open>utils/pool.go\<close>. A connection is the number of the
  factory call that made it; the pool's channel is a queue with a capacity, and the releases are
  logged. Every operation but the fill worker's sleep runs under the pool's lock, so each is one
  state change. Whether a factory call succeeds and whether a connection is active are parameters.
\<close>

type_synonym conn = nat

record poolConfig =
  Factory :: "nat \<Rightarrow> bool"
  IsActive :: "conn \<Rightarrow> bool"
  InitialCap :: nat
  MaxCap :: nat

record netPool =
  conns :: "conn list"
  capacity :: nat
  released :: "conn list"
  calls :: nat

definition Release :: "conn \<Rightarrow> netPool \<Rightarrow> netPool" where
  "Release c p = p\<lparr>released := c # released p\<rparr>"

text \<open>The select that sends to the channel or, when it is full, releases.\<close>

definition sendOrRelease :: "conn \<Rightarrow> netPool \<Rightarrow> netPool" where
  "sendOrRelease c p = (if length (conns p) < capacity p then p\<lparr>conns := conns p @ [c]\<rparr> else Release c p)"

text \<open>A call of the factory: the connection or an error, and the pool with the call counted.\<close>

definition callFactory :: "poolConfig \<Rightarrow> netPool \<Rightarrow> conn option \<times> netPool" where
  "callFactory cfg p = (if Factory cfg (calls p) then Some (calls p) else None, p\<lparr>calls := calls p + 1\<rparr>)"

text \<open>The loop of the fill worker; \<open>n\<close> iterations are left. The first component is the error a
  synchronous fill returns. The \<open>break\<close> inside the select only leaves the select.\<close>

fun fillLoop :: "poolConfig \<Rightarrow> bool \<Rightarrow> nat \<Rightarrow> netPool \<Rightarrow> bool \<times> netPool" where
  "fillLoop cfg async 0 p = (False, p)"
| "fillLoop cfg async (Suc n) p =
     (case callFactory cfg p of
        (None, p1) \<Rightarrow> if async then fillLoop cfg async n p1 else (True, p1)
      | (Some c, p1) \<Rightarrow>
          let p2 = sendOrRelease c p1 in
          if length (conns p2) \<ge> InitialCap cfg then (False, p2) else fillLoop cfg async n p2)"

definition fillRound :: "poolConfig \<Rightarrow> bool \<Rightarrow> netPool \<Rightarrow> bool \<times> netPool" where
  "fillRound cfg async p =
     (if length (conns p) \<le> InitialCap cfg div 2 then fillLoop cfg async (InitialCap cfg) p else (False, p))"

text \<open>\<open>NewConnPool\<close>: the error of the first fill is dropped, and the worker is started only when
  there was none; the result says whether it runs.\<close>

definition NewConnPool :: "poolConfig \<Rightarrow> bool \<times> netPool" where
  "NewConnPool cfg =
     (let p = \<lparr>conns = [], capacity = MaxCap cfg, released = [], calls = 0\<rparr>
      in if MaxCap cfg > 0 then (case fillRound cfg False p of (err, p') \<Rightarrow> (\<not> err, p')) else (False, p))"

definition PoolGet :: "poolConfig \<Rightarrow> netPool \<Rightarrow> conn option \<times> netPool" where
  "PoolGet cfg p =
     (case conns p of
        c # cs \<Rightarrow>
          (let p1 = p\<lparr>conns := cs\<rparr> in if IsActive cfg c then (Some c, p1) else (Some c, Release c p1))
      | [] \<Rightarrow> callFactory cfg p)"

definition PoolPut :: "poolConfig \<Rightarrow> conn \<Rightarrow> netPool \<Rightarrow> netPool" where
  "PoolPut cfg c p = sendOrRelease c (if IsActive cfg c then p else Release c p)"

definition ReleaseAll :: "poolConfig \<Rightarrow> netPool \<Rightarrow> netPool" where
  "ReleaseAll cfg p = p\<lparr>released := rev (conns p) @ released p, conns := [], capacity := InitialCap cfg\<rparr>"

definition PoolLen :: "netPool \<Rightarrow> nat" where
  "PoolLen p = length (conns p)"

section \<open>Runs\<close>

text \<open>A client takes connections, puts back ones it holds, and may close one itself.\<close>

datatype pop = DoGet | DoPut conn | DoClose conn | DoFill | DoReleaseAll

fun poolStep :: "poolConfig \<Rightarrow> pop \<Rightarrow> conn list \<times> netPool \<Rightarrow> conn list \<times> netPool" where
  "poolStep cfg DoGet (held, p) =
     (case PoolGet cfg p of (None, p') \<Rightarrow> (held, p') | (Some c, p') \<Rightarrow> (c # held, p'))"
| "poolStep cfg (DoPut c) (held, p) =
     (if c \<in> set held then (remove1 c held, PoolPut cfg c p) else (held, p))"
| "poolStep cfg (DoClose c) (held, p) =
     (if c \<in> set held then (remove1 c held, Release c p) else (held, p))"
| "poolStep cfg DoFill (held, p) = (held, snd (fillRound cfg True p))"
| "poolStep cfg DoReleaseAll (held, p) = (held, ReleaseAll cfg p)"

definition poolRun :: "poolConfig \<Rightarrow> pop list \<Rightarrow> conn list \<times> netPool \<Rightarrow> conn list \<times> netPool" where
  "poolRun cfg ops s = fold (poolStep cfg) ops s"

text \<open>Every connection made is at exactly one place, and the queue respects its capacity.\<close>

definition pool_ok :: "poolConfig \<Rightarrow> conn list \<times> netPool \<Rightarrow> bool" where
  "pool_ok cfg s \<longleftrightarrow>
     distinct (conns (snd s) @ fst s @ released (snd s)) \<and>
     set (conns (snd s) @ fst s @ released (snd s)) = {i. i < calls (snd s) \<and> Factory cfg i} \<and>
     length (conns (snd s)) \<le> capacity (snd s)"

lemma callFactory_ok:
  assumes "pool_ok cfg (held, p)"
  shows "case callFactory cfg p of
      (None, p') \<Rightarrow> pool_ok cfg (held, p')
    | (Some c, p') \<Rightarrow> pool_ok cfg (c # held, p') \<and> pool_ok cfg (held, sendOrRelease c p')"
proof -
  let ?all = "conns p @ held @ released p"
  have new: "calls p \<notin> set ?all" and rest: "distinct ?all" "set ?all = {i. i < calls p \<and> Factory cfg i}"
    "length (conns p) \<le> capacity p"
    using assms by (auto simp: pool_ok_def)
  show ?thesis
    using new rest
    by (auto simp: callFactory_def pool_ok_def sendOrRelease_def Release_def less_Suc_eq)
qed

lemma fillLoop_ok: "pool_ok cfg (held, p) \<Longrightarrow> pool_ok cfg (held, snd (fillLoop cfg async n p))"
proof (induction n arbitrary: p)
  case (Suc n)
  obtain r p1 where r: "callFactory cfg p = (r, p1)" by (cases "callFactory cfg p")
  show ?case
  proof (cases r)
    case None
    then show ?thesis using Suc.IH [of p1] callFactory_ok [OF Suc.prems] r by auto
  next
    case (Some c)
    then have "pool_ok cfg (held, sendOrRelease c p1)" using callFactory_ok [OF Suc.prems] r by simp
    then show ?thesis using Suc.IH [of "sendOrRelease c p1"] r Some by (simp add: Let_def)
  qed
qed simp

lemma fillRound_ok: "pool_ok cfg (held, p) \<Longrightarrow> pool_ok cfg (held, snd (fillRound cfg async p))"
  by (simp add: fillRound_def fillLoop_ok)

lemma held_split: "c \<in> set held \<Longrightarrow> distinct held \<Longrightarrow> set held = insert c (set (remove1 c held)) \<and> c \<notin> set (remove1 c held)"
  by auto

lemma release_held_ok:
  assumes "pool_ok cfg (held, p)" and "c \<in> set held"
  shows "pool_ok cfg (remove1 c held, Release c p)" and "pool_ok cfg (remove1 c held, sendOrRelease c p)"
  using assms held_split [of c held]
  by (auto simp: pool_ok_def Release_def sendOrRelease_def distinct_remove1)

lemma poolStep_ok:
  assumes "\<And>c. IsActive cfg c" and "pool_ok cfg (held, p)"
  shows "pool_ok cfg (poolStep cfg opn (held, p))"
proof (cases opn)
  case DoGet
  show ?thesis
  proof (cases "conns p")
    case Nil
    then show ?thesis
      using callFactory_ok [OF assms(2)] by (auto simp: DoGet PoolGet_def split: prod.splits option.splits)
  next
    case (Cons c cs)
    then show ?thesis using assms by (auto simp: DoGet PoolGet_def pool_ok_def)
  qed
next
  case (DoPut c)
  then show ?thesis using assms release_held_ok(2) [OF assms(2), of c] by (simp add: PoolPut_def)
next
  case (DoClose c)
  then show ?thesis using assms release_held_ok(1) [OF assms(2), of c] by simp
next
  case DoFill
  then show ?thesis using fillRound_ok [OF assms(2)] by simp
next
  case DoReleaseAll
  then show ?thesis using assms(2) by (auto simp: ReleaseAll_def pool_ok_def)
qed

lemma NewConnPool_ok: "pool_ok cfg ([], snd (NewConnPool cfg))"
proof -
  let ?p = "\<lparr>conns = [], capacity = MaxCap cfg, released = [], calls = 0\<rparr>"
  have "pool_ok cfg ([], ?p)" by (simp add: pool_ok_def)
  then show ?thesis
    using fillRound_ok [of cfg "[]" ?p False] by (auto simp: NewConnPool_def Let_def split: prod.splits)
qed

text \<open>C5: no connection is lost, shared or used after release: from a new pool whose
  connections count as active (as the proxy configures it), after any sequence of takes, returns,
  closes, background fills and releases of the whole pool, every connection the factory made is
  at exactly one place (queued, held by a client, or released), once, and the queue never exceeds
  its capacity.\<close>

theorem pool_conserves_connections:
  assumes "\<And>c. IsActive cfg c" and "poolRun cfg ops ([], snd (NewConnPool cfg)) = (held, p)"
  shows "distinct (conns p @ held @ released p) \<and>
    set (conns p @ held @ released p) = {i. i < calls p \<and> Factory cfg i} \<and> length (conns p) \<le> capacity p"
proof -
  have "pool_ok cfg s \<Longrightarrow> pool_ok cfg (poolRun cfg ops s)" for s
    unfolding poolRun_def
    by (induction ops arbitrary: s) (simp_all, metis assms(1) poolStep_ok surj_pair)
  from this [OF NewConnPool_ok [of cfg]] assms(2) show ?thesis by (simp add: pool_ok_def)
qed

theorem pool_conserves_connections_witness:
  "let cfg = \<lparr>Factory = (\<lambda>i. i \<noteq> 1), IsActive = (\<lambda>_. True), InitialCap = 1, MaxCap = 2\<rparr>;
       (held, p) = poolRun cfg [DoGet, DoGet, DoGet, DoPut 0, DoReleaseAll] ([], snd (NewConnPool cfg))
   in held = [2] \<and> released p = [0] \<and> distinct (conns p @ held @ released p)"
proof -
  let ?cfg = "\<lparr>Factory = (\<lambda>i. i \<noteq> 1), IsActive = (\<lambda>_. True), InitialCap = 1, MaxCap = 2\<rparr> :: poolConfig"
  let ?s = "poolRun ?cfg [DoGet, DoGet, DoGet, DoPut 0, DoReleaseAll] ([], snd (NewConnPool ?cfg))"
  have run: "fst ?s = [2] \<and> released (snd ?s) = [0]" by code_simp
  have "?s = (fst ?s, snd ?s)" by simp
  from pool_conserves_connections [OF _ this] have "distinct (conns (snd ?s) @ fst ?s @ released (snd ?s))" by simp
  then show ?thesis using run by (simp add: Let_def case_prod_beta)
qed

text \<open>The pool hands out a connection it has just released: when a queued connection is no
  longer active, \<open>Get\<close> releases it and still returns it without an error, and \<open>Put\<close> of an
  inactive connection releases it and then queues it for the next client.\<close>

theorem inactive_connection_handed_out:
  assumes "\<not> IsActive cfg c"
  shows "PoolGet cfg (p\<lparr>conns := c # cs\<rparr>) = (Some c, Release c (p\<lparr>conns := cs\<rparr>)) \<and>
    (length (conns p) < capacity p \<longrightarrow>
       c \<in> set (conns (PoolPut cfg c p)) \<and> c \<in> set (released (PoolPut cfg c p)))"
  using assms by (simp add: PoolGet_def PoolPut_def sendOrRelease_def Release_def)

theorem inactive_connection_handed_out_witness:
  "let cfg = \<lparr>Factory = (\<lambda>_. True), IsActive = (\<lambda>c. c \<noteq> 3), InitialCap = 1, MaxCap = 2\<rparr>;
       p = \<lparr>conns = [], capacity = 2, released = [], calls = 4\<rparr>
   in fst (PoolGet cfg (p\<lparr>conns := [3]\<rparr>)) = Some 3 \<and> 3 \<in> set (released (snd (PoolGet cfg (p\<lparr>conns := [3]\<rparr>))))"
proof -
  let ?cfg = "\<lparr>Factory = (\<lambda>_. True), IsActive = (\<lambda>c. c \<noteq> 3), InitialCap = 1, MaxCap = 2\<rparr> :: poolConfig"
  have "\<not> IsActive ?cfg 3" by simp
  from inactive_connection_handed_out [OF this, of "[]" "\<lparr>conns = [], capacity = 2, released = [], calls = 4\<rparr>"]
  show ?thesis by (simp add: Let_def Release_def)
qed

section \<open>The interface to the users of a pool\<close>

text \<open>A run of a user: \<open>None\<close> takes a connection, \<open>Some e\<close> is upkeep that goes on beside it. The
  result lists the connections taken.\<close>

fun useRun :: "('p \<Rightarrow> nat option \<times> 'p) \<Rightarrow> ('e \<Rightarrow> 'p \<Rightarrow> 'p) \<Rightarrow> 'e option list \<Rightarrow> 'p \<Rightarrow> nat list \<times> 'p" where
  "useRun tk up [] p = ([], p)"
| "useRun tk up (None # xs) p =
     (case tk p of
        (None, p') \<Rightarrow> useRun tk up xs p'
      | (Some c, p') \<Rightarrow> (case useRun tk up xs p' of (cs, p'') \<Rightarrow> (c # cs, p'')))"
| "useRun tk up (Some e # xs) p = useRun tk up xs (up e p)"

lemma useRun_append:
  "useRun tk up (xs @ ys) p =
     (case useRun tk up xs p of (cs, p1) \<Rightarrow> case useRun tk up ys p1 of (ds, p2) \<Rightarrow> (cs @ ds, p2))"
  by (induction tk up xs p rule: useRun.induct) (auto split: prod.splits option.splits)

locale conn_source =
  fixes inv :: "nat list \<Rightarrow> 'p \<Rightarrow> bool"
    and tk :: "'p \<Rightarrow> nat option \<times> 'p"
    and up :: "'e \<Rightarrow> 'p \<Rightarrow> 'p"
  assumes taken: "inv held p \<Longrightarrow> tk p = (Some c, p') \<Longrightarrow> inv (c # held) p'"
    and refused: "inv held p \<Longrightarrow> tk p = (None, p') \<Longrightarrow> inv held p'"
    and upkeep: "inv held p \<Longrightarrow> inv held (up e p)"
    and once: "inv held p \<Longrightarrow> distinct held"
begin

lemma run_inv: "inv held p \<Longrightarrow> useRun tk up xs p = (cs, p') \<Longrightarrow> inv (rev cs @ held) p'"
proof (induction xs arbitrary: held p cs)
  case (Cons x xs)
  show ?case
  proof (cases x)
    case None
    obtain r q where r: "tk p = (r, q)" by (cases "tk p")
    obtain ds where ds: "useRun tk up xs q = (ds, p')" using Cons.prems(2) None r by (auto split: option.splits prod.splits)
    show ?thesis
      using Cons.prems Cons.IH [OF _ ds, of held] Cons.IH [OF _ ds, of "the r # held"] None r ds
        taken [OF Cons.prems(1)] refused [OF Cons.prems(1)]
      by (cases r) auto
  next
    case (Some e)
    then show ?thesis using Cons.IH [OF upkeep [OF Cons.prems(1)]] Cons.prems(2) by simp
  qed
qed simp

lemma run_distinct: "inv [] p \<Longrightarrow> useRun tk up xs p = (cs, p') \<Longrightarrow> distinct cs"
  using once [OF run_inv [of "[]" p xs cs p']] by simp

end

end
