(* ===== verification/Proxy_Request.thy ===== *)
theory Proxy_Request
  imports Concurrent_Map AES_Auth
begin

text \<open>
  The request side of the HTTP proxy, \<open>utils/structs.go\<close> and \<open>proxy/http.go\<close>: the checker
  that decides which hosts need the parent proxy, basic authentication, and the decoding of the
  first bytes of a client connection. All tables are concurrent maps, used here through the laws
  of the \<open>map_store\<close> interface. URL parsing and name resolution are parameters; a run-time panic
  is \<open>RPanic\<close>.
\<close>

section \<open>Checker\<close>

record CheckerItem =
  IsHTTPS :: bool
  Method :: string
  URL :: string
  Domain :: string
  Host :: string
  Data :: "byte list"
  SuccessCount :: u64
  FailCount :: u64

record Checker =
  cdata :: "CheckerItem cmap"
  blockedMap :: "bool cmap"
  directMap :: "bool cmap"

fun loadLines :: "string list \<Rightarrow> bool cmap \<Rightarrow> bool cmap option" where
  "loadLines [] m = Some m"
| "loadLines (l # ls) m =
     (let line = trimCut l [CHR 0x0D, CHR '' '', CHR 0x09] in
      if line = [] then loadLines ls m
      else case CSet m line True of None \<Rightarrow> None | Some m' \<Rightarrow> loadLines ls m')"

text \<open>\<open>content\<close> is \<open>None\<close> when the file is missing or unreadable.\<close>

definition loadMap :: "string option \<Rightarrow> bool cmap option" where
  "loadMap content =
     (case content of
        None \<Rightarrow> Some NewConcurrentMap
      | Some s \<Rightarrow> loadLines (splitC (CHR 0x0A) s) NewConcurrentMap)"

definition NewChecker :: "string option \<Rightarrow> string option \<Rightarrow> Checker option" where
  "NewChecker blockedFile directFile =
     (case (loadMap blockedFile, loadMap directFile) of
        (Some b, Some d) \<Rightarrow> Some \<lparr>cdata = NewConcurrentMap, blockedMap = b, directMap = d\<rparr>
      | _ \<Rightarrow> None)"

text \<open>The loop over the labels left of the last one, from right to left (\<open>subs\<close> is reversed).\<close>

fun domainLoop :: "bool cmap \<Rightarrow> string list \<Rightarrow> string \<Rightarrow> bool option" where
  "domainLoop m [] checkDomain = Some False"
| "domainLoop m (s # subs) checkDomain =
     (let d = s @ ''.'' @ checkDomain in
      case Has m d of
        None \<Rightarrow> None
      | Some True \<Rightarrow> Some True
      | Some False \<Rightarrow> domainLoop m subs d)"

text \<open>\<open>hostname\<close> parses \<open>http://\<close> followed by the address and gives the host name; an
  unparsable address counts as listed. \<open>None\<close> is an index out of range in the map.\<close>

definition domainIsInMap :: "(string \<Rightarrow> string option) \<Rightarrow> Checker \<Rightarrow> string \<Rightarrow> bool \<Rightarrow> bool option" where
  "domainIsInMap hostname c address blocked =
     (case hostname (''http://'' @ address) of
        None \<Rightarrow> Some True
      | Some h \<Rightarrow>
          (let ds = splitC (CHR ''.'') h in
           if length ds > 1
           then domainLoop (if blocked then blockedMap c else directMap c) (rev (butlast ds)) (last ds)
           else Some False))"

definition isNeedCheck :: "(string \<Rightarrow> string option) \<Rightarrow> Checker \<Rightarrow> CheckerItem \<Rightarrow> bool option" where
  "isNeedCheck hostname c item =
     (let minCount = 5 in
      if (SuccessCount item \<ge> minCount \<and> SuccessCount item > FailCount item) \<or>
         (FailCount item \<ge> minCount \<and> SuccessCount item > FailCount item)
      then Some False
      else case domainIsInMap hostname c (Host item) False of
          None \<Rightarrow> None
        | Some True \<Rightarrow> Some False
        | Some False \<Rightarrow> map_option Not (domainIsInMap hostname c (Host item) True))"

definition IsBlocked :: "(string \<Rightarrow> string option) \<Rightarrow> Checker \<Rightarrow> string \<Rightarrow> (bool \<times> u64 \<times> u64) option" where
  "IsBlocked hostname c address =
     (case domainIsInMap hostname c address True of
        None \<Rightarrow> None
      | Some True \<Rightarrow> Some (True, 0, 0)
      | Some False \<Rightarrow>
     (case domainIsInMap hostname c address False of
        None \<Rightarrow> None
      | Some True \<Rightarrow> Some (False, 0, 0)
      | Some False \<Rightarrow>
     (case CGet (cdata c) address of
        None \<Rightarrow> None
      | Some None \<Rightarrow> Some (True, 0, 0)
      | Some (Some item) \<Rightarrow> Some (FailCount item \<ge> SuccessCount item, FailCount item, SuccessCount item))))"

definition CheckerAdd ::
  "(string \<Rightarrow> string option) \<Rightarrow> Checker \<Rightarrow> string \<Rightarrow> bool \<Rightarrow> string \<Rightarrow> string \<Rightarrow> byte list \<Rightarrow> Checker option" where
  "CheckerAdd hostname c address isHTTPS meth url data =
     (case (domainIsInMap hostname c address False, domainIsInMap hostname c address True) of
        (Some d, Some b) \<Rightarrow>
          if d \<or> b then Some c
          else if \<not> isHTTPS \<and> toLower meth \<noteq> ''get'' then Some c
          else (case SetIfAbsent (cdata c) address
                  \<lparr>IsHTTPS = isHTTPS, Method = meth, URL = url, Domain = hd (splitC (CHR '':'') address),
                   Host = address, Data = data, SuccessCount = 0, FailCount = 0\<rparr> of
                  None \<Rightarrow> None
                | Some (_, m) \<Rightarrow> Some (c\<lparr>cdata := m\<rparr>))
      | _ \<Rightarrow> None)"

text \<open>One check of one item by the background goroutine; \<open>ok\<close> is the outcome of connecting.\<close>

definition checkOnce :: "(string \<Rightarrow> string option) \<Rightarrow> bool \<Rightarrow> CheckerItem \<Rightarrow> Checker \<Rightarrow> Checker option" where
  "checkOnce hostname ok item c =
     (case isNeedCheck hostname c item of
        None \<Rightarrow> None
      | Some False \<Rightarrow> Some c
      | Some True \<Rightarrow>
          (let item' = (if ok then item\<lparr>SuccessCount := SuccessCount item + 1\<rparr>
                        else item\<lparr>FailCount := FailCount item + 1\<rparr>)
           in map_option (\<lambda>m. c\<lparr>cdata := m\<rparr>) (CSet (cdata c) (Host item') item')))"

section \<open>Basic authentication\<close>

type_synonym BasicAuth = "string cmap"

fun addPairs :: "(string \<Rightarrow> string option) \<Rightarrow> string list \<Rightarrow> BasicAuth \<Rightarrow> nat \<Rightarrow> (nat \<times> BasicAuth) option" where
  "addPairs prep [] m n = Some (n, m)"
| "addPairs prep (l # ls) m n =
     (case prep l of
        None \<Rightarrow> addPairs prep ls m n
      | Some userpass \<Rightarrow>
          (case splitC (CHR '':'') userpass of
             [u, p] \<Rightarrow> (case CSet m u p of None \<Rightarrow> None | Some m' \<Rightarrow> addPairs prep ls m' (n + 1))
           | _ \<Rightarrow> addPairs prep ls m n))"

text \<open>The skip of comment lines has its arguments swapped: it skips the prefixes of \<open>#\<close>.\<close>

definition fileLine :: "string \<Rightarrow> string option" where
  "fileLine userpass = (if hasPrefix ''#'' userpass then None else Some (trimCut userpass '' ''))"

definition AddFromFile :: "string option \<Rightarrow> BasicAuth \<Rightarrow> (nat \<times> BasicAuth) option" where
  "AddFromFile content ba =
     (case content of
        None \<Rightarrow> Some (0, ba)
      | Some s \<Rightarrow> addPairs fileLine (splitC (CHR 0x0A) (filter (\<lambda>c. c \<noteq> CHR 0x0D) s)) ba 0)"

definition BasicAuthAdd :: "string list \<Rightarrow> BasicAuth \<Rightarrow> (nat \<times> BasicAuth) option" where
  "BasicAuthAdd userpassArr ba = addPairs Some userpassArr ba 0"

definition Check :: "BasicAuth \<Rightarrow> string \<Rightarrow> bool option" where
  "Check ba userpass =
     (case splitC (CHR '':'') (trimCut userpass '' '') of
        [u, p] \<Rightarrow>
          (case CGet ba u of
             None \<Rightarrow> None
           | Some None \<Rightarrow> Some False
           | Some (Some p') \<Rightarrow> Some (p' = p))
      | _ \<Rightarrow> Some False)"

definition Total :: "BasicAuth \<Rightarrow> nat option" where
  "Total ba = Count ba"

section \<open>Decoding a request\<close>

datatype rerr = REof | RRead | RLine | RData | RNoHeader | RAuthData | RAuthParse | RAuthFail | RPanic

record HTTPRequest =
  HeadBuf :: string
  RHost :: string
  RMethod :: string
  RURL :: string
  hostOrURL :: string

definition crlf :: string where "crlf = [CHR 0x0D, CHR 0x0A]"

fun findHeader :: "string \<Rightarrow> string list \<Rightarrow> string option" where
  "findHeader key [] = None"
| "findHeader key (l # ls) =
     (case splitN2 (CHR '':'') (trimCut l (crlf @ '' '')) of
        [k, v] \<Rightarrow> if toUpper (trimCut k '' '') = key then Some (trimCut v '' '') else findHeader key ls
      | _ \<Rightarrow> findHeader key ls)"

definition getHeader :: "string \<Rightarrow> string \<Rightarrow> string option" where
  "getHeader headBuf key = findHeader (toUpper key) (splitStr crlf [] headBuf)"

definition IsHTTPSReq :: "HTTPRequest \<Rightarrow> bool" where
  "IsHTTPSReq req \<longleftrightarrow> RMethod req = ''CONNECT''"

definition addPortIfNot :: "HTTPRequest \<Rightarrow> HTTPRequest" where
  "addPortIfNot req =
     (let port = (if IsHTTPSReq req then ''443'' else ''80''); h = RHost req in
      if (\<not> hasPrefix h ''['' \<and> CHR '':'' \<notin> set h) \<or> (hasPrefix h ''['' \<and> hasSuffix h '']'')
      then req\<lparr>RHost := h @ '':'' @ port\<rparr> else req)"

text \<open>\<open>BasicAuth\<close>: the error, if any; \<open>charsOf\<close> reads decoded bytes as a string.\<close>

definition charsOf :: "byte list \<Rightarrow> string" where
  "charsOf bs = map (\<lambda>b. char_of (unat b)) bs"

definition BasicAuthCheck :: "BasicAuth \<Rightarrow> HTTPRequest \<Rightarrow> rerr option" where
  "BasicAuthCheck ba req =
     (case getHeader (HeadBuf req) ''Authorization'' of
        None \<Rightarrow> Some RNoHeader
      | Some authorization \<Rightarrow>
          (case Go_Prelude.fields authorization of
             [scheme, cred] \<Rightarrow>
               (case decodeString cred of
                  None \<Rightarrow> Some RAuthParse
                | Some user \<Rightarrow>
                    (case Check ba (charsOf user) of
                       None \<Rightarrow> Some RPanic
                     | Some True \<Rightarrow> None
                     | Some False \<Rightarrow> Some RAuthFail))
           | _ \<Rightarrow> Some RAuthData))"

definition getHTTPURL :: "HTTPRequest \<Rightarrow> string option" where
  "getHTTPURL req =
     (if \<not> hasPrefix (hostOrURL req) ''/'' then Some (hostOrURL req)
      else map_option (\<lambda>h. ''http://'' @ h @ hostOrURL req) (getHeader (HeadBuf req) ''host''))"

text \<open>\<open>urlHost\<close> is the host of a parsed URL; on a parse error the code dereferences nil.\<close>

definition HTTPReq :: "(string \<Rightarrow> string option) \<Rightarrow> bool \<Rightarrow> BasicAuth \<Rightarrow> HTTPRequest \<Rightarrow> rerr + HTTPRequest" where
  "HTTPReq urlHost isBasicAuth ba req =
     (case (if isBasicAuth then BasicAuthCheck ba req else None) of
        Some e \<Rightarrow> Inl e
      | None \<Rightarrow>
          (case getHTTPURL req of
             None \<Rightarrow> Inl RNoHeader
           | Some url \<Rightarrow>
               (case urlHost url of
                  None \<Rightarrow> Inl RPanic
                | Some h \<Rightarrow> Inr (addPortIfNot (req\<lparr>RURL := url, RHost := h\<rparr>)))))"

definition HTTPSReq :: "HTTPRequest \<Rightarrow> HTTPRequest" where
  "HTTPSReq req = addPortIfNot (req\<lparr>RHost := hostOrURL req\<rparr>)"

text \<open>The error messages quote the first fifty bytes, a slice that panics on a shorter buffer.\<close>

definition quote50 :: "string \<Rightarrow> rerr \<Rightarrow> rerr" where
  "quote50 buf e = (if length buf < 50 then RPanic else e)"

text \<open>\<open>Sscanf\<close> with two string verbs reads the first two fields of the line.\<close>

definition NewHTTPRequest ::
  "(string \<Rightarrow> string option) \<Rightarrow> bool \<Rightarrow> BasicAuth \<Rightarrow> rerr + string \<Rightarrow> rerr + HTTPRequest" where
  "NewHTTPRequest urlHost isBasicAuth ba input =
     (case input of
        Inl e \<Rightarrow> Inl e
      | Inr buf \<Rightarrow>
          if CHR 0x0A \<notin> set buf then Inl (quote50 buf RLine)
          else case Go_Prelude.fields (takeWhile (\<lambda>c. c \<noteq> CHR 0x0A) buf) of
              meth # hou # _ \<Rightarrow>
                (let req = \<lparr>HeadBuf = buf, RHost = [], RMethod = toUpper meth, RURL = [], hostOrURL = hou\<rparr> in
                 if IsHTTPSReq req then Inr (HTTPSReq req) else HTTPReq urlHost isBasicAuth ba req)
            | _ \<Rightarrow> Inl (quote50 buf RData))"

section \<open>The proxy service\<close>

record HTTPArgs =
  Parent :: string
  Always :: bool
  AuthFile :: string
  AuthList :: "string list"

definition IsBasicAuth :: "HTTPArgs \<Rightarrow> bool" where
  "IsBasicAuth cfg \<longleftrightarrow> AuthFile cfg \<noteq> [] \<or> length (AuthList cfg) > 0"

text \<open>\<open>file\<close> is the content of the authentication file, \<open>None\<close> when it cannot be read (the
  error ends the initialisation and is dropped by the caller).\<close>

definition InitBasicAuth :: "HTTPArgs \<Rightarrow> string option \<Rightarrow> BasicAuth option" where
  "InitBasicAuth cfg file =
     (let ba = NewConcurrentMap in
      if AuthFile cfg \<noteq> [] \<and> file = None then Some ba
      else case (if AuthFile cfg \<noteq> [] then AddFromFile file ba else Some (0, ba)) of
          None \<Rightarrow> None
        | Some (_, ba1) \<Rightarrow>
            if length (AuthList cfg) > 0 then map_option snd (BasicAuthAdd (AuthList cfg) ba1) else Some ba1)"

text \<open>\<open>splitHostPort\<close> and \<open>lookupIP\<close> (addresses in textual form) are the network library's.\<close>

definition IsDeadLoop ::
  "(string \<Rightarrow> (string \<times> string) option) \<Rightarrow> (string \<Rightarrow> string list option) \<Rightarrow> string list option \<Rightarrow> string \<Rightarrow> string \<Rightarrow> bool" where
  "IsDeadLoop splitHostPort lookupIP interfaces inLocalAddr host =
     (case splitHostPort inLocalAddr of
        None \<Rightarrow> False
      | Some (inIP, inPort) \<Rightarrow>
     (case splitHostPort host of
        None \<Rightarrow> False
      | Some (outDomain, outPort) \<Rightarrow>
          if inPort \<noteq> outPort then False
          else let outIPs = (case lookupIP outDomain of None \<Rightarrow> [] | Some ips \<Rightarrow> ips) in
            inIP \<in> set outIPs \<or>
            (case interfaces of None \<Rightarrow> False | Some locals \<Rightarrow> list_ex (\<lambda>l. l \<in> set outIPs) locals)))"

text \<open>The route of a decoded request: through the parent proxy or directly.\<close>

definition chooseRoute ::
  "(string \<Rightarrow> string option) \<Rightarrow> HTTPArgs \<Rightarrow> Checker \<Rightarrow> HTTPRequest \<Rightarrow> (bool \<times> Checker) option" where
  "chooseRoute hostname cfg c req =
     (if Parent cfg = [] then Some (False, c)
      else if Always cfg then Some (True, c)
      else case (if IsHTTPSReq req then CheckerAdd hostname c (RHost req) True (RMethod req) [] []
                 else CheckerAdd hostname c (RHost req) False (RMethod req) (RURL req) (map of_char (HeadBuf req))) of
          None \<Rightarrow> None
        | Some c' \<Rightarrow> map_option (\<lambda>(b, _, _). (b, c')) (IsBlocked hostname c' (RHost req)))"

section \<open>Host lists\<close>

lemma Has_wf: "cm_wf m \<Longrightarrow> Has m k = Some (cm_abs m k \<noteq> None)"
  by (simp add: Has_def cm_abs_def)

lemma joinC_snoc_front: "ds \<noteq> [] \<Longrightarrow> joinC c (s # ds) = s @ c # joinC c ds"
  by (cases ds) simp_all

lemma domainLoop_spec:
  "cm_wf m \<Longrightarrow> tail \<noteq> [] \<Longrightarrow>
   domainLoop m subs (joinC (CHR ''.'') tail) =
     Some (\<exists>i < length subs. cm_abs m (joinC (CHR ''.'') (rev (take (Suc i) subs) @ tail)) \<noteq> None)"
proof (induction subs arbitrary: tail)
  case (Cons s subs)
  let ?d = "joinC (CHR ''.'') (s # tail)"
  have d: "s @ ''.'' @ joinC (CHR ''.'') tail = ?d" using Cons.prems(2) by (simp add: joinC_snoc_front)
  have split: "(\<exists>i < length (s # subs). P i) \<longleftrightarrow> P 0 \<or> (\<exists>i < length subs. P (Suc i))" for P
    by (auto simp: less_Suc_eq_0_disj)
  show ?case
  proof (cases "cm_abs m ?d = None")
    case True
    have "domainLoop m (s # subs) (joinC (CHR ''.'') tail) = domainLoop m subs ?d"
      unfolding domainLoop.simps Let_def d using Has_wf [OF Cons.prems(1), of ?d] True by simp
    also have "\<dots> = Some (\<exists>i < length subs. cm_abs m (joinC (CHR ''.'') (rev (take (Suc i) subs) @ s # tail)) \<noteq> None)"
      using Cons.IH [OF Cons.prems(1), of "s # tail"] by simp
    finally show ?thesis using True unfolding split by simp
  next
    case False
    then have "domainLoop m (s # subs) (joinC (CHR ''.'') tail) = Some True"
      unfolding domainLoop.simps Let_def d using Has_wf [OF Cons.prems(1), of ?d] by simp
    then show ?thesis using False unfolding split by simp
  qed
qed simp

text \<open>The suffixes of a host name with at least two labels.\<close>

definition domainsOf :: "string \<Rightarrow> string set" where
  "domainsOf h = {joinC (CHR ''.'') (drop i ls) | i ls. ls = splitC (CHR ''.'') h \<and> i + 1 < length ls}"

lemma domainIsInMap_spec:
  assumes "cm_wf (if blocked then blockedMap c else directMap c)" and "hostname (''http://'' @ address) = Some h"
  shows "domainIsInMap hostname c address blocked =
    Some (\<exists>d \<in> domainsOf h. cm_abs (if blocked then blockedMap c else directMap c) d \<noteq> None)"
proof -
  let ?m = "if blocked then blockedMap c else directMap c" and ?ds = "splitC (CHR ''.'') h"
  let ?n = "length ?ds"
  show ?thesis
  proof (cases "?n > 1")
    case False
    then show ?thesis using assms(2) by (auto simp: domainIsInMap_def domainsOf_def Let_def)
  next
    case True
    have one: "last ?ds = joinC (CHR ''.'') [last ?ds]" by simp
    have dropped: "rev (take (Suc i) (rev (butlast ?ds))) @ [last ?ds] = drop (?n - 2 - i) ?ds" if "i < ?n - 1" for i
    proof -
      have "rev (take (Suc i) (rev (butlast ?ds))) = drop (?n - 1 - Suc i) (butlast ?ds)" by (simp add: rev_take)
      moreover have "drop k (butlast ?ds) @ [last ?ds] = drop k ?ds" if "k \<le> ?n - 1" for k
        using that True by (metis append_butlast_last_id butlast_drop drop_eq_Nil last_drop length_0_conv length_butlast
            less_le_trans linorder_not_le not_one_less_zero diff_less zero_less_one order_less_le_trans)
      ultimately show ?thesis using that by (simp add: numeral_2_eq_2)
    qed
    have loop: "domainLoop ?m (rev (butlast ?ds)) (last ?ds) =
        Some (\<exists>i < ?n - 1. cm_abs ?m (joinC (CHR ''.'') (rev (take (Suc i) (rev (butlast ?ds))) @ [last ?ds])) \<noteq> None)"
      using domainLoop_spec [OF assms(1), of "[last ?ds]" "rev (butlast ?ds)"] by simp
    have "(\<exists>i < ?n - 1. cm_abs ?m (joinC (CHR ''.'') (rev (take (Suc i) (rev (butlast ?ds))) @ [last ?ds])) \<noteq> None) \<longleftrightarrow>
        (\<exists>i < ?n - 1. cm_abs ?m (joinC (CHR ''.'') (drop (?n - 2 - i) ?ds)) \<noteq> None)"
      using dropped by (metis (no_types, lifting))
    also have "\<dots> \<longleftrightarrow> (\<exists>j. j + 1 < ?n \<and> cm_abs ?m (joinC (CHR ''.'') (drop j ?ds)) \<noteq> None)"
    proof
      assume "\<exists>i < ?n - 1. cm_abs ?m (joinC (CHR ''.'') (drop (?n - 2 - i) ?ds)) \<noteq> None"
      then show "\<exists>j. j + 1 < ?n \<and> cm_abs ?m (joinC (CHR ''.'') (drop j ?ds)) \<noteq> None"
        using True by (metis Suc_diff_Suc Suc_lessI add.commute diff_less_Suc le_less_trans less_diff_conv not_less_eq numeral_2_eq_2 plus_1_eq_Suc diff_Suc_Suc diff_le_self minus_nat.diff_0)
    next
      assume "\<exists>j. j + 1 < ?n \<and> cm_abs ?m (joinC (CHR ''.'') (drop j ?ds)) \<noteq> None"
      then obtain j where j: "j + 1 < ?n" "cm_abs ?m (joinC (CHR ''.'') (drop j ?ds)) \<noteq> None" by blast
      then have "?n - 2 - (?n - 2 - j) = j" "?n - 2 - j < ?n - 1" by auto
      then show "\<exists>i < ?n - 1. cm_abs ?m (joinC (CHR ''.'') (drop (?n - 2 - i) ?ds)) \<noteq> None" using j(2) by metis
    qed
    finally show ?thesis
      using assms(2) True loop by (auto simp: domainIsInMap_def domainsOf_def Let_def)
  qed
qed

text \<open>A host is on a list exactly when it or a parent domain is: for a well-formed table and a
  parsable address, \<open>domainIsInMap\<close> answers whether some suffix of the host name with at
  least two labels is in the table, and it never fails.\<close>

theorem host_list_membership:
  assumes "cm_wf (blockedMap c)" and "cm_wf (directMap c)" and "hostname (''http://'' @ address) = Some h"
  shows "domainIsInMap hostname c address True = Some (\<exists>d \<in> domainsOf h. cm_abs (blockedMap c) d \<noteq> None) \<and>
    domainIsInMap hostname c address False = Some (\<exists>d \<in> domainsOf h. cm_abs (directMap c) d \<noteq> None)"
  using domainIsInMap_spec [of True c hostname address h] domainIsInMap_spec [of False c hostname address h] assms
  by simp

definition exampleChecker :: Checker where
  "exampleChecker = \<lparr>cdata = NewConcurrentMap, blockedMap = the (CSet NewConcurrentMap ''b.com'' True),
     directMap = NewConcurrentMap\<rparr>"

lemma exampleChecker_maps:
  "cm_wf (blockedMap exampleChecker)" "cm_abs (blockedMap exampleChecker) = [''b.com'' \<mapsto> True]"
  "cm_wf (directMap exampleChecker)" "cm_abs (directMap exampleChecker) = Map.empty"
proof -
  obtain m where m: "CSet NewConcurrentMap ''b.com'' True = Some m" "cm_wf m" "cm_abs m = [''b.com'' \<mapsto> True]"
    using cm.insert_ok [OF cm.empty_ok(1), of "''b.com''" True] by (auto simp: cm_abs_New)
  then show "cm_wf (blockedMap exampleChecker)" "cm_abs (blockedMap exampleChecker) = [''b.com'' \<mapsto> True]"
    by (simp_all add: exampleChecker_def)
  show "cm_wf (directMap exampleChecker)" "cm_abs (directMap exampleChecker) = Map.empty"
    by (simp_all add: exampleChecker_def NewConcurrentMap_wf cm_abs_New)
qed

lemma example_domains: "''b.com'' \<in> domainsOf ''a.b.com''"
  unfolding domainsOf_def by (rule CollectI, rule exI [of _ 1]) simp

theorem host_list_membership_witness:
  "domainIsInMap (\<lambda>_. Some ''a.b.com'') exampleChecker ''a.b.com'' True = Some True \<and>
   domainIsInMap (\<lambda>_. Some ''a.b.com'') exampleChecker ''a.b.com'' False = Some False"
proof -
  have "(\<lambda>_ :: string. Some ''a.b.com'') (''http://'' @ ''a.b.com'') = Some ''a.b.com''" by simp
  from host_list_membership [OF exampleChecker_maps(1,3), where hostname = "\<lambda>_. Some ''a.b.com''", OF this]
  show ?thesis using example_domains by (auto simp: exampleChecker_maps)
qed

text \<open>A host that keeps failing is checked for ever: the second half of the stop condition of
  \<open>isNeedCheck\<close> repeats the test of the first instead of testing that failures prevail, so an
  unlisted host whose failures are at least its successes is checked again whatever their
  number.\<close>

theorem failing_host_checked_forever:
  assumes "FailCount item \<ge> SuccessCount item"
    and "domainIsInMap hostname c (Host item) False = Some False" and "domainIsInMap hostname c (Host item) True = Some False"
  shows "isNeedCheck hostname c item = Some True"
proof -
  have "\<not> SuccessCount item > FailCount item" using assms(1) by simp
  then show ?thesis using assms(2,3) by (simp add: isNeedCheck_def)
qed

theorem failing_host_checked_forever_witness:
  "isNeedCheck (\<lambda>_. Some ''x'') exampleChecker
     \<lparr>IsHTTPS = True, Method = [], URL = [], Domain = [], Host = ''x'', Data = [], SuccessCount = 0, FailCount = 1000000\<rparr> = Some True"
proof -
  have "domainIsInMap (\<lambda>_. Some ''x'') exampleChecker ''x'' b = Some False" for b by (simp add: domainIsInMap_def)
  then show ?thesis
    using failing_host_checked_forever [of "\<lparr>IsHTTPS = True, Method = [], URL = [], Domain = [], Host = ''x'', Data = [], SuccessCount = 0, FailCount = 1000000\<rparr>"
        "\<lambda>_. Some ''x''" exampleChecker] by simp
qed

section \<open>Accounts\<close>

definition userpass :: "string \<times> string \<Rightarrow> string" where
  "userpass up = fst up @ '':'' @ snd up"

lemma splitC_userpass: "CHR '':'' \<notin> set u \<Longrightarrow> CHR '':'' \<notin> set p \<Longrightarrow> splitC (CHR '':'') (userpass (u, p)) = [u, p]"
  by (simp add: userpass_def splitC_append splitC_single)

lemma addPairs_users:
  assumes "\<forall>up \<in> set ups. CHR '':'' \<notin> set (fst up) \<and> CHR '':'' \<notin> set (snd up)" and "cm_wf ba"
  shows "\<exists>ba'. addPairs Some (map userpass ups) ba n = Some (n + length ups, ba') \<and> cm_wf ba' \<and>
    cm_abs ba' = cm_abs ba ++ map_of (rev ups)"
  using assms
proof (induction ups arbitrary: ba n)
  case (Cons up ups)
  obtain u p where up: "up = (u, p)" by (cases up)
  obtain ba1 where ba1: "CSet ba u p = Some ba1" "cm_wf ba1" "cm_abs ba1 = (cm_abs ba)(u \<mapsto> p)"
    using cm.insert_ok [OF Cons.prems(2)] by blast
  obtain ba' where ba': "addPairs Some (map userpass ups) ba1 (n + 1) = Some (n + 1 + length ups, ba')" "cm_wf ba'"
    "cm_abs ba' = cm_abs ba1 ++ map_of (rev ups)" using Cons.IH [OF _ ba1(2)] Cons.prems(1) by fastforce
  have "splitC (CHR '':'') (userpass up) = [u, p]" using Cons.prems(1) by (simp add: up splitC_userpass)
  then show ?case using ba1 ba' by (auto simp: up map_add_def fun_eq_iff split: option.splits)
qed simp

lemma Check_userpass:
  assumes "cm_wf ba" and "CHR '':'' \<notin> set u" and "CHR '':'' \<notin> set p" and "trimCut (userpass (u, p)) '' '' = userpass (u, p)"
  shows "Check ba (userpass (u, p)) = Some (cm_abs ba u = Some p)"
  using assms cm.lookup_ok [OF assms(1), of u] by (simp add: Check_def splitC_userpass) (auto split: option.splits)

text \<open>Authentication accepts exactly the configured accounts: after \<open>Add\<close> of a list of
  \<open>user:password\<close> entries (without further colons) to an empty table, all are counted, and
  \<open>Check\<close> accepts a credential without surrounding blanks if and only if its password is the
  last one given for its user.\<close>

theorem accounts_accepted_exactly:
  assumes "\<forall>up \<in> set ups. CHR '':'' \<notin> set (fst up) \<and> CHR '':'' \<notin> set (snd up)"
    and "CHR '':'' \<notin> set u" and "CHR '':'' \<notin> set p"
    and "trimCut (userpass (u, p)) '' '' = userpass (u, p)"
  shows "\<exists>ba. BasicAuthAdd (map userpass ups) NewConcurrentMap = Some (length ups, ba) \<and>
    Check ba (userpass (u, p)) = Some (map_of (rev ups) u = Some p)"
proof -
  obtain ba where "BasicAuthAdd (map userpass ups) NewConcurrentMap = Some (length ups, ba)" "cm_wf ba"
    "cm_abs ba = map_of (rev ups)"
    using addPairs_users [OF assms(1) NewConcurrentMap_wf, of 0] by (auto simp: BasicAuthAdd_def cm_abs_New)
  then show ?thesis using Check_userpass [OF _ assms(2-4)] by auto
qed

theorem accounts_accepted_exactly_witness:
  "\<exists>ba. BasicAuthAdd [''bob:s3'', ''bob:s4''] NewConcurrentMap = Some (2, ba) \<and>
     Check ba ''bob:s3'' = Some False"
proof -
  have "trimCut (userpass (''bob'', ''s3'')) '' '' = userpass (''bob'', ''s3'')" by code_simp
  from accounts_accepted_exactly [OF _ _ _ this, of "[(''bob'', ''s3''), (''bob'', ''s4'')]"]
  show ?thesis by (simp add: userpass_def numeral_2_eq_2)
qed

text \<open>A commented-out account of the authentication file is live: \<open>AddFromFile\<close> asks whether
  \<open>#\<close> starts with the line instead of the converse, so the line \<open>#user:password\<close> adds the
  user \<open>#user\<close> with that password.\<close>

theorem commented_account_accepted:
  assumes "CHR '':'' \<notin> set u" and "CHR '':'' \<notin> set p" and "CHR 0x0A \<notin> set (u @ p)" and "CHR 0x0D \<notin> set (u @ p)"
    and "trimCut (userpass (''#'' @ u, p)) '' '' = userpass (''#'' @ u, p)"
  shows "\<exists>ba. AddFromFile (Some (userpass (''#'' @ u, p))) NewConcurrentMap = Some (1, ba) \<and>
    Check ba (userpass (''#'' @ u, p)) = Some True"
proof -
  let ?l = "userpass (''#'' @ u, p)"
  have nocr: "filter (\<lambda>c. c \<noteq> CHR 0x0D) ?l = ?l" by (rule filter_True) (use assms(4) in \<open>auto simp: userpass_def\<close>)
  have line: "splitC (CHR 0x0A) ?l = [?l]" using assms(3) by (intro splitC_single) (auto simp: userpass_def)
  have keep: "fileLine ?l = Some ?l" using assms(5) by (simp add: fileLine_def userpass_def hasPrefix_def)
  have u: "CHR '':'' \<notin> set (''#'' @ u)" using assms(1) by simp
  obtain ba where ba: "CSet NewConcurrentMap (''#'' @ u) p = Some ba" "cm_wf ba" "cm_abs ba = [''#'' @ u \<mapsto> p]"
    using cm.insert_ok [OF cm.empty_ok(1), of "''#'' @ u" p] by (auto simp: cm_abs_New)
  have "AddFromFile (Some ?l) NewConcurrentMap = Some (1, ba)"
    using keep ba(1) splitC_userpass [OF u assms(2)] nocr line by (simp add: AddFromFile_def)
  then show ?thesis using Check_userpass [OF ba(2) u assms(2,5)] ba(3) by auto
qed

theorem commented_account_accepted_witness:
  "\<exists>ba. AddFromFile (Some ''#old:pw'') NewConcurrentMap = Some (1, ba) \<and> Check ba ''#old:pw'' = Some True"
proof -
  have "trimCut (userpass (''#'' @ ''old'', ''pw'')) '' '' = userpass (''#'' @ ''old'', ''pw'')" by code_simp
  from commented_account_accepted [OF _ _ _ _ this] show ?thesis by (simp add: userpass_def)
qed

section \<open>Requests\<close>

lemma HTTPReq_authenticated:
  "HTTPReq urlHost True ba req = Inr r \<Longrightarrow> BasicAuthCheck ba req = None"
  by (auto simp: HTTPReq_def split: option.splits)

lemma BasicAuthCheck_None:
  "BasicAuthCheck ba req = None \<Longrightarrow> \<exists>a scheme cred user. getHeader (HeadBuf req) ''Authorization'' = Some a \<and>
     Go_Prelude.fields a = [scheme, cred] \<and> decodeString cred = Some user \<and> Check ba (charsOf user) = Some True"
  by (auto simp: BasicAuthCheck_def split: option.splits list.splits bool.splits)

text \<open>A plain request passes an authenticating proxy only with an accepted credential: when
  authentication is on and \<open>NewHTTPRequest\<close> accepts a request whose method is not
  \<open>CONNECT\<close>, its head has an \<open>Authorization\<close> header of two fields whose second decodes
  to a credential that \<open>Check\<close> accepts.\<close>

theorem plain_request_authenticated:
  assumes "NewHTTPRequest urlHost True ba (Inr buf) = Inr req" and "\<not> IsHTTPSReq req"
  shows "\<exists>a scheme cred user. getHeader buf ''Authorization'' = Some a \<and>
    Go_Prelude.fields a = [scheme, cred] \<and> decodeString cred = Some user \<and> Check ba (charsOf user) = Some True"
proof -
  obtain meth hou rest where line: "Go_Prelude.fields (takeWhile (\<lambda>c. c \<noteq> CHR 0x0A) buf) = meth # hou # rest"
    using assms(1) by (auto simp: NewHTTPRequest_def split: if_splits list.splits)
  let ?req = "\<lparr>HeadBuf = buf, RHost = [], RMethod = toUpper meth, RURL = [], hostOrURL = hou\<rparr>"
  have same: "RMethod (HTTPSReq r) = RMethod r" for r by (simp add: HTTPSReq_def addPortIfNot_def Let_def)
  have "\<not> IsHTTPSReq ?req"
    using assms line same [of ?req] by (auto simp: NewHTTPRequest_def Let_def IsHTTPSReq_def split: if_splits)
  then have "HTTPReq urlHost True ba ?req = Inr req"
    using assms(1) line by (auto simp: NewHTTPRequest_def Let_def split: if_splits)
  from BasicAuthCheck_None [OF HTTPReq_authenticated [OF this]] show ?thesis by simp
qed

definition exampleRequest :: string where
  "exampleRequest = ''GET http://h/'' @ crlf @ ''Authorization: Basic Ym9iOnMz'' @ crlf @ crlf"

definition exampleAccounts :: BasicAuth where
  "exampleAccounts = the (CSet NewConcurrentMap ''bob'' ''s3'')"

lemma exampleAccounts_ok: "cm_wf exampleAccounts" "cm_abs exampleAccounts = [''bob'' \<mapsto> ''s3'']"
proof -
  obtain m where m: "CSet NewConcurrentMap ''bob'' ''s3'' = Some m" "cm_wf m" "cm_abs m = [''bob'' \<mapsto> ''s3'']"
    using cm.insert_ok [OF cm.empty_ok(1), of "''bob''" "''s3''"] by (auto simp: cm_abs_New)
  then show "cm_wf exampleAccounts" "cm_abs exampleAccounts = [''bob'' \<mapsto> ''s3'']" by (simp_all add: exampleAccounts_def)
qed

lemma exampleAccounts_Check: "Check exampleAccounts ''bob:s3'' = Some True"
proof -
  have "trimCut (userpass (''bob'', ''s3'')) '' '' = userpass (''bob'', ''s3'')" by code_simp
  from Check_userpass [OF exampleAccounts_ok(1) _ _ this] show ?thesis by (simp add: exampleAccounts_ok userpass_def)
qed

lemma example_accepted:
  "\<exists>req. NewHTTPRequest (\<lambda>_. Some ''h'') True exampleAccounts (Inr exampleRequest) = Inr req \<and> \<not> IsHTTPSReq req"
proof -
  have head: "getHeader exampleRequest ''Authorization'' = Some ''Basic Ym9iOnMz''" by code_simp
  have parts: "Go_Prelude.fields ''Basic Ym9iOnMz'' = [''Basic'', ''Ym9iOnMz'']"
    "map_option charsOf (decodeString ''Ym9iOnMz'') = Some ''bob:s3''"
    "Go_Prelude.fields (takeWhile (\<lambda>c. c \<noteq> CHR 0x0A) exampleRequest) = [''GET'', ''http://h/'']"
    "toUpper ''GET'' = ''GET''" "CHR 0x0A \<in> set exampleRequest" by code_simp+
  obtain user where user: "decodeString ''Ym9iOnMz'' = Some user" "charsOf user = ''bob:s3''" using parts(2) by auto
  have "BasicAuthCheck exampleAccounts \<lparr>HeadBuf = exampleRequest, RHost = [], RMethod = ''GET'', RURL = [], hostOrURL = ''http://h/''\<rparr> = None"
    by (simp add: BasicAuthCheck_def head parts user exampleAccounts_Check)
  then show ?thesis
    by (simp add: NewHTTPRequest_def parts IsHTTPSReq_def HTTPReq_def getHTTPURL_def addPortIfNot_def Let_def)
qed

theorem plain_request_authenticated_witness:
  "\<exists>cred user. decodeString cred = Some user \<and> Check exampleAccounts (charsOf user) = Some True"
proof -
  obtain req where "NewHTTPRequest (\<lambda>_. Some ''h'') True exampleAccounts (Inr exampleRequest) = Inr req" "\<not> IsHTTPSReq req"
    using example_accepted by blast
  from plain_request_authenticated [OF this] show ?thesis by blast
qed

text \<open>\<open>CONNECT\<close> bypasses authentication: a request whose first line starts with that method
  is accepted with the target it names, whatever the accounts are and without any header, even
  when authentication is on.\<close>

theorem connect_bypasses_authentication:
  assumes "CHR 0x0A \<in> set buf" and "Go_Prelude.fields (takeWhile (\<lambda>c. c \<noteq> CHR 0x0A) buf) = meth # target # rest"
    and "toUpper meth = ''CONNECT''"
  shows "\<exists>req. NewHTTPRequest urlHost True ba (Inr buf) = Inr req \<and> IsHTTPSReq req \<and> hostOrURL req = target \<and>
    RHost req \<in> {target, target @ '':443''}"
  using assms by (auto simp: NewHTTPRequest_def Let_def IsHTTPSReq_def HTTPSReq_def addPortIfNot_def)

theorem connect_bypasses_authentication_witness:
  "\<exists>req. NewHTTPRequest (\<lambda>_. None) True NewConcurrentMap (Inr (''CONNECT h:22'' @ crlf)) = Inr req \<and> IsHTTPSReq req"
proof -
  have line: "Go_Prelude.fields (takeWhile (\<lambda>c. c \<noteq> CHR 0x0A) (''CONNECT h:22'' @ crlf)) = [''CONNECT'', ''h:22'']"
    "toUpper ''CONNECT'' = ''CONNECT''" "CHR 0x0A \<in> set (''CONNECT h:22'' @ crlf)" by code_simp+
  from connect_bypasses_authentication [OF line(3,1,2)] show ?thesis by blast
qed

text \<open>A short malformed request panics: when the first read brings fewer than fifty bytes and
  no line end, or a first line with fewer than two fields, building the error message slices
  past the end of the buffer.\<close>

theorem short_request_panics:
  assumes "length buf < 50"
    and "CHR 0x0A \<notin> set buf \<or> length (Go_Prelude.fields (takeWhile (\<lambda>c. c \<noteq> CHR 0x0A) buf)) < 2"
  shows "NewHTTPRequest urlHost auth ba (Inr buf) = Inl RPanic"
  using assms by (auto simp: NewHTTPRequest_def quote50_def split: list.splits)

theorem short_request_panics_witness:
  "NewHTTPRequest (\<lambda>_. None) False NewConcurrentMap (Inr ''hello'') = Inl RPanic"
  by (rule short_request_panics) code_simp+

end
