(* ===== verification/Stream_Utils.thy ===== *)
theory Stream_Utils
  imports Std_Copy
begin

text \<open>
  The stream utilities of \<open>utils/ioutil.go\<close>, \<open>utils/functions.go\<close> and \<open>utils/io-limiter.go\<close>:
  the writer that skips and limits, the reader that skips, the writer with a deadline, the writer
  that writes at least once, the relay loop \<open>ioCopy\<close> with \<open>IoBind\<close>, the framing of UDP packets
  and the reading of tar archives. Readers are the scripts and writers the functions of
  \<open>Std_Copy\<close>; a Go \<open>int64\<close> counter is an integer, a run-time panic the value \<open>None\<close>.
\<close>

section \<open>Writers\<close>

subsection \<open>LimitWriter\<close>

record LimitWriter =
  skipBytes :: int
  wLimit :: int

definition LimitedWriter :: "int \<Rightarrow> int \<Rightarrow> LimitWriter" where
  "LimitedWriter skip limit = \<lparr>skipBytes = skip, wLimit = limit\<rparr>"

text \<open>A negative limit cuts the slice at a negative index and panics.\<close>

definition LimitWrite ::
  "'w writer \<Rightarrow> LimitWriter \<Rightarrow> 'w \<Rightarrow> byte list \<Rightarrow> ((nat \<times> string option) \<times> LimitWriter \<times> 'w) option" where
  "LimitWrite uw lw w p0 =
     (let n = length p0 in
      if skipBytes lw > 0 \<and> skipBytes lw \<ge> int n
      then Some ((n, None), lw\<lparr>skipBytes := skipBytes lw - int n\<rparr>, w)
      else let p = (if skipBytes lw > 0 then drop (nat (skipBytes lw)) p0 else p0);
               lw1 = (if skipBytes lw > 0 then lw\<lparr>skipBytes := 0\<rparr> else lw)
           in if wLimit lw1 = 0 then Some ((n, None), lw1, w)
              else if wLimit lw1 < int (length p) then
                (if wLimit lw1 < 0 then None
                 else case uw w (take (nat (wLimit lw1)) p) of ((n1, err), w') \<Rightarrow>
                   Some ((n, err), lw1\<lparr>wLimit := wLimit lw1 - int n1\<rparr>, w'))
              else case uw w p of ((n1, err), w') \<Rightarrow>
                Some ((n, err), lw1\<lparr>wLimit := wLimit lw1 - int n1\<rparr>, w'))"

text \<open>A sequence of writes, stopping at the first error as \<open>io.Copy\<close> does.\<close>

fun limitWrites :: "'w writer \<Rightarrow> LimitWriter \<Rightarrow> 'w \<Rightarrow> byte list list \<Rightarrow> (LimitWriter \<times> 'w) option" where
  "limitWrites uw lw w [] = Some (lw, w)"
| "limitWrites uw lw w (p # ps) =
     (case LimitWrite uw lw w p of
        None \<Rightarrow> None
      | Some ((n, None), lw', w') \<Rightarrow> limitWrites uw lw' w' ps
      | Some ((n, Some e), lw', w') \<Rightarrow> Some (lw', w'))"

subsection \<open>WriteOnCloser and DeadlineWriter\<close>

text \<open>The underlying writer may be a closer as well, with the error of closing it.\<close>

definition WocWrite :: "'w writer \<Rightarrow> bool \<Rightarrow> 'w \<Rightarrow> byte list \<Rightarrow> (nat \<times> string option) \<times> bool \<times> 'w" where
  "WocWrite uw hasWritten w p = (case uw w p of (r, w') \<Rightarrow> (r, True, w'))"

definition WocClose ::
  "'w writer \<Rightarrow> ('w \<Rightarrow> string option \<times> 'w) option \<Rightarrow> bool \<Rightarrow> 'w \<Rightarrow> string option \<times> bool \<times> 'w" where
  "WocClose uw closer hasWritten w =
     (let (err, hw, w1) = (if \<not> hasWritten
            then (case WocWrite uw hasWritten w [] of ((_, e), hw, w1) \<Rightarrow> (e, hw, w1))
            else (None, hasWritten, w))
      in case err of
           Some e \<Rightarrow> (Some e, hw, w1)
         | None \<Rightarrow> (case closer of None \<Rightarrow> (None, hw, w1) | Some c \<Rightarrow> (case c w1 of (e, w2) \<Rightarrow> (e, hw, w2))))"

text \<open>A write races with a timer: \<open>Some\<close> result in time, or none. The write itself is carried out
  either way, by the goroutine.\<close>

definition DwWrite ::
  "'w writer \<Rightarrow> bool \<Rightarrow> string option \<Rightarrow> 'w \<Rightarrow> byte list \<Rightarrow> (nat \<times> string option) \<times> string option \<times> 'w" where
  "DwWrite uw inTime err w buf =
     (case err of
        Some e \<Rightarrow> ((0, Some e), err, w)
      | None \<Rightarrow>
          (case uw w buf of ((n, e), w') \<Rightarrow>
             if inTime then ((n, e), e, w')
             else ((0, Some ''context canceled''), Some ''context canceled'', w')))"

fun dwWrites :: "'w writer \<Rightarrow> string option \<Rightarrow> 'w \<Rightarrow> (bool \<times> byte list) list \<Rightarrow> (nat \<times> string option) list \<times> 'w" where
  "dwWrites uw err w [] = ([], w)"
| "dwWrites uw err w ((inTime, buf) # xs) =
     (case DwWrite uw inTime err w buf of (r, err', w') \<Rightarrow>
        case dwWrites uw err' w' xs of (rs, w'') \<Rightarrow> (r # rs, w''))"

section \<open>Readers\<close>

text \<open>A reader: given the room of the caller's buffer, some bytes and possibly an error.\<close>

type_synonym 's reader = "nat \<Rightarrow> 's \<Rightarrow> (byte list \<times> ioerr option) \<times> 's"

subsection \<open>SkipReader\<close>

text \<open>Bytes are read and dropped until enough are skipped; then the caller's read is done. An error
  while skipping ends the read. The buffer used for skipping never grows again (\<open>l\<close>).\<close>

partial_function (option) skipLoop ::
  "'s reader \<Rightarrow> nat \<Rightarrow> nat \<Rightarrow> int \<Rightarrow> 's \<Rightarrow> ((byte list \<times> ioerr option) \<times> int \<times> 's) option" where
  "skipLoop rd len l skipCount src =
     (if skipCount > 0 then
        (let l' = (if int l > skipCount then nat skipCount else l)
         in case rd l' src of ((c, e), src') \<Rightarrow>
              (case e of
                 Some err \<Rightarrow> Some (([], Some err), skipCount, src')
               | None \<Rightarrow> skipLoop rd len l' (skipCount - int (length c)) src'))
      else (case rd len src of (r, src') \<Rightarrow> Some (r, skipCount, src')))"

definition SkipRead ::
  "'s reader \<Rightarrow> nat \<Rightarrow> int \<Rightarrow> 's \<Rightarrow> ((byte list \<times> ioerr option) \<times> int \<times> 's) option" where
  "SkipRead rd len skipCount src =
     (if len = 0 then Some (([], None), skipCount, src) else skipLoop rd len len skipCount src)"

subsection \<open>Rate limiting\<close>

text \<open>\<open>rate.Limiter.WaitN\<close> is a parameter: it may fail, and changes the limiter. A reader without a
  limiter is the wrapped one.\<close>

type_synonym 'l waitN = "'l \<Rightarrow> nat \<Rightarrow> string option \<times> 'l"

definition LimitedRead :: "'l waitN \<Rightarrow> 's reader \<Rightarrow> ('l option \<times> 's) reader" where
  "LimitedRead waitN rd room s =
     (case s of (lim, src) \<Rightarrow>
        (case lim of
           None \<Rightarrow> (case rd room src of (r, src') \<Rightarrow> (r, (None, src')))
         | Some l \<Rightarrow>
             (case rd room src of ((c, e), src') \<Rightarrow>
                (case e of
                   Some err \<Rightarrow> ((c, Some err), (Some l, src'))
                 | None \<Rightarrow>
                     (case waitN l (length c) of (we, l') \<Rightarrow>
                        ((c, map_option IOErr we), (Some l', src')))))))"

definition LimitedWrite :: "'l waitN \<Rightarrow> 'w writer \<Rightarrow> ('l option \<times> 'w) writer" where
  "LimitedWrite waitN uw s p =
     (case s of (lim, w) \<Rightarrow>
        (case lim of
           None \<Rightarrow> (case uw w p of (r, w') \<Rightarrow> (r, (None, w')))
         | Some l \<Rightarrow>
             (case uw w p of ((n, e), w') \<Rightarrow>
                (case e of
                   Some err \<Rightarrow> ((n, Some err), (Some l, w'))
                 | None \<Rightarrow>
                     (case waitN l n of (we, l') \<Rightarrow> ((n, we), (Some l', w')))))))"

section \<open>The relay\<close>

text \<open>\<open>ioCopy\<close>: the counts reported to the callback are kept in order.\<close>

datatype copyErr = ReadErr ioerr | WriteErr string | ErrShortWrite

record copyEnd =
  written :: nat
  isSrcErr :: bool
  copyError :: "copyErr option"
  counts :: "nat list"

definition copyBufLen :: nat where "copyBufLen = 32 * 1024"

partial_function (option) ioCopy ::
  "'s reader \<Rightarrow> 'w writer \<Rightarrow> nat \<Rightarrow> nat list \<Rightarrow> 's \<Rightarrow> 'w \<Rightarrow> (copyEnd \<times> 's \<times> 'w) option" where
  "ioCopy rd uw wr cs src sink =
     (case rd copyBufLen src of ((c, er), src') \<Rightarrow>
        (let ((nw, ew), sink') = (if c \<noteq> [] then uw sink c else ((0, None), sink));
             wr' = wr + nw;
             cs' = (if nw > 0 then cs @ [nw] else cs)
         in if c \<noteq> [] \<and> ew \<noteq> None
            then Some (\<lparr>written = wr', isSrcErr = False, copyError = map_option WriteErr ew, counts = cs'\<rparr>, src', sink')
            else if c \<noteq> [] \<and> length c \<noteq> nw
            then Some (\<lparr>written = wr', isSrcErr = False, copyError = Some ErrShortWrite, counts = cs'\<rparr>, src', sink')
            else case er of
                   Some e \<Rightarrow> Some (\<lparr>written = wr', isSrcErr = True, copyError = Some (ReadErr e), counts = cs'\<rparr>, src', sink')
                 | None \<Rightarrow> ioCopy rd uw wr' cs' src' sink'))"

text \<open>\<open>IoBind\<close>: two goroutines relay in the two directions; the first that ends with an error runs
  the callback, through \<open>sync.Once\<close>. \<open>srcFirst\<close> says which of them comes to the \<open>Once\<close> first. A
  rate above zero puts a limiter around both readers. The writers of the two connections are
  parameters; \<open>connWrite\<close> is that of a connection that takes everything.\<close>

fun onceDo :: "bool \<Rightarrow> (bool \<times> copyErr option) list \<Rightarrow> (bool \<times> copyErr) list" where
  "onceDo fired [] = []"
| "onceDo fired ((b, None) # es) = onceDo fired es"
| "onceDo fired ((b, Some e) # es) = (if fired then onceDo True es else (b, e) # onceDo True es)"

record 's conn =
  inp :: 's
  outp :: "byte list"

definition connWrite :: "byte list writer" where
  "connWrite w p = ((length p, None), w @ p)"

definition IoBind ::
  "'l waitN \<Rightarrow> 'l option \<Rightarrow> bool \<Rightarrow> 's reader \<Rightarrow> byte list writer \<Rightarrow> byte list writer \<Rightarrow> 's conn \<Rightarrow> 's conn \<Rightarrow>
     ((bool \<times> copyErr) list \<times> nat list \<times> nat list \<times> 's conn \<times> 's conn) option" where
  "IoBind waitN lim srcFirst rd sinkWrite srcWrite sink src =
     (case ioCopy (LimitedRead waitN rd) sinkWrite 0 [] (lim, inp src) (outp sink) of
        None \<Rightarrow> None
      | Some (e1, (_, sin), dout) \<Rightarrow>
          (case ioCopy (LimitedRead waitN rd) srcWrite 0 [] (lim, inp sink) (outp src) of
             None \<Rightarrow> None
           | Some (e2, (_, din), sout) \<Rightarrow>
               (let ends = [(isSrcErr e1, copyError e1), (isSrcErr e2, copyError e2)]
                in Some (onceDo False (if srcFirst then ends else rev ends), counts e1, counts e2,
                         \<lparr>inp = din, outp = dout\<rparr>, \<lparr>inp = sin, outp = sout\<rparr>))))"

section \<open>UDP packets\<close>

definition putUint16 :: "nat \<Rightarrow> byte list" where
  "putUint16 n = [of_nat n, of_nat (n div 2 ^ 8)]"

definition getUint16 :: "byte list \<Rightarrow> nat" where
  "getUint16 bs = unat (bs ! 0) + unat (bs ! 1) * 2 ^ 8"

definition UDPPacket :: "byte list \<Rightarrow> byte list \<Rightarrow> byte list" where
  "UDPPacket srcAddr packet =
     putUint16 (length srcAddr) @ srcAddr @ putUint16 (length packet) @ packet"

text \<open>\<open>bufio.Reader\<close>: what is buffered, the error kept for later, and the source. A read returns
  what is buffered or does at most one read of the source.\<close>

record bufio =
  buffered :: "byte list"
  pendingErr :: "ioerr option"
  under :: script

definition bufioSize :: nat where "bufioSize = 4096"

definition bufioRead :: "nat \<Rightarrow> bufio \<Rightarrow> (byte list \<times> ioerr option) \<times> bufio" where
  "bufioRead len b =
     (if len = 0 then
        (if buffered b \<noteq> [] then (([], None), b) else (([], pendingErr b), b\<lparr>pendingErr := None\<rparr>))
      else if buffered b \<noteq> [] then
        ((take len (buffered b), None), b\<lparr>buffered := drop len (buffered b)\<rparr>)
      else if pendingErr b \<noteq> None then (([], pendingErr b), b\<lparr>pendingErr := None\<rparr>)
      else if len \<ge> bufioSize then
        (case readSome len (under b) of ((c, e), src') \<Rightarrow> ((c, e), b\<lparr>under := src'\<rparr>))
      else
        (case readSome bufioSize (under b) of ((c, e), src') \<Rightarrow>
           if c = [] then (([], e), b\<lparr>under := src'\<rparr>)
           else ((take len c, None), b\<lparr>buffered := drop len c, pendingErr := e, under := src'\<rparr>)))"

text \<open>\<open>io.ReadFull\<close> of the two bytes of a length, as \<open>binary.Read\<close> does it.\<close>

partial_function (option) readFull :: "nat \<Rightarrow> byte list \<Rightarrow> bufio \<Rightarrow> ((byte list \<times> ioerr option) \<times> bufio) option" where
  "readFull need got b =
     (if need \<le> length got then Some ((got, None), b)
      else (case bufioRead (need - length got) b of ((c, e), b') \<Rightarrow>
        (case e of
           None \<Rightarrow> readFull need (got @ c) b'
         | Some err \<Rightarrow>
             if need \<le> length (got @ c) then Some ((got @ c, None), b')
             else if got @ c \<noteq> [] \<and> err = EOF then Some ((got @ c, Some (IOErr ''unexpected EOF'')), b')
             else Some ((got @ c, Some err), b'))))"

text \<open>A read of \<open>n\<close> bytes that returns fewer leaves zeros behind in the freshly made buffer.\<close>

definition padTo :: "nat \<Rightarrow> byte list \<Rightarrow> byte list" where
  "padTo n bs = bs @ replicate (n - length bs) 0"

definition ReadUDPPacket :: "script \<Rightarrow> ((byte list \<times> byte list \<times> ioerr option) \<times> script) option" where
  "ReadUDPPacket conn =
     (case readFull 2 [] \<lparr>buffered = [], pendingErr = None, under = conn\<rparr> of
        None \<Rightarrow> None
      | Some ((al, Some e), b) \<Rightarrow> Some (([], [], Some e), under b)
      | Some ((al, None), b) \<Rightarrow>
          (case bufioRead (getUint16 al) b of
             ((addr, Some e), b1) \<Rightarrow> Some (([], [], Some e), under b1)
           | ((addr, None), b1) \<Rightarrow>
               if length addr \<noteq> getUint16 al then Some (([], [], None), under b1)
               else (case readFull 2 [] b1 of
                       None \<Rightarrow> None
                     | Some ((bl, Some e), b2) \<Rightarrow> Some ((addr, [], Some e), under b2)
                     | Some ((bl, None), b2) \<Rightarrow>
                         (case bufioRead (getUint16 bl) b2 of ((p, e), b3) \<Rightarrow>
                            Some ((addr, padTo (getUint16 bl) p, e), under b3)))))"

section \<open>Tar archives\<close>

text \<open>The file system, \<open>gzip.NewReader\<close> and the tar reader are parameters: a path opens to its bytes,
  compressed bytes give the plain ones, and bytes give the entries of the archive with the error that
  ends it (none for a proper end).\<close>

record tarEntry =
  hdrName :: string
  hdrSize :: int
  hdrModTime :: int
  isDir :: bool
  body :: "byte list"

record tarEnv =
  os_Open :: "string \<Rightarrow> byte list option"
  gunzip :: "byte list \<Rightarrow> byte list option"
  entries :: "byte list option \<Rightarrow> tarEntry list \<times> string option"

record FileItem =
  Name :: string
  Size :: int
  CreateTime :: int

text \<open>What cannot be unpacked is read as it is; a file that cannot be opened gives a reader that
  always fails.\<close>

definition tarReader :: "tarEnv \<Rightarrow> string \<Rightarrow> tarEntry list \<times> string option" where
  "tarReader env path =
     (case os_Open env path of
        None \<Rightarrow> entries env None
      | Some bs \<Rightarrow> entries env (case gunzip env bs of Some z \<Rightarrow> Some z | None \<Rightarrow> Some bs))"

text \<open>\<open>ListFiles\<close>: an error of the archive other than its end leaves a nil header, which is read:
  a panic.\<close>

definition itemOf :: "tarEntry \<Rightarrow> FileItem" where
  "itemOf h = \<lparr>Name = hdrName h, Size = hdrSize h, CreateTime = hdrModTime h\<rparr>"

definition ListFiles :: "tarEnv \<Rightarrow> string \<Rightarrow> (string + FileItem list) option" where
  "ListFiles env path =
     (case os_Open env path of
        None \<Rightarrow> Some (Inl (''open '' @ path @ '': no such file or directory''))
      | Some _ \<Rightarrow>
          (case tarReader env path of
             (hs, None) \<Rightarrow> Some (Inr (map itemOf (filter (\<lambda>h. \<not> isDir h) hs)))
           | (hs, Some e) \<Rightarrow> None))"

fun extractLoop :: "string \<Rightarrow> string option \<Rightarrow> tarEntry list \<Rightarrow> byte list \<Rightarrow> string option \<times> byte list" where
  "extractLoop fileName end [] out =
     (case end of Some e \<Rightarrow> (Some e, out) | None \<Rightarrow> (Some (''not found file:'' @ fileName), out))"
| "extractLoop fileName end (h # hs) out =
     (if hdrName h = fileName then (None, out @ body h) else extractLoop fileName end hs out)"

definition ExtractFile :: "tarEnv \<Rightarrow> string \<Rightarrow> string \<Rightarrow> byte list \<Rightarrow> string option \<times> byte list" where
  "ExtractFile env path fileName out =
     (case tarReader env path of (hs, e) \<Rightarrow> extractLoop fileName e hs out)"

text \<open>\<open>ExtractFileTo\<close>: the callback gets the reader of the entry, of which it takes what it likes; a
  name given twice calls it again on what is left.\<close>

type_synonym 'c extractCb = "string \<Rightarrow> byte list \<Rightarrow> 'c \<Rightarrow> byte list \<times> 'c"

fun callNames :: "'c extractCb \<Rightarrow> string \<Rightarrow> string list \<Rightarrow> byte list \<Rightarrow> 'c \<Rightarrow> 'c" where
  "callNames cal hn [] rest st = st"
| "callNames cal hn (name # names) rest st =
     (if hn = name then (case cal name rest st of (rest', st') \<Rightarrow> callNames cal hn names rest' st')
      else callNames cal hn names rest st)"

fun extractToLoop :: "'c extractCb \<Rightarrow> string list \<Rightarrow> tarEntry list \<Rightarrow> 'c \<Rightarrow> 'c" where
  "extractToLoop cal fileNames [] st = st"
| "extractToLoop cal fileNames (h # hs) st =
     extractToLoop cal fileNames hs (callNames cal (hdrName h) fileNames (body h) st)"

definition ExtractFileTo :: "tarEnv \<Rightarrow> string \<Rightarrow> string list \<Rightarrow> 'c extractCb \<Rightarrow> 'c \<Rightarrow> string option \<times> 'c" where
  "ExtractFileTo env path fileNames cal st =
     (case tarReader env path of (hs, e) \<Rightarrow> (e, extractToLoop cal fileNames hs st))"

section \<open>Files and addresses\<close>

record fileInfo =
  inode :: "nat \<times> nat"
  fiModTime :: int
  fiMode :: nat
  fiSize :: int

definition SameFile :: "fileInfo \<Rightarrow> fileInfo \<Rightarrow> bool" where
  "SameFile fi1 fi2 =
     (if inode fi1 \<noteq> inode fi2 then False
      else if fiModTime fi1 \<noteq> fiModTime fi2 then False
      else if fiMode fi1 \<noteq> fiMode fi2 then False
      else fiSize fi1 = fiSize fi2)"

text \<open>\<open>PathExists\<close>: only the error that says so counts as not existing.\<close>

datatype statErr = NotExist | OtherStat string

definition PathExists :: "(string \<Rightarrow> statErr option) \<Rightarrow> string \<Rightarrow> bool" where
  "PathExists stat path = (case stat path of Some NotExist \<Rightarrow> False | _ \<Rightarrow> True)"

text \<open>\<open>net.IP.To4\<close> and \<open>GetAllInterfaceAddr\<close>.\<close>

definition To4 :: "byte list \<Rightarrow> byte list option" where
  "To4 ip =
     (if length ip = 4 then Some ip
      else if length ip = 16 \<and> take 12 ip = replicate 10 0 @ [255, 255] then Some (drop 12 ip)
      else None)"

record iface =
  ifUp :: bool
  ifAddrs :: "byte list list option"

definition upAddrs :: "iface \<Rightarrow> byte list list" where
  "upAddrs i =
     (if \<not> ifUp i then []
      else case ifAddrs i of None \<Rightarrow> [] | Some as \<Rightarrow> List.map_filter To4 as)"

definition GetAllInterfaceAddr :: "string + iface list \<Rightarrow> string + byte list list" where
  "GetAllInterfaceAddr ifaces =
     (case ifaces of
        Inl e \<Rightarrow> Inl e
      | Inr is \<Rightarrow>
          (let addresses = concat (map upAddrs is)
           in if addresses = [] then Inl ''no address Found, net.InterfaceAddrs: []''
              else Inr addresses))"

section \<open>What a reader promises\<close>

text \<open>A reader with finitely much to read: it never returns more than there is room for, every read
  without an error makes progress, and what it returns is taken off the front of its content.\<close>

locale finite_reader =
  fixes rd :: "'s reader" and left :: "'s \<Rightarrow> nat" and content :: "'s \<Rightarrow> byte list"
  assumes room: "rd n s = ((c, e), s') \<Longrightarrow> length c \<le> n"
    and progress: "0 < n \<Longrightarrow> rd n s = ((c, None), s') \<Longrightarrow> left s' < left s"
    and taken: "rd n s = ((c, e), s') \<Longrightarrow> content s = c @ content s'"
begin

lemma skipLoop_skips:
  assumes "0 < len" and "0 < l" and "0 \<le> k"
  shows "\<exists>c e k' s'. skipLoop rd len l k s = Some ((c, e), k', s') \<and>
           (e = None \<longrightarrow> k' = 0 \<and> drop (nat k) (content s) = c @ content s')"
  using assms
proof (induction "left s" arbitrary: s l k rule: less_induct)
  case less
  show ?case
  proof (cases "k > 0")
    case True
    define l' where "l' = (if int l > k then nat k else l)"
    obtain c e s1 where r: "rd l' s = ((c, e), s1)" by (metis surj_pair)
    have l': "0 < l'" "int l' \<le> k" using True less.prems by (auto simp: l'_def)
    show ?thesis
    proof (cases e)
      case None
      have "length c \<le> l'" "left s1 < left s" "content s = c @ content s1"
        using room [OF r] progress r None l'(1) taken [OF r] by auto
      with less.hyps [of s1 l' "k - int (length c)"] less.prems l' True None r show ?thesis
        by (subst skipLoop.simps) (simp add: l'_def [symmetric] Let_def nat_diff_distrib)
    next
      case (Some err)
      with True r show ?thesis by (subst skipLoop.simps) (simp add: l'_def [symmetric] Let_def)
    qed
  next
    case False
    obtain c e s1 where r: "rd len s = ((c, e), s1)" by (metis surj_pair)
    with False less.prems taken [OF r] show ?thesis by (subst skipLoop.simps) simp
  qed
qed

text \<open>The relay ends, always with an error, and hands on exactly what it took from its source.\<close>

lemma ioCopy_relays:
  "\<exists>r s' b. ioCopy rd connWrite wr cs s out = Some (r, s', out @ b) \<and> content s = b @ content s' \<and>
     written r = wr + length b \<and> sum_list (counts r) = sum_list cs + length b \<and>
     isSrcErr r \<and> (\<exists>e. copyError r = Some (ReadErr e))"
proof (induction "left s" arbitrary: s wr cs out rule: less_induct)
  case less
  obtain c e s1 where r: "rd copyBufLen s = ((c, e), s1)" by (metis surj_pair)
  show ?case
  proof (cases e)
    case None
    then have "left s1 < left s" using progress [of copyBufLen s c s1] r by (simp add: copyBufLen_def)
    from less.hyps [OF this, of "wr + length c" "if c = [] then cs else cs @ [length c]" "out @ c"]
    obtain x s' b where
      "ioCopy rd connWrite (wr + length c) (if c = [] then cs else cs @ [length c]) s1 (out @ c) = Some (x, s', (out @ c) @ b)"
      "content s1 = b @ content s'" "written x = wr + length c + length b"
      "sum_list (counts x) = sum_list (if c = [] then cs else cs @ [length c]) + length b"
      "isSrcErr x" "\<exists>e. copyError x = Some (ReadErr e)" by blast
    then show ?thesis using r None taken [OF r]
      by (intro exI [of _ x] exI [of _ s'] exI [of _ "c @ b"], subst ioCopy.simps)
        (auto simp: connWrite_def Let_def split: if_splits)
  next
    case (Some err)
    with r taken [OF r] show ?thesis
      by (intro exI [of _ "\<lparr>written = wr + length c, isSrcErr = True, copyError = Some (ReadErr err),
              counts = (if c = [] then cs else cs @ [length c])\<rparr>"] exI [of _ s1] exI [of _ c],
          subst ioCopy.simps) (auto simp: connWrite_def Let_def)
  qed
qed

text \<open>Whatever the writer does, the relay ends, always with an error, having counted what it wrote.\<close>

lemma ioCopy_ends:
  "sum_list cs = wr \<Longrightarrow>
   \<exists>r s' w'. ioCopy rd uw wr cs s w = Some (r, s', w') \<and> copyError r \<noteq> None \<and>
     written r = sum_list (counts r) \<and> (isSrcErr r \<longleftrightarrow> (\<exists>e. copyError r = Some (ReadErr e)))"
proof (induction "left s" arbitrary: s wr cs w rule: less_induct)
  case less
  obtain c e s1 where r: "rd copyBufLen s = ((c, e), s1)" by (metis surj_pair)
  obtain nw ew w1 where w: "(if c \<noteq> [] then uw w c else ((0, None), w)) = ((nw, ew), w1)" by (metis surj_pair)
  define cs' where "cs' = (if nw > 0 then cs @ [nw] else cs)"
  have cs': "sum_list cs' = wr + nw" using less.prems by (simp add: cs'_def)
  show ?case
  proof (cases "c \<noteq> [] \<and> (ew \<noteq> None \<or> length c \<noteq> nw)")
    case True
    with r w cs' show ?thesis
      by (subst ioCopy.simps) (cases ew; simp add: cs'_def [symmetric] Let_def)
  next
    case ok: False
    show ?thesis
    proof (cases e)
      case None
      then have "left s1 < left s" using progress [of copyBufLen s c s1] r by (simp add: copyBufLen_def)
      from less.hyps [OF this cs', of w1] r w ok None show ?thesis
        by (subst ioCopy.simps) (auto simp: cs'_def [symmetric])
    next
      case (Some err)
      with r w cs' ok show ?thesis
        by (subst ioCopy.simps) (auto simp: cs'_def [symmetric])
    qed
  qed
qed

text \<open>Rate limiting keeps the promise: it delays and may add an error, and touches no byte.\<close>

lemma LimitedRead_finite:
  "finite_reader (LimitedRead waitN rd) (\<lambda>s. left (snd s)) (\<lambda>s. content (snd s))"
proof
  fix n s s' c e
  show "LimitedRead waitN rd n s = ((c, e), s') \<Longrightarrow> length c \<le> n"
    by (auto simp: LimitedRead_def dest: room split: prod.splits option.splits)
  show "0 < n \<Longrightarrow> LimitedRead waitN rd n s = ((c, None), s') \<Longrightarrow> left (snd s') < left (snd s)"
    by (auto simp: LimitedRead_def dest: progress split: prod.splits option.splits)
  show "LimitedRead waitN rd n s = ((c, e), s') \<Longrightarrow> content (snd s) = c @ content (snd s')"
    by (auto simp: LimitedRead_def dest: taken split: prod.splits option.splits)
qed

end

interpretation plain: finite_reader readSome ssize sbytes
proof
  show "readSome n s = ((c, e), s') \<Longrightarrow> length c \<le> n" for n s c e s'
    by (cases "(n, s)" rule: readSome.cases) (auto split: if_splits)
  show "0 < n \<Longrightarrow> readSome n s = ((c, None), s') \<Longrightarrow> ssize s' < ssize s" for n s c s'
    using readSome_size [of n s c None s'] by simp
  show "readSome n s = ((c, e), s') \<Longrightarrow> sbytes s = c @ sbytes s'" for n s c e s'
    by (cases "(n, s)" rule: readSome.cases) (auto split: if_splits)
qed

section \<open>The relay and the skipping reader\<close>

lemma IoBind_spec:
  "\<exists>e cs1 cs2 sink' source' b1 b2.
     IoBind waitN lim srcFirst readSome connWrite connWrite sink source = Some ([(True, e)], cs1, cs2, sink', source') \<and>
     outp sink' = outp sink @ b1 \<and> sbytes (inp source) = b1 @ sbytes (inp source') \<and> sum_list cs1 = length b1 \<and>
     outp source' = outp source @ b2 \<and> sbytes (inp sink) = b2 @ sbytes (inp sink') \<and> sum_list cs2 = length b2"
proof -
  note rel = finite_reader.ioCopy_relays [OF plain.LimitedRead_finite, of waitN 0 "[]"]
  from rel [of "(lim, inp source)" "outp sink"] obtain r1 s1 b1 e1 where
    "ioCopy (LimitedRead waitN readSome) connWrite 0 [] (lim, inp source) (outp sink) = Some (r1, s1, outp sink @ b1)"
    "sbytes (inp source) = b1 @ sbytes (snd s1)" "sum_list (counts r1) = length b1"
    "isSrcErr r1" "copyError r1 = Some (ReadErr e1)" by auto
  moreover from rel [of "(lim, inp sink)" "outp source"] obtain r2 s2 b2 e2 where
    "ioCopy (LimitedRead waitN readSome) connWrite 0 [] (lim, inp sink) (outp source) = Some (r2, s2, outp source @ b2)"
    "sbytes (inp sink) = b2 @ sbytes (snd s2)" "sum_list (counts r2) = length b2"
    "isSrcErr r2" "copyError r2 = Some (ReadErr e2)" by auto
  ultimately show ?thesis
    by (cases s1; cases s2; cases srcFirst) (auto simp: IoBind_def)
qed

lemma IoBind_ends:
  "\<exists>e cs1 cs2 sink' source'. IoBind waitN lim srcFirst readSome uin uout sink source = Some ([e], cs1, cs2, sink', source')"
proof -
  note fin = finite_reader.ioCopy_ends [OF plain.LimitedRead_finite, of "[]" 0 waitN, simplified]
  from fin [of uin "(lim, inp source)" "outp sink"] obtain r1 s1 w1 where
    1: "ioCopy (LimitedRead waitN readSome) uin 0 [] (lim, inp source) (outp sink) = Some (r1, s1, w1)" "copyError r1 \<noteq> None"
    by auto
  from fin [of uout "(lim, inp sink)" "outp source"] obtain r2 s2 w2 where
    2: "ioCopy (LimitedRead waitN readSome) uout 0 [] (lim, inp sink) (outp source) = Some (r2, s2, w2)" "copyError r2 \<noteq> None"
    by auto
  show ?thesis using 1 2 by (cases s1; cases s2; cases srcFirst) (auto simp: IoBind_def)
qed

text \<open>\<open>IoBind\<close> brings a relay to its end. Whatever the two connections do with what is
  written to them, both directions end and the closing callback is called exactly once. Between
  connections that take what is written, each receives, behind what was written to it before, exactly
  the bytes taken from the other, in order, whether or not a rate limit is set, and the counts
  reported add up to them.\<close>

theorem IoBind_relays:
  "(\<exists>e cs1 cs2 sink' source'. IoBind waitN lim srcFirst readSome uin uout sink source = Some ([e], cs1, cs2, sink', source')) \<and>
   (\<exists>e cs1 cs2 sink' source' b1 b2.
     IoBind waitN lim srcFirst readSome connWrite connWrite sink source = Some ([(True, e)], cs1, cs2, sink', source') \<and>
     outp sink' = outp sink @ b1 \<and> sbytes (inp source) = b1 @ sbytes (inp source') \<and> sum_list cs1 = length b1 \<and>
     outp source' = outp source @ b2 \<and> sbytes (inp sink) = b2 @ sbytes (inp sink') \<and> sum_list cs2 = length b2)"
  using IoBind_ends IoBind_spec by blast

text \<open>A read through \<open>SkipReader\<close> ends, and without an error it has dropped the bytes to skip.\<close>

theorem SkipRead_skips:
  assumes "0 < len" and "0 \<le> k"
  shows "\<exists>c e k' s'. SkipRead readSome len k s = Some ((c, e), k', s') \<and>
           (e = None \<longrightarrow> k' = 0 \<and> drop (nat k) (sbytes s) = c @ sbytes s')"
  using plain.skipLoop_skips [of len len k s] assms by (simp add: SkipRead_def)

section \<open>The limiting and the deadline writer\<close>

lemma LimitWrite_step:
  assumes "0 \<le> skipBytes lw" and "0 \<le> wLimit lw"
  shows "\<exists>lw'. LimitWrite connWrite lw w p =
           Some ((length p, None), lw', w @ take (nat (wLimit lw)) (drop (nat (skipBytes lw)) p)) \<and>
         skipBytes lw' = max 0 (skipBytes lw - int (length p)) \<and>
         wLimit lw' = wLimit lw - int (length (take (nat (wLimit lw)) (drop (nat (skipBytes lw)) p)))"
  using assms by (auto simp: LimitWrite_def connWrite_def Let_def min_def)

text \<open>C25: the bytes that reach the wrapped writer through a \<open>LimitWriter\<close> are a window of the whole
  stream, however the stream is cut into writes: the first \<open>skip\<close> bytes are left out, then at most
  \<open>limit\<close> are passed on. No write is reported short or failing.\<close>

theorem LimitWriter_window:
  assumes "0 \<le> skip" and "0 \<le> limit"
  shows "\<exists>lw. limitWrites connWrite (LimitedWriter skip limit) w ps =
           Some (lw, w @ take (nat limit) (drop (nat skip) (concat ps)))"
proof -
  have "0 \<le> skipBytes lw \<Longrightarrow> 0 \<le> wLimit lw \<Longrightarrow>
      \<exists>lw'. limitWrites connWrite lw w ps =
        Some (lw', w @ take (nat (wLimit lw)) (drop (nat (skipBytes lw)) (concat ps)))" for lw w
  proof (induction ps arbitrary: lw w)
    case (Cons p ps)
    let ?q = "take (nat (wLimit lw)) (drop (nat (skipBytes lw)) p)"
    from LimitWrite_step [OF Cons.prems, of w p] obtain lw1 where
      step: "LimitWrite connWrite lw w p = Some ((length p, None), lw1, w @ ?q)"
      and sk: "skipBytes lw1 = max 0 (skipBytes lw - int (length p))"
      and lim: "wLimit lw1 = wLimit lw - int (length ?q)" by blast
    have "0 \<le> skipBytes lw1" "0 \<le> wLimit lw1" using sk lim Cons.prems by auto
    from Cons.IH [OF this, of "w @ ?q"] step obtain lw2 where
      "limitWrites connWrite lw w (p # ps) =
         Some (lw2, (w @ ?q) @ take (nat (wLimit lw1)) (drop (nat (skipBytes lw1)) (concat ps)))" by auto
    moreover have "nat (skipBytes lw1) = nat (skipBytes lw) - length p" using sk by auto
    moreover have "nat (wLimit lw1) = nat (wLimit lw) - length (drop (nat (skipBytes lw)) p)"
      using lim Cons.prems by (auto simp: min_def nat_diff_distrib split: if_splits)
    ultimately show ?case by auto
  qed simp
  from this [of "LimitedWriter skip limit" w] show ?thesis using assms by (simp add: LimitedWriter_def)
qed

theorem LimitWriter_window_witness:
  "\<exists>lw. limitWrites connWrite (LimitedWriter 2 3) [] [[1], [2, 3], [4, 5, 6]] = Some (lw, [3, 4, 5])"
  using LimitWriter_window [of 2 3 "[]" "[[1], [2, 3], [4, 5, 6]]"] by simp

text \<open>A negative limit, which no check refuses, panics at the first write that is not empty.\<close>

theorem LimitWriter_negative_limit_panics:
  "limit < 0 \<Longrightarrow> p \<noteq> [] \<Longrightarrow> LimitWrite uw (LimitedWriter 0 limit) w p = None"
  by (simp add: LimitWrite_def LimitedWriter_def)

text \<open>After a failed or late write every later write fails with the same error and reaches the
  wrapped writer no more.\<close>

theorem DeadlineWriter_sticky:
  "dwWrites uw (Some e) w xs = (replicate (length xs) (0, Some e), w)"
  by (induction xs) (auto simp: DwWrite_def)

text \<open>A \<open>WriteOnCloser\<close> that is closed has written at least once, with or without data.\<close>

theorem WriteOnCloser_writes_once:
  "fst (snd (WocClose uw closer hasWritten w))"
  by (auto simp: WocClose_def WocWrite_def split: prod.splits option.splits)

section \<open>Framing of UDP packets\<close>

lemma getUint16_putUint16 [simp]: "n < 65536 \<Longrightarrow> getUint16 (putUint16 n) = n"
  by (simp add: getUint16_def putUint16_def unat_of_nat)

lemma length_putUint16 [simp]: "length (putUint16 n) = 2"
  by (simp add: putUint16_def)

lemma readFull_buffered:
  "length h = need \<Longrightarrow> 0 < need \<Longrightarrow> buffered b = h @ t \<Longrightarrow>
     readFull need [] b = Some ((h, None), b\<lparr>buffered := t\<rparr>)"
  by (subst readFull.simps, subst readFull.simps) (auto simp: bufioRead_def)

text \<open>The first read fills the buffer with the whole first segment, or its first 4096 bytes.\<close>

lemma readFull_first:
  assumes "2 \<le> length seg"
  shows "readFull 2 [] \<lparr>buffered = [], pendingErr = None, under = (seg, None) # src\<rparr> =
           Some ((take 2 seg, None), \<lparr>buffered = drop 2 (take 4096 seg), pendingErr = None,
             under = (if length seg \<le> 4096 then src else (drop 4096 seg, None) # src)\<rparr>)"
  using assms
  by (subst readFull.simps, subst readFull.simps) (auto simp: bufioRead_def bufioSize_def)

lemma ReadUDPPacket_segment:
  assumes "length addr < 65536" and "length p < 65536" and "4 + length addr < 4096"
  shows "ReadUDPPacket ((UDPPacket addr p @ rest, None) # src) =
     Some ((addr, take (4092 - length addr) p @ replicate (length p - (4092 - length addr)) 0, None),
       (if 4 + length addr + length p + length rest \<le> 4096 then src
        else (drop 4096 (UDPPacket addr p @ rest), None) # src))"
proof -
  let ?seg = "UDPPacket addr p @ rest"
  let ?t = "take (4092 - length addr) (p @ rest)"
  let ?src = "if length ?seg \<le> 4096 then src else (drop 4096 ?seg, None) # src"
  have len: "length ?seg = 4 + length addr + length p + length rest" by (simp add: UDPPacket_def)
  have buf: "drop 2 (take 4096 ?seg) = addr @ putUint16 (length p) @ ?t"
    using assms by (simp add: UDPPacket_def)
  have al: "take 2 ?seg = putUint16 (length addr)" by (simp add: UDPPacket_def)
  have rd1: "readFull 2 [] \<lparr>buffered = [], pendingErr = None, under = (?seg, None) # src\<rparr> =
      Some ((putUint16 (length addr), None),
        \<lparr>buffered = addr @ putUint16 (length p) @ ?t, pendingErr = None, under = ?src\<rparr>)"
    using readFull_first [of ?seg src] len unfolding al buf by simp
  have rd2: "bufioRead (length addr)
        \<lparr>buffered = addr @ putUint16 (length p) @ ?t, pendingErr = None, under = ?src\<rparr> =
      ((addr, None), \<lparr>buffered = putUint16 (length p) @ ?t, pendingErr = None, under = ?src\<rparr>)"
    by (auto simp: bufioRead_def putUint16_def)
  have rd3: "readFull 2 [] \<lparr>buffered = putUint16 (length p) @ ?t, pendingErr = None, under = ?src\<rparr> =
      Some ((putUint16 (length p), None), \<lparr>buffered = ?t, pendingErr = None, under = ?src\<rparr>)"
    by (subst readFull_buffered [of "putUint16 (length p)"]) simp_all
  have rd4: "\<exists>b. bufioRead (length p) \<lparr>buffered = ?t, pendingErr = None, under = ?src\<rparr> =
      ((take (4092 - length addr) p, None), \<lparr>buffered = b, pendingErr = None, under = ?src\<rparr>)"
    using assms by (auto simp: bufioRead_def min_def)
  have pad: "padTo (length p) (take (4092 - length addr) p) =
      take (4092 - length addr) p @ replicate (length p - (4092 - length addr)) 0"
    by (auto simp: padTo_def)
  show ?thesis using rd1 rd2 rd3 rd4 pad assms unfolding ReadUDPPacket_def len
    by (auto simp del: append.simps)
qed

text \<open>A packet framed by \<open>UDPPacket\<close> that arrives in one segment and fits the read buffer is read
  back by \<open>ReadUDPPacket\<close> as it was, with its source address.\<close>

theorem UDPPacket_round_trip:
  assumes "4 + length addr + length p \<le> 4096" and "length addr < 4092"
  shows "\<exists>src'. ReadUDPPacket ((UDPPacket addr p @ rest, None) # src) = Some ((addr, p, None), src')"
  using ReadUDPPacket_segment [of addr p rest src] assms by (simp add: UDPPacket_def)

theorem UDPPacket_round_trip_witness:
  "\<exists>src'. ReadUDPPacket ((UDPPacket [1, 2] [3, 4, 5] @ [], None) # []) = Some (([1, 2], [3, 4, 5], None), src')"
  using UDPPacket_round_trip [of "[1, 2]" "[3, 4, 5]" "[]" "[]"] by simp

text \<open>Each call reads through a buffered reader of its own, so a packet that does not fit its 4096
  bytes comes back cut, filled up with zeros and without an error, and a second packet that arrived in
  the same segment is lost: the next call starts behind it.\<close>

theorem ReadUDPPacket_loses_data:
  assumes "length addr < 4092" and "length p < 65536"
  shows "(4096 < 4 + length addr + length p \<longrightarrow>
            (\<exists>src'. ReadUDPPacket ((UDPPacket addr p, None) # src) =
               Some ((addr, take (4092 - length addr) p @ replicate (length addr + length p - 4092) 0, None), src'))) \<and>
         (length (UDPPacket addr p @ UDPPacket addr2 p2) \<le> 4096 \<longrightarrow>
            ReadUDPPacket ((UDPPacket addr p @ UDPPacket addr2 p2, None) # src) = Some ((addr, p, None), src))"
proof (intro conjI impI)
  assume "4096 < 4 + length addr + length p"
  moreover from this have "length p - (4092 - length addr) = length addr + length p - 4092" using assms by simp
  ultimately show "\<exists>src'. ReadUDPPacket ((UDPPacket addr p, None) # src) =
      Some ((addr, take (4092 - length addr) p @ replicate (length addr + length p - 4092) 0, None), src')"
    using ReadUDPPacket_segment [of addr p "[]" src] assms by simp
next
  assume "length (UDPPacket addr p @ UDPPacket addr2 p2) \<le> 4096"
  then have l: "4 + length addr + length p + length (UDPPacket addr2 p2) \<le> 4096" by (simp add: UDPPacket_def)
  then show "ReadUDPPacket ((UDPPacket addr p @ UDPPacket addr2 p2, None) # src) = Some ((addr, p, None), src)"
    using ReadUDPPacket_segment [of addr p "UDPPacket addr2 p2" src] assms by simp
qed

theorem ReadUDPPacket_loses_data_witness:
  "ReadUDPPacket ((UDPPacket [1] [2] @ UDPPacket [1] [3], None) # []) = Some (([1], [2], None), [])"
  using ReadUDPPacket_loses_data [of "[1]" "[2]" "[]" "[1]" "[3]"] by (simp add: UDPPacket_def putUint16_def)

section \<open>Listing and extracting\<close>

lemma extractLoop_found:
  "h \<in> set hs \<Longrightarrow> \<exists>h' \<in> set hs. hdrName h' = hdrName h \<and> extractLoop (hdrName h) end hs out = (None, out @ body h')"
  by (induction hs) auto

text \<open>Every file that \<open>ListFiles\<close> lists, \<open>ExtractFile\<close> extracts without an error, writing the whole
  content of an entry of that name; and the panic of \<open>ListFiles\<close> is exactly an archive that ends in an
  error.\<close>

theorem listed_files_extract:
  "(\<forall>items it. ListFiles env path = Some (Inr items) \<longrightarrow> it \<in> set items \<longrightarrow>
      (\<exists>h \<in> set (fst (tarReader env path)). hdrName h = Name it \<and>
         ExtractFile env path (Name it) out = (None, out @ body h))) \<and>
   (ListFiles env path = None \<longleftrightarrow> os_Open env path \<noteq> None \<and> snd (tarReader env path) \<noteq> None)"
proof (intro conjI allI impI)
  fix items it assume "ListFiles env path = Some (Inr items)" and "it \<in> set items"
  then obtain hs h where hs: "tarReader env path = (hs, None)" and h: "h \<in> set hs" "Name it = hdrName h"
    by (auto simp: ListFiles_def itemOf_def split: option.splits prod.splits)
  then show "\<exists>h \<in> set (fst (tarReader env path)). hdrName h = Name it \<and>
      ExtractFile env path (Name it) out = (None, out @ body h)"
    using extractLoop_found [OF h(1), of None out] by (simp add: ExtractFile_def)
qed (auto simp: ListFiles_def split: option.splits prod.splits)

definition demoTar :: tarEnv where
  "demoTar =
     \<lparr>os_Open = (\<lambda>p. Some [0]), gunzip = (\<lambda>_. None),
      entries = (\<lambda>_. ([\<lparr>hdrName = ''d'', hdrSize = 0, hdrModTime = 1, isDir = True, body = []\<rparr>,
        \<lparr>hdrName = ''d/a'', hdrSize = 2, hdrModTime = 1, isDir = False, body = [7, 8]\<rparr>], None))\<rparr>"

theorem listed_files_extract_witness:
  "ListFiles demoTar ''m.tar'' = Some (Inr [\<lparr>Name = ''d/a'', Size = 2, CreateTime = 1\<rparr>]) \<and>
   ExtractFile demoTar ''m.tar'' ''d/a'' [] = (None, [7, 8])"
proof -
  have l: "ListFiles demoTar ''m.tar'' = Some (Inr [\<lparr>Name = ''d/a'', Size = 2, CreateTime = 1\<rparr>])"
    by (simp add: ListFiles_def tarReader_def demoTar_def itemOf_def)
  with listed_files_extract [of demoTar "''m.tar''" "[]"] show ?thesis
    by (auto simp: tarReader_def demoTar_def)
qed

text \<open>A name asked for twice: the second call sees a reader that the first has emptied.\<close>

theorem repeated_name_sees_nothing:
  assumes "\<And>name rest st. fst (cal name rest st) = []"
  shows "callNames cal hn [hn, hn] rest st = snd (cal hn [] (snd (cal hn rest st)))"
  using assms [of hn rest st] by (cases "cal hn rest st") (simp split: prod.splits)

lemma To4_length: "To4 ip = Some a \<Longrightarrow> length a = 4"
  by (simp only: To4_def split: if_splits) (drule arg_cong [of _ _ "map_option length"], simp)+

lemma upAddrs_length: "a \<in> set (upAddrs i) \<Longrightarrow> length a = 4"
  by (auto simp: upAddrs_def List.map_filter_def To4_length split: if_splits option.splits)

theorem interface_addresses_are_IPv4:
  "GetAllInterfaceAddr ifaces = Inr as \<Longrightarrow> as \<noteq> [] \<and> (\<forall>a \<in> set as. length a = 4)"
  by (auto simp: GetAllInterfaceAddr_def Let_def dest: upAddrs_length split: sum.splits if_splits)

end
