(* ===== verification/Docker_Log.thy ===== *)
theory Docker_Log
  imports Connect_Hub AES_Auth
begin

text \<open>
  The log monitors of \<open>container_log/LogMonitor.go\<close>, \<open>DockerLog.go\<close> and \<open>MinioLog.go\<close>. A Docker
  monitor first polls Kubernetes until the pod of a task runs, reporting its progress over the
  connection, and then tails the log of the first container through \<open>StdCopy\<close>; a MinIO monitor
  reads a stored log line by line. What Kubernetes, Docker, MinIO and the JSON decoder answer are
  arguments; the polling loop, which may run forever, is a function of the observations made so far
  and its liveness a statement about infinite sequences of them.
\<close>

section \<open>Pods\<close>

record terminated =
  ExitCode :: int
  tReason :: string
  tMessage :: string

record containerStatus =
  isRunning :: bool
  Terminated :: "terminated option"
  Waiting :: "(string \<times> string) option"
  ContainerID :: string

record podStatus =
  Phase :: string
  podReason :: string
  HostIP :: string
  InitContainerStatuses :: "containerStatus list"
  ContainerStatuses :: "containerStatus list"

definition stepped :: "containerStatus \<Rightarrow> bool" where
  "stepped v \<longleftrightarrow> isRunning v \<or> Terminated v \<noteq> None"

definition GetPodProcess :: "podStatus \<Rightarrow> nat" where
  "GetPodProcess st =
     length (filter stepped (InitContainerStatuses st)) + length (filter stepped (ContainerStatuses st))"

definition NotError :: "string \<Rightarrow> bool" where
  "NotError s \<longleftrightarrow> hasPrefix s ''PodInit'' \<or> hasPrefix s ''ContainerCreating''"

definition statusError :: "string \<Rightarrow> containerStatus \<Rightarrow> (string \<times> string) option" where
  "statusError what v =
     (case Terminated v of
        Some t \<Rightarrow> if ExitCode t \<noteq> 0 then Some (tReason t, what @ '' error '' @ tMessage t)
                  else (case Waiting v of
                          Some (r, m) \<Rightarrow> if r \<noteq> [] \<and> \<not> NotError r then Some (r, what @ '' error '' @ m) else None
                        | None \<Rightarrow> None)
      | None \<Rightarrow> (case Waiting v of
                   Some (r, m) \<Rightarrow> if r \<noteq> [] \<and> \<not> NotError r then Some (r, what @ '' error '' @ m) else None
                 | None \<Rightarrow> None))"

fun firstError :: "string \<Rightarrow> containerStatus list \<Rightarrow> (string \<times> string) option" where
  "firstError what [] = None"
| "firstError what (v # vs) = (case statusError what v of Some e \<Rightarrow> Some e | None \<Rightarrow> firstError what vs)"

text \<open>\<open>None\<close> is the nil error, and otherwise the reason with the error's text.\<close>

definition GetPodErrorInfo :: "podStatus \<Rightarrow> (string \<times> string) option" where
  "GetPodErrorInfo st =
     (case firstError ''init'' (InitContainerStatuses st) of
        Some e \<Rightarrow> Some e
      | None \<Rightarrow> firstError ''container'' (ContainerStatuses st))"

section \<open>Polling\<close>

definition isContainer :: "LogParam \<Rightarrow> bool" where
  "isContainer p \<longleftrightarrow> ContainerId p \<noteq> [] \<and> PodLabel p = [] \<and> PodName p = []"

text \<open>The field and label selectors of the list request.\<close>

definition listOption :: "LogParam \<Rightarrow> string \<times> string" where
  "listOption p =
     (if PodName p \<noteq> [] then ''metadata.name='' @ PodName p else [],
      if PodLabel p \<noteq> [] then ''app='' @ PodLabel p else [])"

text \<open>What one round sees: whether the monitor was closed, and the answer to the list request.\<close>

record observation =
  obClosed :: bool
  obPods :: "string \<times> string \<Rightarrow> podStatus list option"

datatype poll = Polling bool | Returned | Tailing string string

definition bytesOf :: "string \<Rightarrow> byte list" where
  "bytesOf s = map of_char s"

definition statMid :: "string \<Rightarrow> ConnectDef \<Rightarrow> ConnectDef" where
  "statMid s c = writeMid c (logStatMessage (bytesOf s))"

definition CR :: string where "CR = [CHR 0x0D]"
definition LF :: string where "LF = [CHR 0x0A]"

definition progress :: "podStatus \<Rightarrow> string" where
  "progress st =
     (let count = length (InitContainerStatuses st) + length (ContainerStatuses st);
          process = GetPodProcess st
      in CR @ ''task init:'' @ showNat process @ ''/'' @ showNat count @ (if process = count then LF else []))"

text \<open>One round of the loop of \<open>Start\<close>, up to its sleep.\<close>

definition pollStep :: "nat \<Rightarrow> LogParam \<Rightarrow> bool \<Rightarrow> observation \<Rightarrow> ConnectDef \<Rightarrow> poll \<times> ConnectDef" where
  "pollStep port param started ob c =
     (if obClosed ob then (Returned, c)
      else case obPods ob (listOption param) of
             None \<Rightarrow> if started then (Returned, statMid (LF @ ''LOG_END'') c)
                     else (Polling False, statMid (CR @ ''Wait for task create...'') c)
           | Some [] \<Rightarrow> if started then (Returned, statMid (LF @ ''LOG_END'') c)
                        else (Polling False, statMid (CR @ ''Wait for task create...'') c)
           | Some (pod # _) \<Rightarrow>
               (case GetPodErrorInfo pod of
                  Some (reason, err) \<Rightarrow> (Polling True, statMid (CR @ ''task run fail:'' @ reason @ err) c)
                | None \<Rightarrow>
                    (let c1 = (if Phase pod = ''Pending'' then statMid (progress pod) c else c)
                     in if (Phase pod = ''Running'' \<or> Phase pod = ''Succeeded'') \<and> ContainerStatuses pod \<noteq> []
                        then (Tailing (trimPrefix (ContainerID (hd (ContainerStatuses pod))) ''docker://'')
                                (HostIP pod @ '':'' @ showNat port), statMid (progress pod) c1)
                        else if Phase pod = ''Failed'' \<or> Phase pod = ''Unknown''
                        then (Returned, statMid (''task run fail:'' @ podReason pod @ LF) c1)
                        else (Polling True, c1))))"

text \<open>The loop after the observations made so far: \<open>Polling\<close> when it has not left.\<close>

fun pollLoop :: "nat \<Rightarrow> LogParam \<Rightarrow> bool \<Rightarrow> observation list \<Rightarrow> ConnectDef \<Rightarrow> poll \<times> ConnectDef" where
  "pollLoop port param started [] c = (Polling started, c)"
| "pollLoop port param started (ob # obs) c =
     (case pollStep port param started ob c of
        (Polling started', c') \<Rightarrow> pollLoop port param started' obs c'
      | (r, c') \<Rightarrow> (r, c'))"

section \<open>Clients\<close>

text \<open>The cache of Docker clients by host; \<open>NewDockerClient\<close> may give none, which is not stored.\<close>

definition GetDockerClient ::
  "(string \<Rightarrow> 'c option) \<Rightarrow> string \<Rightarrow> (string, 'c) gomap \<Rightarrow> 'c option \<times> (string, 'c) gomap" where
  "GetDockerClient newClient dockerHost cache =
     (case gm_get cache dockerHost of
        Some c \<Rightarrow> (Some c, cache)
      | None \<Rightarrow>
          (case newClient dockerHost of
             Some c \<Rightarrow> (Some c, gm_set dockerHost c cache)
           | None \<Rightarrow> (None, cache)))"

datatype 'c LogMonitor =
    DockerLog (dockerHost: string) (dlClient: "'c option") (dlClosed: bool)
  | MinioLog (minioObjectName: string) (bucketName: string) (mlClosed: bool)

definition NewDockerLog ::
  "(string \<Rightarrow> 'c option) \<Rightarrow> string \<Rightarrow> (string, 'c) gomap \<Rightarrow> 'c LogMonitor \<times> (string, 'c) gomap" where
  "NewDockerLog newClient host cache =
     (case GetDockerClient newClient host cache of (c, cache') \<Rightarrow> (DockerLog host c False, cache'))"

definition NewMinioLog :: "string \<Rightarrow> string \<Rightarrow> 'c LogMonitor" where
  "NewMinioLog objectName bucket = MinioLog objectName bucket False"

definition NewLogMonitor ::
  "(string \<Rightarrow> 'c option) \<Rightarrow> nat \<Rightarrow> string \<Rightarrow> LogParam \<Rightarrow> (string, 'c) gomap \<Rightarrow> 'c LogMonitor \<times> (string, 'c) gomap" where
  "NewLogMonitor newClient port bucket p cache =
     (if MinioObjName p = [] then
        (if Host p = [] then NewDockerLog newClient [] cache
         else NewDockerLog newClient (Host p @ '':'' @ showNat port) cache)
      else (NewMinioLog (MinioObjName p) bucket, cache))"

fun CloseMonitor :: "'c LogMonitor \<Rightarrow> 'c LogMonitor" where
  "CloseMonitor (DockerLog h c _) = DockerLog h c True"
| "CloseMonitor (MinioLog ob b _) = MinioLog ob b True"

section \<open>Tailing\<close>

text \<open>The messages of \<open>StdCopy\<close> go through \<open>write\<close>; \<open>fires n\<close> says whether the timer fires after
  the \<open>n\<close>-th of them.\<close>

fun tailOps :: "(nat \<Rightarrow> bool) \<Rightarrow> nat \<Rightarrow> byte list list \<Rightarrow> cop list" where
  "tailOps fires n [] = []"
| "tailOps fires n (m # ms) = cop.Write m # (if fires n then [TimerFires] else []) @ tailOps fires (Suc n) ms"

definition copyErrText :: "copyErr \<Rightarrow> byte list" where
  "copyErrText e =
     (case e of
        SrcErr m \<Rightarrow> bytesOf m
      | Unrecognized b \<Rightarrow> bytesOf (''Unrecognized input header: '' @ showNat (unat b))
      | DaemonErr l \<Rightarrow> bytesOf ''error from daemon in stream: '' @ l
      | WriteErr m \<Rightarrow> bytesOf m
      | ShortWrite \<Rightarrow> bytesOf ''short write'')"

text \<open>The end of \<open>DockerLog.Start\<close>: when the copy ends, the cache is flushed and the end mark is
  sent.\<close>

definition LOG_END :: "byte list" where
  "LOG_END = map of_char (CHR 0x0A # ''LOG_END'')"

definition tailEnd :: "ConnectDef \<Rightarrow> ConnectDef" where
  "tailEnd c = writeMid (flush c) (logStatMessage LOG_END)"

text \<open>The end of \<open>Start\<close>: the log stream is copied to the connection; then the cache is flushed and
  the end marked. The result says whether an error is returned; only without one is the connection
  closed, two seconds later.\<close>

definition tailLog ::
  "nat \<Rightarrow> (nat \<Rightarrow> nat \<Rightarrow> nat) \<Rightarrow> (nat \<Rightarrow> bool) \<Rightarrow> string + script \<Rightarrow> ConnectDef \<Rightarrow>
     (string option \<times> ConnectDef) option" where
  "tailLog lineMaxSize rnd fires logs c =
     (case logs of
        Inl e \<Rightarrow> Some (Some e, c)
      | Inr src \<Rightarrow> do {
          r \<leftarrow> StdCopy lineMaxSize rnd discard () src;
          c1 \<leftarrow> crun c (tailOps fires 0 (copyRes.sent r));
          let c2 = (case cerr r of Some e \<Rightarrow> writeMid c1 (logStatMessage (copyErrText e)) | None \<Rightarrow> c1);
          Some (None, tailEnd c2)
        })"

text \<open>The whole of \<open>Start\<close> on the observations made: \<open>containerLogs\<close> is Docker's answer for a client,
  a container and the number of lines asked for. A missing client is used and panics.\<close>

datatype startRes = StillPolling | StartRet "string option" bool | StartPanic

definition tailOf :: "LogParam \<Rightarrow> string" where
  "tailOf p = (if Tail p \<noteq> [] then Tail p else ''10000'')"

definition Start ::
  "(string \<Rightarrow> 'c option) \<Rightarrow> ('c \<Rightarrow> string \<Rightarrow> string \<Rightarrow> string + script) \<Rightarrow> nat \<Rightarrow> nat \<Rightarrow> (nat \<Rightarrow> nat \<Rightarrow> nat) \<Rightarrow>
   (nat \<Rightarrow> bool) \<Rightarrow> LogParam \<Rightarrow> observation list \<Rightarrow> 'c option \<Rightarrow> (string, 'c) gomap \<Rightarrow> ConnectDef \<Rightarrow>
     startRes \<times> (string, 'c) gomap \<times> ConnectDef" where
  "Start newClient containerLogs port lineMaxSize rnd fires param obs client cache c =
     (case (if isContainer param then (Tailing (ContainerId param) (Host param @ '':'' @ showNat port), c)
            else pollLoop port param False obs c) of
        (Polling _, c1) \<Rightarrow> (StillPolling, cache, c1)
      | (Returned, c1) \<Rightarrow> (StartRet None False, cache, c1)
      | (Tailing containerId host, c1) \<Rightarrow>
          (case (case client of Some cl \<Rightarrow> (Some cl, cache) | None \<Rightarrow> GetDockerClient newClient host cache) of
             (None, cache') \<Rightarrow> (StartPanic, cache', c1)
           | (Some cl, cache') \<Rightarrow>
               (case tailLog lineMaxSize rnd fires (containerLogs cl containerId (tailOf param)) c1 of
                  None \<Rightarrow> (StartPanic, cache', c1)
                | Some (e, c2) \<Rightarrow> (StartRet e (e = None), cache', c2))))"

section \<open>GPU readings of the container's node\<close>

text \<open>\<open>containerGpuInfo\<close>: a dial fails, with the status of an answer if there was one, or gives
  messages until reading fails. The first result asks for another attempt.\<close>

datatype dialRes = DialFailed "nat option" string | Dialled "byte list list" string

definition containerGpuInfo :: "dialRes \<Rightarrow> (bool \<times> string) \<times> byte list list" where
  "containerGpuInfo d =
     (case d of
        DialFailed st err \<Rightarrow>
          if st = Some 204 then ((False, ''not content''), []) else ((True, err), [])
      | Dialled ms err \<Rightarrow> ((True, err), ms))"

text \<open>The goroutine around it, over the attempts made: it stops when closed or told to.\<close>

fun gpuLoop :: "(bool \<times> dialRes) list \<Rightarrow> ConnectDef \<Rightarrow> ConnectDef option" where
  "gpuLoop [] c = Some c"
| "gpuLoop ((stopped, d) # ds) c =
     (if stopped then Some c
      else case containerGpuInfo d of ((again, _), ms) \<Rightarrow> do {
        c' \<leftarrow> crun c (map (\<lambda>m. cop.Write (gpuMessage m)) ms);
        if again then gpuLoop ds c' else Some c'
      })"

section \<open>Stored logs\<close>

datatype jval = JString "byte list" | JOtherVal
datatype json = JObject "(string, jval) gomap" | JOtherJson

datatype minioRes = MinioEnd "ioerr option" | MinioPanic | MinioJson

text \<open>\<open>MinioLog.Start\<close> on the content of the object, with the error that ends reading it. A line
  ends with a newline; what follows the last one is dropped with the error. Messages go straight
  into the channel. \<open>closedAt n\<close> says whether the monitor is found closed after line \<open>n\<close>.\<close>

function minioLoop ::
  "(byte list \<Rightarrow> (string + json)) \<Rightarrow> (nat \<Rightarrow> bool) \<Rightarrow> ioerr \<Rightarrow> nat \<Rightarrow> byte list \<Rightarrow> byte list list \<Rightarrow>
     minioRes \<times> byte list list" where
  "minioLoop unmarshal closedAt err n content msgs =
     (if 10 \<notin> set content
      then (MinioEnd (Some err), case err of EOF \<Rightarrow> msgs | IOErr m \<Rightarrow> msgs @ [bytesOf (m @ LF)])
      else let line = takeWhile (\<lambda>b. b \<noteq> 10) content @ [10];
               rest = drop (length line) content
           in case unmarshal line of
                Inl e \<Rightarrow> (MinioJson, msgs @ [bytesOf (e @ LF)])
              | Inr JOtherJson \<Rightarrow> (MinioPanic, msgs)
              | Inr (JObject data) \<Rightarrow>
                  (case gm_get data ''log'' of
                     Some JOtherVal \<Rightarrow> (MinioPanic, msgs)
                   | Some (JString l) \<Rightarrow>
                       if closedAt n then (MinioEnd None, msgs @ [l])
                       else minioLoop unmarshal closedAt err (Suc n) rest (msgs @ [l])
                   | None \<Rightarrow>
                       if closedAt n then (MinioEnd None, msgs)
                       else minioLoop unmarshal closedAt err (Suc n) rest msgs))"
  by pat_completeness auto
termination
  by (relation "measure (\<lambda>(_, _, _, _, content, _). length content)") (auto intro!: diff_less length_pos_if_in_set)

definition MinioStart ::
  "(byte list \<Rightarrow> (string + json)) \<Rightarrow> (nat \<Rightarrow> bool) \<Rightarrow> string + (byte list \<times> ioerr) \<Rightarrow> minioRes \<times> byte list list" where
  "MinioStart unmarshal closedAt object =
     (case object of
        Inl e \<Rightarrow> (MinioEnd (Some (IOErr e)), [bytesOf (e @ LF)])
      | Inr (content, err) \<Rightarrow> minioLoop unmarshal closedAt err 0 content [])"

section \<open>Polling: what ends it and what does not\<close>

text \<open>The pod a round looks at, and whether its log can be tailed.\<close>

definition podOf :: "LogParam \<Rightarrow> observation \<Rightarrow> podStatus option" where
  "podOf param ob = (case obPods ob (listOption param) of Some (pod # _) \<Rightarrow> Some pod | _ \<Rightarrow> None)"

definition readyPod :: "podStatus \<Rightarrow> bool" where
  "readyPod pod \<longleftrightarrow> GetPodErrorInfo pod = None \<and> (Phase pod = ''Running'' \<or> Phase pod = ''Succeeded'') \<and>
     ContainerStatuses pod \<noteq> []"

definition failedPod :: "podStatus \<Rightarrow> bool" where
  "failedPod pod \<longleftrightarrow> Phase pod = ''Failed'' \<or> Phase pod = ''Unknown''"

definition target :: "nat \<Rightarrow> podStatus \<Rightarrow> poll" where
  "target port pod =
     Tailing (trimPrefix (ContainerID (hd (ContainerStatuses pod))) ''docker://'') (HostIP pod @ '':'' @ showNat port)"

lemma pollStep_pod:
  assumes "\<not> obClosed ob"
  shows "fst (pollStep port param started ob c) =
     (case podOf param ob of
        None \<Rightarrow> if started then Returned else Polling False
      | Some pod \<Rightarrow>
          if GetPodErrorInfo pod \<noteq> None then Polling True
          else if readyPod pod then target port pod
          else if failedPod pod then Returned else Polling True)"
  using assms
  by (auto simp: pollStep_def podOf_def readyPod_def failedPod_def target_def Let_def
      split: option.splits list.splits prod.splits)

lemma pollLoop_append:
  "pollLoop port param started (xs @ ys) c =
     (case pollLoop port param started xs c of
        (Polling started', c') \<Rightarrow> pollLoop port param started' ys c'
      | r \<Rightarrow> r)"
  by (induction xs arbitrary: started c) (auto split: poll.splits prod.splits)

lemma pollLoop_snoc:
  "fst (pollLoop port param started xs c) = Polling started' \<Longrightarrow>
     \<exists>c'. fst (pollLoop port param started (xs @ [ob]) c) = fst (pollStep port param started' ob c')"
proof -
  assume "fst (pollLoop port param started xs c) = Polling started'"
  then obtain c' where "pollLoop port param started xs c = (Polling started', c')" by (metis prod.collapse)
  then show ?thesis
    by (intro exI [of _ c'], cases "pollStep port param started' ob c'")
      (auto simp: pollLoop_append split: poll.splits)
qed

text \<open>A pod that appears, stays and is not given up: the loop keeps polling as long as it is not
  ready.\<close>

lemma keeps_polling:
  assumes "\<And>n. \<not> obClosed (obs n)"
    and "\<And>n. n < first \<Longrightarrow> podOf param (obs n) = None"
    and "\<And>n. first \<le> n \<Longrightarrow> \<exists>pod. podOf param (obs n) = Some pod \<and> (failedPod pod \<longrightarrow> GetPodErrorInfo pod \<noteq> None)"
    and "\<And>n pod. n < k \<Longrightarrow> podOf param (obs n) = Some pod \<Longrightarrow> \<not> readyPod pod"
  shows "fst (pollLoop port param False (map obs [0..<k]) c) = Polling (first < k)"
  using assms(4)
proof (induction k)
  case (Suc k)
  have "fst (pollLoop port param False (map obs [0..<k]) c) = Polling (first < k)"
    by (rule Suc.IH) (rule Suc.prems, rule less_SucI)
  from pollLoop_snoc [OF this, of "obs k"] obtain c' where
    "fst (pollLoop port param False (map obs [0..<Suc k]) c) = fst (pollStep port param (first < k) (obs k) c')"
    by (auto simp: upt_Suc)
  moreover have "fst (pollStep port param (first < k) (obs k) c') = Polling (first < Suc k)"
  proof (cases "k < first")
    case True
    then show ?thesis using assms(1) [of k] assms(2) [of k] by (simp add: pollStep_pod)
  next
    case False
    then obtain pod where "podOf param (obs k) = Some pod" "failedPod pod \<longrightarrow> GetPodErrorInfo pod \<noteq> None"
      using assms(3) [of k] by auto
    with False Suc.prems [of k pod] show ?thesis using assms(1) [of k] by (auto simp: pollStep_pod)
  qed
  ultimately show ?case by simp
qed simp

text \<open>C16: liveness of the polling. If the monitor is never closed, the pod appears at some point and
  stays listed, is not found failed without an error of a container, and is ready (running or
  succeeded, with a container and no error) at least once, then after finitely many rounds, no later
  than that one, \<open>Start\<close> leaves the loop to tail the first container of a ready pod on that pod's
  node.\<close>

theorem polling_reaches_tailing:
  assumes "\<And>n. \<not> obClosed (obs n)"
    and "\<And>n. n < first \<Longrightarrow> podOf param (obs n) = None"
    and "\<And>n. first \<le> n \<Longrightarrow> \<exists>pod. podOf param (obs n) = Some pod \<and> (failedPod pod \<longrightarrow> GetPodErrorInfo pod \<noteq> None)"
    and "podOf param (obs N) = Some pod" and "readyPod pod"
  shows "\<exists>n \<le> N. \<exists>pod. podOf param (obs n) = Some pod \<and> readyPod pod \<and>
           fst (pollLoop port param False (map obs [0..<Suc n]) c) = target port pod"
proof -
  define ready where "ready n \<longleftrightarrow> (\<exists>pod. podOf param (obs n) = Some pod \<and> readyPod pod)" for n
  define n where "n = (LEAST n. ready n)"
  have N: "ready N" using assms(4,5) by (auto simp: ready_def)
  have n: "ready n" "n \<le> N" unfolding n_def using N by (auto intro: LeastI Least_le)
  have "\<not> ready m" if "m < n" for m using not_less_Least that unfolding n_def by blast
  then have "fst (pollLoop port param False (map obs [0..<n]) c) = Polling (first < n)"
    by (intro keeps_polling [OF assms(1,2,3)]) (auto simp: ready_def)
  from pollLoop_snoc [OF this, of "obs n"] obtain c' where
    "fst (pollLoop port param False (map obs [0..<Suc n]) c) = fst (pollStep port param (first < n) (obs n) c')"
    by auto
  moreover obtain p where "podOf param (obs n) = Some p" "readyPod p" using n(1) by (auto simp: ready_def)
  ultimately show ?thesis using n(2) assms(1) [of n]
    by (intro exI [of _ n]) (auto simp: pollStep_pod readyPod_def)
qed

definition demoPod :: "string \<Rightarrow> podStatus" where
  "demoPod ph =
     \<lparr>Phase = ph, podReason = [], HostIP = ''10.0.0.7'', InitContainerStatuses = [],
      ContainerStatuses = [\<lparr>isRunning = ph = ''Running'',
        Terminated = (if ph = ''Failed'' then Some \<lparr>ExitCode = 1, tReason = ''Error'', tMessage = []\<rparr> else None),
        Waiting = None, ContainerID = ''docker://c1''\<rparr>]\<rparr>"

definition demoParam :: LogParam where
  "demoParam = \<lparr>Host = [], ContainerId = [], Operator = ''log'', Tail = [], TrackNo = [], PodLabel = ''t1'',
     PodName = [], MinioObjName = [], ExpirationTime = 0\<rparr>"

definition demoObs :: "string \<Rightarrow> observation" where
  "demoObs ph = \<lparr>obClosed = False, obPods = (\<lambda>sel. if sel = ([], ''app=t1'') then Some [demoPod ph] else None)\<rparr>"

lemma demoObs_simps [simp]:
  "obClosed (demoObs ph) = False" "podOf demoParam (demoObs ph) = Some (demoPod ph)"
  by (simp_all add: demoObs_def demoParam_def podOf_def listOption_def)

lemma demoPod_simps [simp]:
  "readyPod (demoPod ''Running'')" "\<not> readyPod (demoPod ''Pending'')"
  "failedPod (demoPod ph) \<longleftrightarrow> ph = ''Failed'' \<or> ph = ''Unknown''"
  "GetPodErrorInfo (demoPod ''Failed'') \<noteq> None"
  by (simp_all add: demoPod_def readyPod_def failedPod_def GetPodErrorInfo_def statusError_def)

theorem polling_reaches_tailing_witness:
  "\<exists>n \<le> 3. fst (pollLoop 2375 demoParam False (map (\<lambda>n. demoObs (if n < 2 then ''Pending'' else ''Running'')) [0..<Suc n])
      (newConnect ''u'' ''log'')) = Tailing ''c1'' ''10.0.0.7:2375''"
proof -
  let ?obs = "\<lambda>n::nat. demoObs (if n < 2 then ''Pending'' else ''Running'')"
  have t: "target 2375 (demoPod ph) = Tailing ''c1'' ''10.0.0.7:2375''" for ph
    by (simp add: target_def demoPod_def trimPrefix_def) code_simp
  have "\<exists>n \<le> 3. \<exists>pod. podOf demoParam (?obs n) = Some pod \<and> readyPod pod \<and>
      fst (pollLoop 2375 demoParam False (map ?obs [0..<Suc n]) (newConnect ''u'' ''log'')) = target 2375 pod"
    by (rule polling_reaches_tailing [where first = 0 and pod = "demoPod ''Running''"]) simp_all
  then show ?thesis by (auto simp: t simp del: upt_Suc)
qed

text \<open>A task whose container failed is reported as failing forever. While the pod stays listed
  with an error of one of its containers, as a failed pod does, every round sends the error again and
  polls on: neither the branch for the phase \<open>Failed\<close> nor the tailing of the failed container's log is
  ever reached, however long it goes on.\<close>

theorem failed_task_polled_forever:
  assumes "\<And>n. \<not> obClosed (obs n)"
    and "\<And>n. \<exists>pod. podOf param (obs n) = Some pod \<and> GetPodErrorInfo pod \<noteq> None"
  shows "fst (pollLoop port param False (map obs [0..<n]) c) = Polling (0 < n)"
proof (rule keeps_polling [where first = 0 and k = n])
  show "\<not> readyPod pod" if "podOf param (obs m) = Some pod" for m pod
    using assms(2) [of m] that by (auto simp: readyPod_def)
  show "\<exists>pod. podOf param (obs m) = Some pod \<and> (failedPod pod \<longrightarrow> GetPodErrorInfo pod \<noteq> None)" for m
    using assms(2) [of m] by blast
qed (use assms(1) in auto)

theorem failed_task_polled_forever_witness:
  "Phase (demoPod ''Failed'') = ''Failed'' \<and>
   fst (pollLoop 2375 demoParam False (map (\<lambda>_. demoObs ''Failed'') [0..<7]) (newConnect ''u'' ''log'')) = Polling True"
  using failed_task_polled_forever [of "\<lambda>_. demoObs ''Failed''" demoParam 2375 7 "newConnect ''u'' ''log''"]
  by (simp add: demoPod_def [of "''Failed''"] GetPodErrorInfo_def statusError_def)

section \<open>Tailing delivers the log\<close>

lemma bytesOf_simps [simp]: "bytesOf [] = []" "bytesOf (x # s) = of_char x # bytesOf s" "bytesOf (s @ t) = bytesOf s @ bytesOf t"
  by (simp_all add: bytesOf_def)

text \<open>Status messages leave the log messages and the cache alone.\<close>

definition onlyStats :: "ConnectDef \<Rightarrow> ConnectDef \<Rightarrow> bool" where
  "onlyStats c c' \<longleftrightarrow> (conn_wf c \<longrightarrow> conn_wf c') \<and> msgCache c' = msgCache c \<and>
     payload LOG_MESSAGE (outMsgs c') = payload LOG_MESSAGE (outMsgs c)"

lemma onlyStats_refl [simp]: "onlyStats c c"
  by (simp add: onlyStats_def)

lemma onlyStats_statMid [simp]: "onlyStats c (statMid s c)"
  by (auto simp: onlyStats_def statMid_def writeMid_def conn_wf_def logStatMessage_def LOG_STAT_MESSAGE_def LOG_MESSAGE_def)

lemma onlyStats_trans: "onlyStats a b \<Longrightarrow> onlyStats b c \<Longrightarrow> onlyStats a c"
  by (simp add: onlyStats_def)

lemma pollStep_onlyStats: "onlyStats c (snd (pollStep port param started ob c))"
  by (auto simp: pollStep_def Let_def intro: onlyStats_trans [OF onlyStats_statMid]
      split: option.splits list.splits)

lemma pollLoop_onlyStats: "onlyStats c (snd (pollLoop port param started obs c))"
proof (induction obs arbitrary: started c)
  case (Cons ob obs)
  show ?case using pollStep_onlyStats [of c port param started ob] Cons.IH
    by (auto split: prod.splits poll.splits intro: onlyStats_trans)
qed simp

lemma tailOps_writes [simp]: "writesOf (tailOps fires n ms) = ms" "midsOf (tailOps fires n ms) = []"
  by (induction ms arbitrary: n) auto

lemma tailOps_runs:
  "conn_wf c \<Longrightarrow> \<forall>m \<in> set ms. 4 \<le> length m \<Longrightarrow> \<exists>c'. crun c (tailOps fires n ms) = Some c'"
proof (induction ms arbitrary: c n)
  case (Cons m ms)
  then obtain c1 where c1: "cstep c (cop.Write m) = Some c1" by (auto simp: cwrite_def Let_def)
  have wf1: "conn_wf c1" using cstep_wf [OF Cons.prems(1) c1] .
  have "sendingFlag c1" using c1 by (auto simp: cwrite_def Let_def split: if_splits)
  then have t: "timer c1" using wf1 by (simp add: conn_wf_def)
  then have fire: "cstep c1 TimerFires = Some (timerFires c1)" by simp
  then have "conn_wf (timerFires c1)" using cstep_wf wf1 by blast
  with Cons.IH Cons.prems(2) wf1 c1 fire show ?case by (auto simp: t)
qed simp

lemma logMessage_type [simp]: "4 \<le> length (logMessage l r m)" "take 4 (logMessage l r m) = LOG_MESSAGE"
  by (simp_all add: logMessage_def LOG_MESSAGE_def)

lemma payload_logMessages:
  "payload LOG_MESSAGE (map (\<lambda>(n, f). logMessage l (rnd n) (snd f)) xs) =
     concat (map (\<lambda>(n, f). drop 4 (logMessage l (rnd n) (snd f))) xs)"
  by (induction xs) auto

lemma tailEnd_payload:
  assumes "conn_wf c"
  shows "payload LOG_MESSAGE (outMsgs (tailEnd c)) = payload LOG_MESSAGE (outMsgs c) @ cached LOG_MESSAGE c"
    and "last (outMsgs (tailEnd c)) = logStatMessage LOG_END"
  using assms payload_cache [of "msgCache c" LOG_MESSAGE]
  by (simp_all add: tailEnd_def writeMid_def flush_def conn_wf_def Let_def cached_def logStatMessage_def
      LOG_MESSAGE_def LOG_STAT_MESSAGE_def)

lemma tailLog_delivers:
  assumes "\<forall>f \<in> set fs. fst f \<noteq> Systemerr \<and> length (snd f) < 2 ^ 32"
    and "clean src" and "sbytes src = concat (map encodeFrame fs)" and "conn_wf c" and "msgCache c = []"
  shows "\<exists>c'. tailLog lineMaxSize rnd fires (Inr src) c = Some (None, c') \<and> msgCache c' = [] \<and>
    payload LOG_MESSAGE (outMsgs c') = payload LOG_MESSAGE (outMsgs c) @
      concat (map (\<lambda>(n, f). drop 4 (logMessage lineMaxSize (rnd n) (snd f))) (enumerate 0 fs)) \<and>
    last (outMsgs c') = logStatMessage LOG_END"
proof -
  let ?ms = "map (\<lambda>(n, f). logMessage lineMaxSize (rnd n) (snd f)) (enumerate 0 fs)"
  have copy: "StdCopy lineMaxSize rnd discard () src =
      Some \<lparr>copyRes.written = sum_list (map (length \<circ> snd) fs), cerr = None, sent = ?ms, dst = ()\<rparr>"
    using stdLoop_frames [OF assms(1) _ assms(2), of startingBufLen "[]"] assms(3)
    by (simp add: StdCopy_def startingBufLen_def)
  obtain c1 where c1: "crun c (tailOps fires 0 ?ms) = Some c1"
    using tailOps_runs [OF assms(4), of ?ms fires 0] by (force simp: split_def)
  have run: "conn_wf c1" "payload LOG_MESSAGE (outMsgs c1) @ cached LOG_MESSAGE c1 =
      payload LOG_MESSAGE (outMsgs c) @ payload LOG_MESSAGE ?ms"
    using crun_payload [OF assms(4) c1, of LOG_MESSAGE] assms(5) by (simp_all add: cached_def)
  have "msgCache (tailEnd c1) = []"
    using run(1) by (simp add: tailEnd_def writeMid_def flush_def conn_wf_def Let_def)
  then show ?thesis
    using copy c1 run(2) tailEnd_payload [OF run(1)] by (auto simp: tailLog_def payload_logMessages)
qed



section \<open>Stored logs and clients\<close>

declare minioLoop.simps [simp del]

lemma takeWhile_line: "x \<notin> set l \<Longrightarrow> takeWhile (\<lambda>b. b \<noteq> x) (l @ x # rest) = l"
  by (induction l) auto

lemma minioLoop_line:
  assumes "10 \<notin> set l" and "unmarshal (l @ [10]) = Inr (JObject data)"
    and "gm_get data ''log'' = Some (JString x)" and "\<not> closedAt n"
  shows "minioLoop unmarshal closedAt err n (l @ [10] @ rest) msgs =
           minioLoop unmarshal closedAt err (Suc n) rest (msgs @ [x])"
  using assms by (subst minioLoop.simps) (simp add: Let_def takeWhile_line)

text \<open>A stored log is replayed line by line up to the last newline: the text of every complete
  line is sent, in order, and what follows the last newline is dropped without a message.\<close>

theorem stored_log_replayed:
  assumes "\<forall>(l, x) \<in> set ls. 10 \<notin> set l \<and>
      (\<exists>data. unmarshal (l @ [10]) = Inr (JObject data) \<and> gm_get data ''log'' = Some (JString x))"
    and "10 \<notin> set partial" and "\<And>n. \<not> closedAt n"
  shows "MinioStart unmarshal closedAt (Inr (concat (map (\<lambda>(l, x). l @ [10]) ls) @ partial, EOF)) =
           (MinioEnd (Some EOF), map snd ls)"
proof -
  have "minioLoop unmarshal closedAt EOF n (concat (map (\<lambda>(l, x). l @ [10]) ls) @ partial) msgs =
      (MinioEnd (Some EOF), msgs @ map snd ls)" for n msgs
    using assms(1)
  proof (induction ls arbitrary: n msgs)
    case Nil
    then show ?case using assms(2) by (subst minioLoop.simps) simp
  next
    case (Cons lx ls)
    obtain l x where lx: "lx = (l, x)" by (cases lx)
    from Cons.prems lx obtain data where "10 \<notin> set l" "unmarshal (l @ [10]) = Inr (JObject data)"
      "gm_get data ''log'' = Some (JString x)" by auto
    from minioLoop_line [of l unmarshal data x closedAt n EOF, OF this assms(3)] Cons.IH Cons.prems lx
    show ?case by simp
  qed
  then show ?thesis by (simp add: MinioStart_def)
qed

theorem stored_log_replayed_witness:
  "MinioStart (\<lambda>l. Inr (JObject [(''log'', JString (butlast l))])) (\<lambda>_. False) (Inr ([97, 10, 98, 10, 99], EOF)) =
     (MinioEnd (Some EOF), [[97], [98]])"
  using stored_log_replayed [of "[([97], [97]), ([98], [98])]" "\<lambda>l. Inr (JObject [(''log'', JString (butlast l))])"
      "[99]" "\<lambda>_. False"]
  by simp

text \<open>A stored client is used again, and no other host's client is touched.\<close>

theorem GetDockerClient_cached:
  assumes "GetDockerClient newClient h cache = (Some c, cache')"
  shows "GetDockerClient newClient' h cache' = (Some c, cache') \<and> (\<forall>h'. h' \<noteq> h \<longrightarrow> gm_get cache' h' = gm_get cache h')"
  using assms by (auto simp: GetDockerClient_def split: option.splits)

theorem GetPodProcess_le:
  "GetPodProcess st \<le> length (InitContainerStatuses st) + length (ContainerStatuses st)"
  by (simp add: GetPodProcess_def add_mono)

end
