(* ===== verification/Go_Float.thy ===== *)
theory Go_Float
  imports Complex_Main Go_Prelude "HOL-Library.Log_Nat"
begin

text \<open>
  Go's binary floating point numbers, as far as the program computes with them: a finite
  \<open>float32\<close> or \<open>float64\<close> is its rational value, and every conversion and operation rounds the
  exact result to the nearest multiple of the unit in the last place for a significand of 24 or
  53 bits, ties to even. The numbers the program handles are counters, their quotients and
  percentages, far from overflow and from the subnormal range, so neither is modelled; infinities
  and NaN appear only where a theory says so.
\<close>

section \<open>Rounding\<close>

definition pow2 :: "int \<Rightarrow> rat" where
  "pow2 e = (if 0 \<le> e then 2 ^ nat e else 1 / 2 ^ nat (- e))"

definition roundHalfEven :: "rat \<Rightarrow> int" where
  "roundHalfEven x =
     (let f = \<lfloor>x\<rfloor>; r = x - of_int f
      in if r < 1 / 2 then f else if 1 / 2 < r then f + 1 else if even f then f else f + 1)"

text \<open>The exponent of the last place: \<open>2 ^ (p - 1) \<le> \<bar>q\<bar> / pow2 e < 2 ^ p\<close>. The bit lengths of
  numerator and denominator give it up to one, which a comparison settles.\<close>

definition ulpExp :: "nat \<Rightarrow> rat \<Rightarrow> int" where
  "ulpExp p q =
     (let (n, d) = quotient_of \<bar>q\<bar>; e = bitlen n - bitlen d
      in (if pow2 e \<le> \<bar>q\<bar> then e + 1 else e) - int p)"

definition roundTo :: "nat \<Rightarrow> rat \<Rightarrow> rat" where
  "roundTo p q =
     (if q = 0 then 0 else of_int (roundHalfEven (q / pow2 (ulpExp p q))) * pow2 (ulpExp p q))"

definition f32 :: "rat \<Rightarrow> rat" where
  "f32 q = roundTo 24 q"

definition f64 :: "rat \<Rightarrow> rat" where
  "f64 q = roundTo 53 q"

text \<open>Conversion to an unsigned integer truncates; the argument is in range.\<close>

definition f_to_u32 :: "rat \<Rightarrow> u32" where
  "f_to_u32 x = word_of_int \<lfloor>x\<rfloor>"

lemma pow2_pos [simp]: "0 < pow2 e" and pow2_nonneg [simp]: "0 \<le> pow2 e" and pow2_nz [simp]: "pow2 e \<noteq> 0"
  by (simp_all add: pow2_def)

lemma pow2_powi: "pow2 e = 2 powi e"
  by (simp add: pow2_def power_int_def field_simps)

lemma pow2_add: "pow2 (a + b) = pow2 a * pow2 b"
  by (simp add: pow2_powi power_int_add)

lemma pow2_nat: "pow2 (int n) = 2 ^ n"
  by (simp add: pow2_def)

lemma pow2_mono: "a \<le> b \<Longrightarrow> pow2 a \<le> pow2 b"
  by (simp add: pow2_powi power_int_increasing)

lemma pow2_diff: "pow2 (a - b) = pow2 a / pow2 b"
  by (simp add: pow2_powi power_int_diff)

lemma roundHalfEven_of_int [simp]: "roundHalfEven (of_int n) = n"
  by (simp add: roundHalfEven_def)

lemma roundHalfEven_bounds: "\<lfloor>x\<rfloor> \<le> roundHalfEven x" "roundHalfEven x \<le> \<lfloor>x\<rfloor> + 1"
  by (simp_all add: roundHalfEven_def Let_def)

lemma roundHalfEven_error: "\<bar>of_int (roundHalfEven x) - x\<bar> \<le> 1 / 2"
proof -
  have "of_int \<lfloor>x\<rfloor> \<le> x" "x < of_int \<lfloor>x\<rfloor> + 1" by linarith+
  then show ?thesis by (simp add: roundHalfEven_def Let_def abs_le_iff)
qed

lemma roundHalfEven_mono: "x \<le> y \<Longrightarrow> roundHalfEven x \<le> roundHalfEven y"
proof (cases "\<lfloor>x\<rfloor> = \<lfloor>y\<rfloor>")
  case True
  moreover assume "x \<le> y"
  ultimately show ?thesis by (auto simp: roundHalfEven_def Let_def)
next
  case False
  assume "x \<le> y"
  then have "\<lfloor>x\<rfloor> + 1 \<le> \<lfloor>y\<rfloor>" using False floor_mono [of x y] by linarith
  then show ?thesis using roundHalfEven_bounds(2) [of x] roundHalfEven_bounds(1) [of y] by linarith
qed

lemma bitlen_pow2: "0 < n \<Longrightarrow> pow2 (bitlen n - 1) \<le> of_int n \<and> of_int n < pow2 (bitlen n)"
proof -
  assume n: "0 < n"
  have "\<not> bitlen n \<le> 0" using n bitlen_le_iff_power [of n 0] by simp
  then have b: "1 \<le> bitlen n" by simp
  have *: "2 ^ nat (bitlen n - 1) \<le> n \<and> n < 2 ^ nat (bitlen n)"
    using bitlen_bounds [OF n] .
  have "of_int (2 ^ nat (bitlen n - 1)) \<le> (of_int n :: rat)" and "(of_int n :: rat) < of_int (2 ^ nat (bitlen n))"
    using * of_int_le_iff of_int_less_iff by blast+
  then show ?thesis using b by (simp add: pow2_def)
qed

lemma ulpExp_bounds:
  assumes "q \<noteq> 0"
  shows "pow2 (ulpExp p q + int p - 1) \<le> \<bar>q\<bar>" and "\<bar>q\<bar> < pow2 (ulpExp p q + int p)"
proof -
  obtain n d where nd: "quotient_of \<bar>q\<bar> = (n, d)" by (cases "quotient_of \<bar>q\<bar>")
  have d: "0 < d" using quotient_of_denom_pos [OF nd] .
  have q: "\<bar>q\<bar> = of_int n / of_int d" using quotient_of_div [OF nd] .
  have "(0 :: rat) < of_int n / of_int d" using q assms zero_less_abs_iff [of q] by simp
  then have n: "0 < n" using d by (simp add: zero_less_divide_iff)
  let ?e = "bitlen n - bitlen d"
  note bn = bitlen_pow2 [OF n] and bd = bitlen_pow2 [OF d]
  have up: "\<bar>q\<bar> < pow2 (?e + 1)"
  proof -
    have "\<bar>q\<bar> \<le> of_int n / pow2 (bitlen d - 1)"
      unfolding q using bd n d by (intro divide_left_mono) simp_all
    also have "\<dots> < pow2 (bitlen n) / pow2 (bitlen d - 1)"
      using bn by (intro divide_strict_right_mono) simp_all
    finally show ?thesis by (simp add: pow2_diff [symmetric] algebra_simps)
  qed
  have lo: "pow2 (?e - 1) \<le> \<bar>q\<bar>"
  proof -
    have "pow2 (bitlen n - 1) / pow2 (bitlen d) \<le> of_int n / pow2 (bitlen d)"
      using bn by (intro divide_right_mono) simp_all
    also have "\<dots> \<le> \<bar>q\<bar>"
      unfolding q using bd n d by (intro divide_left_mono) simp_all
    finally show ?thesis by (simp add: pow2_diff [symmetric] algebra_simps)
  qed
  have eq: "ulpExp p q = (if pow2 ?e \<le> \<bar>q\<bar> then ?e + 1 else ?e) - int p"
    by (simp add: ulpExp_def nd)
  show "pow2 (ulpExp p q + int p - 1) \<le> \<bar>q\<bar>" and "\<bar>q\<bar> < pow2 (ulpExp p q + int p)"
    using up lo by (simp_all add: eq)
qed

lemma ulpExp_mono: "0 < a \<Longrightarrow> a \<le> b \<Longrightarrow> ulpExp p a \<le> ulpExp p b"
proof (rule ccontr)
  assume ab: "0 < a" "a \<le> b" and "\<not> ulpExp p a \<le> ulpExp p b"
  then have "ulpExp p b + int p \<le> ulpExp p a + int p - 1" by simp
  from pow2_mono [OF this] ulpExp_bounds(1) [of a p] ulpExp_bounds(2) [of b p] ab show False by simp
qed

section \<open>What rounding keeps\<close>

lemma roundTo_0 [simp]: "roundTo p 0 = 0"
  by (simp add: roundTo_def)

lemma roundTo_nonneg: "0 \<le> q \<Longrightarrow> 0 \<le> roundTo p q"
proof (cases "q = 0")
  case False
  assume "0 \<le> q"
  then have "0 \<le> roundHalfEven (q / pow2 (ulpExp p q))"
    using roundHalfEven_bounds(1) [of "q / pow2 (ulpExp p q)"]
    by (meson order_trans pow2_nonneg zero_le_divide_iff zero_le_floor)
  then show ?thesis by (simp add: roundTo_def)
qed simp

lemma roundTo_mono_pos:
  assumes "0 < a" and "a \<le> b" and "0 < p"
  shows "roundTo p a \<le> roundTo p b"
proof (cases "ulpExp p a = ulpExp p b")
  case True
  have "a / pow2 (ulpExp p b) \<le> b / pow2 (ulpExp p b)" using assms by (simp add: divide_right_mono)
  from roundHalfEven_mono [OF this] show ?thesis
    using assms True by (simp add: roundTo_def mult_right_mono)
next
  case False
  let ?ea = "ulpExp p a" and ?eb = "ulpExp p b"
  have lt: "?ea + 1 \<le> ?eb" using False ulpExp_mono [OF assms(1,2), of p] by simp
  have "a / pow2 ?ea \<le> of_int (2 ^ p)"
    using ulpExp_bounds(2) [of a p] assms by (simp add: pow2_add pow2_nat field_simps)
  then have "roundHalfEven (a / pow2 ?ea) \<le> 2 ^ p"
    using roundHalfEven_mono [of "a / pow2 ?ea" "of_int (2 ^ p)"] by (simp del: of_int_power)
  then have "(of_int (roundHalfEven (a / pow2 ?ea)) :: rat) \<le> of_int (2 ^ p)"
    using of_int_le_iff by blast
  then have "roundTo p a \<le> 2 ^ p * pow2 ?ea"
    using assms by (simp add: roundTo_def mult_right_mono)
  also have "\<dots> = pow2 (?ea + int p)" by (simp add: pow2_add pow2_nat)
  also have "\<dots> \<le> pow2 (?eb + int p - 1)" using lt by (intro pow2_mono) simp
  also have "\<dots> \<le> roundTo p b"
  proof -
    have b: "0 < b" using assms by simp
    have "pow2 (int p - 1) \<le> b / pow2 ?eb"
      using ulpExp_bounds(1) [of b p] b by (simp add: pow2_add [symmetric] field_simps pow2_diff)
    obtain k where p: "p = Suc k" using assms(3) by (cases p) auto
    have "of_int (2 ^ k) \<le> b / pow2 ?eb"
      using \<open>pow2 (int p - 1) \<le> b / pow2 ?eb\<close> p by (simp add: pow2_nat)
    from roundHalfEven_mono [OF this] have "2 ^ k \<le> roundHalfEven (b / pow2 ?eb)"
      by (simp del: of_int_power)
    then have "(of_int (2 ^ k) :: rat) \<le> of_int (roundHalfEven (b / pow2 ?eb))"
      using of_int_le_iff by blast
    then show ?thesis
      using b p by (simp add: roundTo_def pow2_add pow2_nat mult.commute mult_right_mono)
  qed
  finally show ?thesis .
qed

lemma roundTo_mono: "0 \<le> a \<Longrightarrow> a \<le> b \<Longrightarrow> 0 < p \<Longrightarrow> roundTo p a \<le> roundTo p b"
  by (cases "a = 0") (simp_all add: roundTo_nonneg roundTo_mono_pos)

text \<open>Integers of at most \<open>p\<close> bits are exact.\<close>

lemma roundTo_of_int:
  assumes "\<bar>n\<bar> < 2 ^ p"
  shows "roundTo p (of_int n) = of_int n"
proof (cases "n = 0")
  case False
  let ?e = "ulpExp p (of_int n)"
  have "?e \<le> 0"
  proof (rule ccontr)
    assume "\<not> ?e \<le> 0"
    then have "pow2 (int p) \<le> pow2 (?e + int p - 1)" by (intro pow2_mono) simp
    also have "\<dots> \<le> \<bar>of_int n\<bar>" using ulpExp_bounds(1) [of "of_int n" p] False by simp
    finally have "(of_int (2 ^ p) :: rat) \<le> of_int \<bar>n\<bar>" by (simp add: pow2_nat)
    then show False using assms of_int_le_iff by (metis linorder_not_le)
  qed
  then have "of_int n / pow2 ?e = of_int (n * 2 ^ nat (- ?e))"
    by (cases "?e = 0") (simp_all add: pow2_def)
  then have "roundHalfEven (of_int n / pow2 ?e) = n * 2 ^ nat (- ?e)"
    by (metis roundHalfEven_of_int)
  moreover have "of_int (n * 2 ^ nat (- ?e)) * pow2 ?e = of_int n"
    using \<open>?e \<le> 0\<close> by (cases "?e = 0") (simp_all add: pow2_def)
  ultimately show ?thesis using False by (simp add: roundTo_def)
qed simp

text \<open>The relative error of one rounding.\<close>

lemma roundTo_error: "\<bar>roundTo p q - q\<bar> \<le> \<bar>q\<bar> / 2 ^ p"
proof (cases "q = 0")
  case False
  let ?e = "ulpExp p q"
  have "\<bar>roundTo p q - q\<bar> = \<bar>of_int (roundHalfEven (q / pow2 ?e)) - q / pow2 ?e\<bar> * pow2 ?e"
  proof -
    have "roundTo p q - q = (of_int (roundHalfEven (q / pow2 ?e)) - q / pow2 ?e) * pow2 ?e"
      using False by (simp add: roundTo_def left_diff_distrib)
    then show ?thesis by (simp add: abs_mult)
  qed
  also have "\<dots> \<le> 1 / 2 * pow2 ?e"
    by (intro mult_right_mono roundHalfEven_error) simp
  also have "\<dots> = pow2 (?e + int p - 1) / 2 ^ p"
    by (simp add: pow2_add pow2_diff pow2_nat) (simp add: pow2_def)
  also have "\<dots> \<le> \<bar>q\<bar> / 2 ^ p"
    using ulpExp_bounds(1) [OF False, of p] by (intro divide_right_mono) simp_all
  finally show ?thesis .
qed simp

text \<open>A percentage of a part of a whole, computed as \<open>part / whole * 100\<close> in \<open>float64\<close>.\<close>

definition percent64 :: "rat \<Rightarrow> rat \<Rightarrow> rat" where
  "percent64 a b = f64 (f64 (a / b) * 100)"

lemma percent64_bounds:
  assumes "0 \<le> a" and "a \<le> b" and "0 < b"
  shows "0 \<le> percent64 a b" and "percent64 a b \<le> 100"
proof -
  have q: "0 \<le> a / b" "a / b \<le> 1" using assms by simp_all
  have one: "f64 1 = 1" using roundTo_of_int [of 1 53] by (simp add: f64_def)
  have r: "0 \<le> f64 (a / b)" "f64 (a / b) \<le> 1"
    using roundTo_nonneg [OF q(1)] roundTo_mono [OF q, of 53] one by (simp_all add: f64_def)
  have hundred: "f64 100 = 100" using roundTo_of_int [of 100 53] by (simp add: f64_def)
  show "0 \<le> percent64 a b" using r by (simp add: percent64_def f64_def roundTo_nonneg)
  show "percent64 a b \<le> 100"
    using roundTo_mono [of "f64 (a / b) * 100" 100 53] r hundred
    by (simp add: percent64_def) (simp add: f64_def)
qed

lemma f_to_u32_percent: "0 \<le> x \<Longrightarrow> x \<le> 100 \<Longrightarrow> unat (f_to_u32 x) \<le> 100 \<and> of_nat (unat (f_to_u32 x)) \<le> x"
proof -
  assume x: "0 \<le> x" "x \<le> 100"
  then have "0 \<le> \<lfloor>x\<rfloor>" "\<lfloor>x\<rfloor> \<le> 100" by (simp_all add: floor_le_iff)
  then have "uint (f_to_u32 x) = \<lfloor>x\<rfloor>" by (simp add: f_to_u32_def uint_word_of_int)
  then have "unat (f_to_u32 x) = nat \<lfloor>x\<rfloor>" by (simp add: unat_eq_nat_uint)
  moreover have "nat \<lfloor>x\<rfloor> \<le> 100" using \<open>\<lfloor>x\<rfloor> \<le> 100\<close> by linarith
  moreover have "of_nat (nat \<lfloor>x\<rfloor>) \<le> x" using x(1) by simp
  ultimately show ?thesis by simp
qed

end
