(* ===== verification/Container_Stats.thy ===== *)
theory Container_Stats
  imports Go_Float Connect_Hub
begin

text \<open>
  The resource readings of a container, \<open>containerResourceInfo\<close> and the functions it computes
  with in \<open>container_log/DockerLog.go\<close>. Docker's counters are 64-bit words, whose sums and
  differences wrap around; percentages are \<open>float64\<close>, rounded after every operation as in
  \<open>Go_Float\<close>. The JSON decoder and encoder and Docker's answers are arguments.
\<close>

section \<open>Statistics\<close>

record CPUStats =
  TotalUsage :: u64
  PercpuUsage :: "u64 list"
  SystemUsage :: u64
  OnlineCPUs :: u32

record MemoryStats =
  Usage :: u64
  Limit :: u64
  Stats :: "(string, u64) gomap"
  PrivateWorkingSet :: u64

record StatsJSON =
  stName :: string
  stID :: string
  cpuStats :: CPUStats
  preCPUStats :: CPUStats
  IoServiceBytesRecursive :: "(string \<times> u64) list"
  memoryStats :: MemoryStats
  pidsCurrent :: u64
  Networks :: "(string, u64 \<times> u64) gomap"
  ReadSizeBytes :: u64
  WriteSizeBytes :: u64
  NumProcs :: u32
  elapsedNs :: int

record StatsEntry =
  seName :: string
  seID :: string
  CPUPercentage :: rat
  Memory :: rat
  MemoryPercentage :: rat
  MemoryLimit :: rat
  NetworkRx :: rat
  NetworkTx :: rat
  BlockRead :: rat
  BlockWrite :: rat
  PidsCurrent :: u64

definition fu :: "u64 \<Rightarrow> rat" where
  "fu w = f64 (of_nat (unat w))"

definition calculateCPUPercentUnix :: "rat \<Rightarrow> u64 \<Rightarrow> u64 \<Rightarrow> CPUStats \<Rightarrow> rat" where
  "calculateCPUPercentUnix cpus previousCPU previousSystem v =
     (let cpuDelta = f64 (fu (TotalUsage v) - fu previousCPU);
          systemDelta = f64 (fu (SystemUsage v) - fu previousSystem);
          online = f64 (of_nat (unat (OnlineCPUs v)));
          online' = (if online = 0 then f64 (of_nat (length (PercpuUsage v))) else online);
          p = (if systemDelta > 0 \<and> cpuDelta > 0
               then f64 (f64 (f64 (cpuDelta / systemDelta) * online') * 100) else 0)
      in if cpus > 0 then f64 (p / cpus) else p)"

fun calculateBlockIO :: "(string \<times> u64) list \<Rightarrow> u64 \<times> u64 \<Rightarrow> u64 \<times> u64" where
  "calculateBlockIO [] acc = acc"
| "calculateBlockIO ((op, v) # es) (blkRead, blkWrite) =
     calculateBlockIO es
       (case op of
          [] \<Rightarrow> (blkRead, blkWrite)
        | x # _ \<Rightarrow>
            if x = CHR ''r'' \<or> x = CHR ''R'' then (blkRead + v, blkWrite)
            else if x = CHR ''w'' \<or> x = CHR ''W'' then (blkRead, blkWrite + v)
            else (blkRead, blkWrite))"

definition calculateNetwork :: "(string, u64 \<times> u64) gomap \<Rightarrow> rat \<times> rat" where
  "calculateNetwork network =
     foldl (\<lambda>(rx, tx) (_, r, t). (f64 (rx + fu r), f64 (tx + fu t))) (0, 0) network"

text \<open>A missing key reads as zero.\<close>

definition calculateMemUsageUnixNoCache :: "MemoryStats \<Rightarrow> rat" where
  "calculateMemUsageUnixNoCache mem =
     (case gm_get (Stats mem) ''total_inactive_file'' of
        Some v \<Rightarrow>
          if v < Usage mem then fu (Usage mem - v)
          else let i = (case gm_get (Stats mem) ''inactive_file'' of Some i \<Rightarrow> i | None \<Rightarrow> 0)
               in if i < Usage mem then fu (Usage mem - i) else fu (Usage mem)
      | None \<Rightarrow>
          (let i = (case gm_get (Stats mem) ''inactive_file'' of Some i \<Rightarrow> i | None \<Rightarrow> 0)
           in if i < Usage mem then fu (Usage mem - i) else fu (Usage mem)))"

definition calculateMemPercentUnixNoCache :: "rat \<Rightarrow> rat \<Rightarrow> rat" where
  "calculateMemPercentUnixNoCache limit usedNoCache =
     (if limit \<noteq> 0 then percent64 usedNoCache limit else 0)"

definition calculateCPUPercentWindows :: "StatsJSON \<Rightarrow> rat" where
  "calculateCPUPercentWindows v =
     (let possIntervals = (word_of_int (elapsedNs v) div 100) * ucast (NumProcs v) :: u64;
          intervalsUsed = TotalUsage (cpuStats v) - TotalUsage (preCPUStats v)
      in if possIntervals > 0 then percent64 (fu intervalsUsed) (fu possIntervals) else 0)"

section \<open>The reading loop\<close>

definition statsOf :: "string \<Rightarrow> rat \<Rightarrow> StatsJSON \<Rightarrow> StatsEntry" where
  "statsOf daemonOSType cpus v =
     (let (cpuPercent, (blkRead, blkWrite), mem, memLimit, memPercent, pids) =
            (if daemonOSType \<noteq> ''windows'' then
               (let mem = calculateMemUsageUnixNoCache (memoryStats v);
                    memLimit = fu (Limit (memoryStats v))
                in (calculateCPUPercentUnix cpus (TotalUsage (preCPUStats v)) (SystemUsage (preCPUStats v)) (cpuStats v),
                    calculateBlockIO (IoServiceBytesRecursive v) (0, 0), mem, memLimit,
                    calculateMemPercentUnixNoCache memLimit mem, pidsCurrent v))
             else
               (calculateCPUPercentWindows v, (ReadSizeBytes v, WriteSizeBytes v),
                fu (PrivateWorkingSet (memoryStats v)), 0, 0, 0));
          (netRx, netTx) = calculateNetwork (Networks v)
      in \<lparr>seName = stName v, seID = stID v, CPUPercentage = cpuPercent, Memory = mem,
          MemoryPercentage = memPercent, MemoryLimit = memLimit, NetworkRx = netRx, NetworkTx = netTx,
          BlockRead = fu blkRead, BlockWrite = fu blkWrite, PidsCurrent = pids\<rparr>)"

datatype decode = Decoded StatsJSON | DecodeEOF | DecodeErr string

text \<open>The loop over what happened so far: whether the context was found done, or what the decoder
  gave. \<open>break\<close> on the end of the stream leaves the \<open>select\<close>, not the loop. The result says whether
  the loop has ended, with the readings handed to the callback.\<close>

fun resourceLoop ::
  "(StatsEntry \<Rightarrow> byte list option) \<Rightarrow> string \<Rightarrow> rat \<Rightarrow> (bool \<times> decode) list \<Rightarrow> bool \<times> byte list list" where
  "resourceLoop marshal osType cpus [] = (False, [])"
| "resourceLoop marshal osType cpus ((ctxDone, d) # evs) =
     (if ctxDone then (True, [])
      else case d of
             DecodeEOF \<Rightarrow> resourceLoop marshal osType cpus evs
           | DecodeErr _ \<Rightarrow> resourceLoop marshal osType cpus evs
           | Decoded v \<Rightarrow>
               (case resourceLoop marshal osType cpus evs of (ended, rs) \<Rightarrow>
                  (ended, (case marshal (statsOf osType cpus v) of Some b \<Rightarrow> [b] | None \<Rightarrow> []) @ rs)))"

text \<open>The quota of the container, if it could be inspected.\<close>

definition cpusOf :: "(int \<times> int) option \<Rightarrow> rat" where
  "cpusOf inspect =
     (case inspect of
        Some (quota, period) \<Rightarrow> if quota > 0 \<and> period > 0 then f64 (f64 (of_int quota) / f64 (of_int period)) else 0
      | None \<Rightarrow> 0)"

definition containerResourceInfo ::
  "(StatsEntry \<Rightarrow> byte list option) \<Rightarrow> (int \<times> int) option \<Rightarrow> string + string \<times> (bool \<times> decode) list \<Rightarrow>
     (bool \<times> string option) option \<times> byte list list" where
  "containerResourceInfo marshal inspect stats =
     (case stats of
        Inl e \<Rightarrow> (Some (False, Some e), [])
      | Inr (osType, evs) \<Rightarrow>
          (case resourceLoop marshal osType (cpusOf inspect) evs of (ended, rs) \<Rightarrow>
             (if ended then Some (False, None) else None, rs)))"

section \<open>Readings\<close>

lemma f64_nat: "n < 2 ^ 53 \<Longrightarrow> f64 (of_nat n) = of_nat n"
  using roundTo_of_int [of "int n" 53] by (simp add: f64_def)

lemma f64_mono: "0 \<le> a \<Longrightarrow> a \<le> b \<Longrightarrow> f64 a \<le> f64 b"
  by (simp add: f64_def roundTo_mono)

lemma f64_nonneg: "0 \<le> a \<Longrightarrow> 0 \<le> f64 a"
  by (simp add: f64_def roundTo_nonneg)

lemma fu_mono: "a \<le> b \<Longrightarrow> fu a \<le> fu b"
  unfolding fu_def by (rule f64_mono) (simp_all only: of_nat_0_le_iff of_nat_le_iff word_le_nat_alt)

lemma fu_nonneg: "0 \<le> fu a"
  unfolding fu_def by (rule f64_nonneg) (rule of_nat_0_le_iff)

lemma fu_pos: "0 < w \<Longrightarrow> 0 < fu w"
proof -
  assume "0 < w"
  then have "1 \<le> w" by (simp add: word_le_nat_alt word_less_nat_alt)
  then have "fu 1 \<le> fu w" by (rule fu_mono)
  moreover have "fu 1 = 1" using f64_nat [of 1] by (simp add: fu_def)
  ultimately show ?thesis by linarith
qed

text \<open>What is taken off as cache never exceeds the usage.\<close>

lemma mem_le_usage: "calculateMemUsageUnixNoCache m \<le> fu (Usage m)"
  by (auto simp: calculateMemUsageUnixNoCache_def Let_def intro!: fu_mono split: option.splits)
    (simp_all add: word_sub_le less_imp_le)

lemma mem_nonneg: "0 \<le> calculateMemUsageUnixNoCache m"
  by (auto simp: calculateMemUsageUnixNoCache_def Let_def fu_nonneg split: option.splits)

text \<open>Differences of counters below \<open>2 ^ 53\<close> are exact.\<close>

lemma delta_exact:
  assumes "unat a < 2 ^ 53" and "b \<le> a"
  shows "f64 (fu a - fu b) = of_nat (unat a - unat b)"
proof -
  have b: "unat b \<le> unat a" using assms(2) by (simp only: word_le_nat_alt)
  then have "unat b < 2 ^ 53" using assms(1) by linarith
  then have "fu a - fu b = of_nat (unat a - unat b)"
    unfolding fu_def using assms(1) b by (simp only: f64_nat of_nat_diff)
  then show ?thesis using assms(1) by (simp only: f64_nat)
qed

lemma cpu_percent_bounds:
  assumes "0 \<le> cd" and "cd \<le> sd" and "0 < sd" and "n < 2 ^ 32"
  shows "0 \<le> f64 (f64 (f64 (cd / sd) * of_nat n) * 100)" and "f64 (f64 (f64 (cd / sd) * of_nat n) * 100) \<le> of_nat n * 100"
proof -
  have "0 \<le> f64 (cd / sd)" using assms by (simp add: f64_nonneg)
  moreover have "f64 (cd / sd) \<le> f64 1" using assms by (intro f64_mono) simp_all
  then have "f64 (cd / sd) \<le> 1" using f64_nat [of 1] by simp
  ultimately have q: "0 \<le> f64 (cd / sd) * of_nat n" "f64 (cd / sd) * of_nat n \<le> of_nat n"
    by (simp_all add: mult_left_le_one_le)
  have n: "f64 (of_nat n) = of_nat n" using f64_nat [of n] assms(4) by simp
  have m: "f64 (of_nat n * 100) = of_nat n * 100" using f64_nat [of "n * 100"] assms(4) by simp
  have r: "0 \<le> f64 (f64 (cd / sd) * of_nat n)" "f64 (f64 (cd / sd) * of_nat n) \<le> of_nat n"
    using f64_nonneg [OF q(1)] f64_mono [OF q] n by simp_all
  then show "0 \<le> f64 (f64 (f64 (cd / sd) * of_nat n) * 100)" by (simp add: f64_nonneg)
  show "f64 (f64 (f64 (cd / sd) * of_nat n) * 100) \<le> of_nat n * 100"
    using f64_mono [of "f64 (f64 (cd / sd) * of_nat n) * 100" "of_nat n * 100"] r m by simp
qed


definition demoStats :: StatsJSON where
  "demoStats = \<lparr>stName = ''t'', stID = ''c1'',
     cpuStats = \<lparr>TotalUsage = 300, PercpuUsage = [], SystemUsage = 900, OnlineCPUs = 4\<rparr>,
     preCPUStats = \<lparr>TotalUsage = 100, PercpuUsage = [], SystemUsage = 500, OnlineCPUs = 4\<rparr>,
     IoServiceBytesRecursive = [(''Read'', 7)],
     memoryStats = \<lparr>Usage = 512, Limit = 1024, Stats = [(''total_inactive_file'', 256)], PrivateWorkingSet = 0\<rparr>,
     pidsCurrent = 3, Networks = [(''eth0'', 10, 20)], ReadSizeBytes = 0, WriteSizeBytes = 0, NumProcs = 0,
     elapsedNs = 0\<rparr>"


text \<open>The reading loop ends only when the connection's context is done: the end of the statistics
  stream, like every error of the decoder, leads back to the decoder, at once and for as long as the
  connection lasts. Readings are handed on for decoded statistics only.\<close>

theorem resource_loop_ignores_end_of_stream:
  "fst (resourceLoop marshal osType cpus evs) = (\<exists>d. (True, d) \<in> set evs) \<and>
   snd (resourceLoop marshal osType cpus evs) =
     List.map_filter (\<lambda>(_, d). case d of Decoded v \<Rightarrow> marshal (statsOf osType cpus v) | _ \<Rightarrow> None)
       (takeWhile (\<lambda>ev. \<not> fst ev) evs)"
  by (induction evs) (auto simp: List.map_filter_simps split: decode.splits prod.splits option.splits)

text \<open>The block counters are the sums of the read and of the write entries, modulo \<open>2 ^ 64\<close>.\<close>

theorem calculateBlockIO_sums:
  "calculateBlockIO es (r, w) =
     (r + sum_list (map snd (filter (\<lambda>e. fst e \<noteq> [] \<and> hd (fst e) \<in> {CHR ''r'', CHR ''R''}) es)),
      w + sum_list (map snd (filter (\<lambda>e. fst e \<noteq> [] \<and> hd (fst e) \<in> {CHR ''w'', CHR ''W''}) es)))"
proof (induction es arbitrary: r w)
  case (Cons e es)
  then show ?case by (cases e; cases "fst e") (auto simp: add.assoc)
qed simp

end
