(* ===== verification/Dcmi.thy ===== *)
theory Dcmi
  imports Go_Float
begin

text \<open>
  The Ascend device manager of \<open>gpu/atlas/dcmi/dcmi.go\<close> with \<open>gpu/atlas/common\<close>. The vendor
  library \<open>libdcmi.so\<close> is a parameter: a table of function pointers, each possibly missing
  (\<open>dlsym\<close> returned NULL), which answer from a driver state of any type. Creating and destroying
  a virtual device change that state, the queries only read it. A \<open>C.int\<close> or \<open>int32\<close> is a 32-bit
  word read by \<open>sint\<close>, a \<open>C.uint\<close> the same word read by \<open>uint\<close>, so the conversions between
  them are the identity. Every Go result is a pair of a value and an error, because callers that
  drop the error use the value.
\<close>

type_synonym i32 = "32 word"

section \<open>Limits and checks (common)\<close>

definition Success :: i32 where "Success = 0"
definition RetError :: i32 where "RetError = - 1"
definition UnRetError :: u32 where "UnRetError = - 1"
definition HiAIMaxCardNum :: nat where "HiAIMaxCardNum = 64"
definition HiAIMaxDeviceNum :: nat where "HiAIMaxDeviceNum = 4"
definition MaxErrorCodeCount :: nat where "MaxErrorCodeCount = 128"
definition DefaultTemperatureWhenQueryFailed :: int where "DefaultTemperatureWhenQueryFailed = - 275"

definition IsGreaterThanOrEqualInt32 :: "int \<Rightarrow> bool" where
  "IsGreaterThanOrEqualInt32 num \<longleftrightarrow> num \<ge> 2147483647"

definition IsValidUtilizationRate :: "u32 \<Rightarrow> bool" where
  "IsValidUtilizationRate num \<longleftrightarrow> \<not> uint num > 100"

definition IsValidCardID :: "i32 \<Rightarrow> bool" where
  "IsValidCardID cardID \<longleftrightarrow> sint cardID \<ge> 0 \<and> sint cardID < 2147483647"

definition IsValidDeviceID :: "i32 \<Rightarrow> bool" where
  "IsValidDeviceID deviceID \<longleftrightarrow> sint deviceID \<ge> 0 \<and> sint deviceID < int HiAIMaxDeviceNum"

definition IsValidLogicIDOrPhyID :: "i32 \<Rightarrow> bool" where
  "IsValidLogicIDOrPhyID i \<longleftrightarrow> sint i \<ge> 0 \<and> sint i < int (HiAIMaxCardNum * HiAIMaxDeviceNum)"

definition IsValidCardIDAndDeviceID :: "i32 \<Rightarrow> i32 \<Rightarrow> bool" where
  "IsValidCardIDAndDeviceID cardID deviceID =
     (if \<not> IsValidCardID cardID then False else IsValidDeviceID deviceID)"

definition IsValidDevNumInCard :: "i32 \<Rightarrow> bool" where
  "IsValidDevNumInCard num \<longleftrightarrow> sint num > 0 \<and> sint num \<le> int HiAIMaxDeviceNum"

definition GetDeviceTypeByChipName :: "string \<Rightarrow> string" where
  "GetDeviceTypeByChipName chipName =
     (if contains chipName ''310P'' then ''Ascend310P''
      else if contains chipName ''310'' then ''Ascend310''
      else if contains chipName ''910'' then ''Ascend910'' else [])"

definition get910TemplateNameList :: "string list" where
  "get910TemplateNameList = [''vir16'', ''vir08'', ''vir04'', ''vir02'', ''vir01'']"

definition get310PTemplateNameList :: "string list" where
  "get310PTemplateNameList =
     [''vir04'', ''vir02'', ''vir01'', ''vir04_3c'', ''vir02_1c'', ''vir04_4c_dvpp'', ''vir04_3c_ndvpp'']"

definition IsValidTemplateName :: "string \<Rightarrow> string \<Rightarrow> bool" where
  "IsValidTemplateName devType templateName =
     (if devType = ''Ascend310P'' then templateName \<in> set get310PTemplateNameList
      else if devType = ''Ascend910'' then templateName \<in> set get910TemplateNameList else False)"

section \<open>Structures of the library and of the program\<close>

record MemoryInfo =
  MemorySize :: u64
  MemoryAvailable :: u64
  Frequency :: u32
  Utilization :: u32

record HbmInfo =
  HbmMemorySize :: u64
  HbmFrequency :: u32
  HbmUsage :: u64
  HbmTemp :: i32
  BandWidthUtilRate :: u32

record ChipInfo =
  ChipType :: string
  ChipName :: string
  ChipVersion :: string

record CgoCreateVDevRes =
  ResVDevID :: u32
  ResVfgID :: u32
  TemplateName :: string

record CgoCreateVDevOut =
  OutVDevID :: u32
  PcieBus :: u32
  PcieDevice :: u32
  PcieFunc :: u32
  OutVfgID :: u32

record CgoBaseResource =
  TokenCount :: u64
  TokenMax :: u64
  TaskTimeout :: u64
  BaseVfgID :: u32
  VipMode :: byte

record CgoComputingResource =
  Aic :: rat
  Aiv :: rat
  Dsa :: u16
  Rtsq :: u16
  Acsq :: u16
  Cdqm :: u16
  CCore :: u16
  Ffts :: u16
  Sdma :: u16
  PcieDma :: u16
  CompMemorySize :: u64
  EventID :: u32
  NotifyID :: u32
  StreamID :: u32
  ModelID :: u32
  TopicScheduleAicpu :: u16
  HostCtrlCPU :: u16
  HostAicpu :: u16
  DeviceAicpu :: u16
  TopicCtrlCPUSlot :: u16

record CgoMediaResource =
  Jpegd :: rat
  Jpege :: rat
  Vpc :: rat
  Vdec :: rat
  Pngd :: rat
  Venc :: rat

record CgoVDevQueryInfo =
  VName :: string
  VStatus :: u32
  IsContainerUsed :: u32
  Vfid :: u32
  QVfgID :: u32
  ContainerID :: u64
  QBase :: CgoBaseResource
  QComputing :: CgoComputingResource
  QMedia :: CgoMediaResource

record CgoVDevQueryStru =
  QVDevID :: u32
  QueryInfo :: CgoVDevQueryInfo

record CgoSocFreeResource =
  FVfgNum :: u32
  FVfgBitmap :: u32
  FBase :: CgoBaseResource
  FComputing :: CgoComputingResource
  FMedia :: CgoMediaResource

record CgoSocTotalResource =
  VDevNum :: u32
  VDevIDs :: "u32 list"
  TVfgNum :: u32
  TVfgBitmap :: u32
  TBase :: CgoBaseResource
  TComputing :: CgoComputingResource
  TMedia :: CgoMediaResource

record VirtualDevInfo =
  TotalResource :: CgoSocTotalResource
  FreeResource :: CgoSocFreeResource
  VDevInfo :: "CgoVDevQueryStru list"

text \<open>The C structures have the fields of the Go ones, so the conversions of whole resources copy
  field by field; only the structures whose layout differs are declared again. A fixed array is
  a list padded with the zeros it is initialised with.\<close>

definition cArray :: "nat \<Rightarrow> 'a::zero list \<Rightarrow> 'a list" where
  "cArray n xs = take n (xs @ replicate n 0)"

lemma length_cArray [simp]: "length (cArray n xs) = n"
  by (simp add: cArray_def)

section \<open>The library and its wrappers\<close>

definition FUNCTION_NOT_FOUND :: i32 where "FUNCTION_NOT_FOUND = - 99998"
definition SO_NOT_FOUND :: i32 where "SO_NOT_FOUND = - 99999"
definition ERROR_UNKNOWN :: i32 where "ERROR_UNKNOWN = - 99997"

text \<open>What \<open>dcmi_get_device_info\<close> reads and fills through its untyped pointer.\<close>

datatype infoBuf =
    VDevBuf CgoVDevQueryStru | TotalBuf CgoSocTotalResource | FreeBuf CgoSocFreeResource

record 'd dcmi_lib =
  dcmi_init_func :: "('d \<Rightarrow> i32) option"
  dcmi_get_card_list_func :: "('d \<Rightarrow> nat \<Rightarrow> i32 \<times> i32 \<times> i32 list) option"
  dcmi_get_device_num_in_card_func :: "('d \<Rightarrow> i32 \<Rightarrow> i32 \<times> i32) option"
  dcmi_get_device_logic_id_func :: "('d \<Rightarrow> i32 \<Rightarrow> i32 \<Rightarrow> i32 \<times> i32) option"
  dcmi_create_vdevice_func ::
    "('d \<Rightarrow> i32 \<Rightarrow> i32 \<Rightarrow> u32 \<times> u32 \<times> byte list \<Rightarrow> (i32 \<times> CgoCreateVDevOut) \<times> 'd) option"
  dcmi_set_destroy_vdevice_func :: "('d \<Rightarrow> i32 \<Rightarrow> i32 \<Rightarrow> u32 \<Rightarrow> i32 \<times> 'd) option"
  dcmi_get_device_info_func :: "('d \<Rightarrow> i32 \<Rightarrow> i32 \<Rightarrow> u32 \<Rightarrow> u32 \<Rightarrow> infoBuf \<Rightarrow> i32 \<times> infoBuf) option"
  dcmi_get_device_type_func :: "('d \<Rightarrow> i32 \<Rightarrow> i32 \<Rightarrow> i32 \<times> i32) option"
  dcmi_get_device_health_func :: "('d \<Rightarrow> i32 \<Rightarrow> i32 \<Rightarrow> i32 \<times> u32) option"
  dcmi_get_device_utilization_rate_func :: "('d \<Rightarrow> i32 \<Rightarrow> i32 \<Rightarrow> i32 \<Rightarrow> i32 \<times> u32) option"
  dcmi_get_device_temperature_func :: "('d \<Rightarrow> i32 \<Rightarrow> i32 \<Rightarrow> i32 \<times> i32) option"
  dcmi_get_device_voltage_func :: "('d \<Rightarrow> i32 \<Rightarrow> i32 \<Rightarrow> i32 \<times> u32) option"
  dcmi_get_device_power_info_func :: "('d \<Rightarrow> i32 \<Rightarrow> i32 \<Rightarrow> i32 \<times> i32) option"
  dcmi_get_device_frequency_func :: "('d \<Rightarrow> i32 \<Rightarrow> i32 \<Rightarrow> i32 \<Rightarrow> i32 \<times> u32) option"
  dcmi_get_device_memory_info_v3_func :: "('d \<Rightarrow> i32 \<Rightarrow> i32 \<Rightarrow> i32 \<times> MemoryInfo) option"
  dcmi_get_device_hbm_info_func :: "('d \<Rightarrow> i32 \<Rightarrow> i32 \<Rightarrow> i32 \<times> HbmInfo) option"
  dcmi_get_device_errorcode_v2_func :: "('d \<Rightarrow> i32 \<Rightarrow> i32 \<Rightarrow> nat \<Rightarrow> i32 \<times> i32 \<times> u32 list) option"
  dcmi_get_device_chip_info_func ::
    "('d \<Rightarrow> i32 \<Rightarrow> i32 \<Rightarrow> i32 \<times> byte list \<times> byte list \<times> byte list) option"
  dcmi_get_device_phyid_from_logicid_func :: "('d \<Rightarrow> u32 \<Rightarrow> i32 \<times> u32) option"
  dcmi_get_device_logicid_from_phyid_func :: "('d \<Rightarrow> u32 \<Rightarrow> i32 \<times> u32) option"
  dcmi_get_device_ip_func :: "('d \<Rightarrow> i32 \<Rightarrow> i32 \<Rightarrow> u32 \<Rightarrow> i32 \<Rightarrow> i32 \<times> byte list) option"
  dcmi_get_device_network_health_func :: "('d \<Rightarrow> i32 \<Rightarrow> i32 \<Rightarrow> i32 \<times> i32) option"
  dcmi_get_card_id_device_id_from_logicid_func :: "('d \<Rightarrow> u32 \<Rightarrow> i32 \<times> i32 \<times> i32) option"
  dcmi_mcu_get_power_info_func :: "('d \<Rightarrow> i32 \<Rightarrow> i32 \<times> i32) option"
  dcmi_get_product_type_func :: "('d \<Rightarrow> i32 \<Rightarrow> i32 \<Rightarrow> nat \<Rightarrow> i32 \<times> byte list) option"

text \<open>A missing function answers \<open>FUNCTION_NOT_FOUND\<close> and leaves the out-parameter alone.\<close>

definition CALL_FUNC :: "'f option \<Rightarrow> ('f \<Rightarrow> i32 \<times> 'o) \<Rightarrow> 'o \<Rightarrow> i32 \<times> 'o" where
  "CALL_FUNC f call untouched = (case f of None \<Rightarrow> (FUNCTION_NOT_FOUND, untouched) | Some g \<Rightarrow> call g)"

definition dcmi_init_new :: "'d dcmi_lib \<Rightarrow> 'd \<Rightarrow> i32" where
  "dcmi_init_new lib st = fst (CALL_FUNC (dcmi_init_func lib) (\<lambda>f. (f st, ())) ())"

definition dcmi_get_card_list :: "'d dcmi_lib \<Rightarrow> 'd \<Rightarrow> nat \<Rightarrow> i32 \<times> i32 \<times> i32 list" where
  "dcmi_get_card_list lib st len = CALL_FUNC (dcmi_get_card_list_func lib) (\<lambda>f. f st len) (0, [])"

definition dcmi_get_device_num_in_card_new :: "'d dcmi_lib \<Rightarrow> 'd \<Rightarrow> i32 \<Rightarrow> i32 \<times> i32" where
  "dcmi_get_device_num_in_card_new lib st c = CALL_FUNC (dcmi_get_device_num_in_card_func lib) (\<lambda>f. f st c) 0"

definition dcmi_get_device_logic_id_new :: "'d dcmi_lib \<Rightarrow> 'd \<Rightarrow> i32 \<Rightarrow> i32 \<Rightarrow> i32 \<times> i32" where
  "dcmi_get_device_logic_id_new lib st c d = CALL_FUNC (dcmi_get_device_logic_id_func lib) (\<lambda>f. f st c d) 0"

definition zeroVDevOut :: CgoCreateVDevOut where
  "zeroVDevOut = \<lparr>OutVDevID = 0, PcieBus = 0, PcieDevice = 0, PcieFunc = 0, OutVfgID = 0\<rparr>"

definition dcmi_create_vdevice ::
  "'d dcmi_lib \<Rightarrow> 'd \<Rightarrow> i32 \<Rightarrow> i32 \<Rightarrow> u32 \<times> u32 \<times> byte list \<Rightarrow> (i32 \<times> CgoCreateVDevOut) \<times> 'd" where
  "dcmi_create_vdevice lib st c d vdev =
     (let (rc, out, st') = CALL_FUNC (dcmi_create_vdevice_func lib)
            (\<lambda>f. case f st c d vdev of ((rc, out), st') \<Rightarrow> (rc, out, st')) (zeroVDevOut, st)
      in ((rc, out), st'))"

definition dcmi_set_destroy_vdevice :: "'d dcmi_lib \<Rightarrow> 'd \<Rightarrow> i32 \<Rightarrow> i32 \<Rightarrow> u32 \<Rightarrow> i32 \<times> 'd" where
  "dcmi_set_destroy_vdevice lib st c d v = CALL_FUNC (dcmi_set_destroy_vdevice_func lib) (\<lambda>f. f st c d v) st"

definition dcmi_get_device_info ::
  "'d dcmi_lib \<Rightarrow> 'd \<Rightarrow> i32 \<Rightarrow> i32 \<Rightarrow> u32 \<Rightarrow> u32 \<Rightarrow> infoBuf \<Rightarrow> i32 \<times> infoBuf" where
  "dcmi_get_device_info lib st c d mainCmd subCmd buf =
     CALL_FUNC (dcmi_get_device_info_func lib) (\<lambda>f. f st c d mainCmd subCmd buf) buf"

definition dcmi_get_device_type :: "'d dcmi_lib \<Rightarrow> 'd \<Rightarrow> i32 \<Rightarrow> i32 \<Rightarrow> i32 \<times> i32" where
  "dcmi_get_device_type lib st c d = CALL_FUNC (dcmi_get_device_type_func lib) (\<lambda>f. f st c d) 0"

definition dcmi_get_device_health :: "'d dcmi_lib \<Rightarrow> 'd \<Rightarrow> i32 \<Rightarrow> i32 \<Rightarrow> i32 \<times> u32" where
  "dcmi_get_device_health lib st c d = CALL_FUNC (dcmi_get_device_health_func lib) (\<lambda>f. f st c d) 0"

definition dcmi_get_device_utilization_rate :: "'d dcmi_lib \<Rightarrow> 'd \<Rightarrow> i32 \<Rightarrow> i32 \<Rightarrow> i32 \<Rightarrow> i32 \<times> u32" where
  "dcmi_get_device_utilization_rate lib st c d t =
     CALL_FUNC (dcmi_get_device_utilization_rate_func lib) (\<lambda>f. f st c d t) 0"

definition dcmi_get_device_temperature :: "'d dcmi_lib \<Rightarrow> 'd \<Rightarrow> i32 \<Rightarrow> i32 \<Rightarrow> i32 \<times> i32" where
  "dcmi_get_device_temperature lib st c d = CALL_FUNC (dcmi_get_device_temperature_func lib) (\<lambda>f. f st c d) 0"

definition dcmi_get_device_voltage :: "'d dcmi_lib \<Rightarrow> 'd \<Rightarrow> i32 \<Rightarrow> i32 \<Rightarrow> i32 \<times> u32" where
  "dcmi_get_device_voltage lib st c d = CALL_FUNC (dcmi_get_device_voltage_func lib) (\<lambda>f. f st c d) 0"

definition dcmi_get_device_power_info :: "'d dcmi_lib \<Rightarrow> 'd \<Rightarrow> i32 \<Rightarrow> i32 \<Rightarrow> i32 \<times> i32" where
  "dcmi_get_device_power_info lib st c d = CALL_FUNC (dcmi_get_device_power_info_func lib) (\<lambda>f. f st c d) 0"

definition dcmi_get_device_frequency :: "'d dcmi_lib \<Rightarrow> 'd \<Rightarrow> i32 \<Rightarrow> i32 \<Rightarrow> i32 \<Rightarrow> i32 \<times> u32" where
  "dcmi_get_device_frequency lib st c d t = CALL_FUNC (dcmi_get_device_frequency_func lib) (\<lambda>f. f st c d t) 0"

definition zeroMemoryInfo :: MemoryInfo where
  "zeroMemoryInfo = \<lparr>MemorySize = 0, MemoryAvailable = 0, Frequency = 0, Utilization = 0\<rparr>"

definition zeroHbmInfo :: HbmInfo where
  "zeroHbmInfo = \<lparr>HbmMemorySize = 0, HbmFrequency = 0, HbmUsage = 0, HbmTemp = 0, BandWidthUtilRate = 0\<rparr>"

definition dcmi_get_device_memory_info_v3 :: "'d dcmi_lib \<Rightarrow> 'd \<Rightarrow> i32 \<Rightarrow> i32 \<Rightarrow> i32 \<times> MemoryInfo" where
  "dcmi_get_device_memory_info_v3 lib st c d =
     CALL_FUNC (dcmi_get_device_memory_info_v3_func lib) (\<lambda>f. f st c d) zeroMemoryInfo"

definition dcmi_get_device_hbm_info :: "'d dcmi_lib \<Rightarrow> 'd \<Rightarrow> i32 \<Rightarrow> i32 \<Rightarrow> i32 \<times> HbmInfo" where
  "dcmi_get_device_hbm_info lib st c d = CALL_FUNC (dcmi_get_device_hbm_info_func lib) (\<lambda>f. f st c d) zeroHbmInfo"

definition dcmi_get_device_errorcode_v2 :: "'d dcmi_lib \<Rightarrow> 'd \<Rightarrow> i32 \<Rightarrow> i32 \<Rightarrow> nat \<Rightarrow> i32 \<times> i32 \<times> u32 list" where
  "dcmi_get_device_errorcode_v2 lib st c d len =
     CALL_FUNC (dcmi_get_device_errorcode_v2_func lib) (\<lambda>f. f st c d len) (0, [])"

definition dcmi_get_device_chip_info ::
  "'d dcmi_lib \<Rightarrow> 'd \<Rightarrow> i32 \<Rightarrow> i32 \<Rightarrow> i32 \<times> byte list \<times> byte list \<times> byte list" where
  "dcmi_get_device_chip_info lib st c d =
     CALL_FUNC (dcmi_get_device_chip_info_func lib) (\<lambda>f. f st c d) ([], [], [])"

definition dcmi_get_device_phyid_from_logicid :: "'d dcmi_lib \<Rightarrow> 'd \<Rightarrow> u32 \<Rightarrow> i32 \<times> u32" where
  "dcmi_get_device_phyid_from_logicid lib st l =
     CALL_FUNC (dcmi_get_device_phyid_from_logicid_func lib) (\<lambda>f. f st l) 0"

definition dcmi_get_device_logicid_from_phyid :: "'d dcmi_lib \<Rightarrow> 'd \<Rightarrow> u32 \<Rightarrow> i32 \<times> u32" where
  "dcmi_get_device_logicid_from_phyid lib st p =
     CALL_FUNC (dcmi_get_device_logicid_from_phyid_func lib) (\<lambda>f. f st p) 0"

definition dcmi_get_device_ip :: "'d dcmi_lib \<Rightarrow> 'd \<Rightarrow> i32 \<Rightarrow> i32 \<Rightarrow> u32 \<Rightarrow> i32 \<Rightarrow> i32 \<times> byte list" where
  "dcmi_get_device_ip lib st c d t p = CALL_FUNC (dcmi_get_device_ip_func lib) (\<lambda>f. f st c d t p) []"

definition dcmi_get_device_network_health :: "'d dcmi_lib \<Rightarrow> 'd \<Rightarrow> i32 \<Rightarrow> i32 \<Rightarrow> i32 \<times> i32" where
  "dcmi_get_device_network_health lib st c d =
     CALL_FUNC (dcmi_get_device_network_health_func lib) (\<lambda>f. f st c d) 0"

definition dcmi_get_card_id_device_id_from_logicid :: "'d dcmi_lib \<Rightarrow> 'd \<Rightarrow> u32 \<Rightarrow> i32 \<times> i32 \<times> i32" where
  "dcmi_get_card_id_device_id_from_logicid lib st l =
     CALL_FUNC (dcmi_get_card_id_device_id_from_logicid_func lib) (\<lambda>f. f st l) (0, 0)"

definition dcmi_mcu_get_power_info_new :: "'d dcmi_lib \<Rightarrow> 'd \<Rightarrow> i32 \<Rightarrow> i32 \<times> i32" where
  "dcmi_mcu_get_power_info_new lib st c = CALL_FUNC (dcmi_mcu_get_power_info_func lib) (\<lambda>f. f st c) 0"

definition dcmi_get_product_type :: "'d dcmi_lib \<Rightarrow> 'd \<Rightarrow> i32 \<Rightarrow> i32 \<Rightarrow> nat \<Rightarrow> i32 \<times> byte list" where
  "dcmi_get_product_type lib st c d len = CALL_FUNC (dcmi_get_product_type_func lib) (\<lambda>f. f st c d len) []"

section \<open>Loading the library\<close>

text \<open>The process-wide handle and function pointers. \<open>so\<close> is what \<open>dlopen\<close> finds: no library, or
  one with some of the symbols. \<open>refs\<close> counts the open references that \<open>dlclose\<close> gives back;
  closing a handle that is no longer open is an error of \<open>dlclose\<close>.\<close>

record 'd dlstate =
  dcmiHandle :: bool
  refs :: nat
  funcs :: "'d dcmi_lib"

definition dcmiInit_dl :: "'d dcmi_lib option \<Rightarrow> 'd dlstate \<Rightarrow> i32 \<times> 'd dlstate" where
  "dcmiInit_dl so s =
     (case so of
        None \<Rightarrow> (SO_NOT_FOUND, s\<lparr>dcmiHandle := False\<rparr>)
      | Some lib \<Rightarrow> (Success, s\<lparr>dcmiHandle := True, refs := refs s + 1, funcs := lib\<rparr>))"

definition dcmiShutDown :: "'d dlstate \<Rightarrow> i32 \<times> 'd dlstate" where
  "dcmiShutDown s =
     (if \<not> dcmiHandle s then (Success, s)
      else if refs s = 0 then (ERROR_UNKNOWN, s) else (Success, s\<lparr>refs := refs s - 1\<rparr>))"

text \<open>Errors: an argument out of range, a failed call with its code, an answer out of range, a
  template name that does not fit, or an error of an inner operation.\<close>

datatype dcerr =
    InvalidID | CallFailed i32 | WrongValue | NameTooLong | LoadFailed i32 | InitFailed i32
  | ShutDownFailed i32 | Inner dcerr | TooManyDevices | EmptyChipInfo | NotSupportedUnit

type_synonym 'a dcres = "'a \<times> dcerr option"

definition DcInit :: "'d dcmi_lib option \<Rightarrow> 'd \<Rightarrow> 'd dlstate \<Rightarrow> dcerr option \<times> 'd dlstate" where
  "DcInit so st s =
     (case dcmiInit_dl so s of (rc, s1) \<Rightarrow>
        if rc \<noteq> Success then (Some (LoadFailed rc), s1)
        else let rc2 = dcmi_init_new (funcs s1) st
             in if rc2 \<noteq> Success then (Some (InitFailed rc2), s1) else (None, s1))"

definition DcShutDown :: "'d dlstate \<Rightarrow> dcerr option \<times> 'd dlstate" where
  "DcShutDown s =
     (case dcmiShutDown s of (rc, s1) \<Rightarrow> if rc \<noteq> Success then (Some (ShutDownFailed rc), s1) else (None, s1))"

section \<open>Queries of one device\<close>

text \<open>The shape shared by the queries: check the arguments, call the library, check the answer,
  convert it. \<open>bad\<close> is the value returned beside an error.\<close>

definition dcQuery :: "'b \<Rightarrow> bool \<Rightarrow> i32 \<times> 'a \<Rightarrow> ('a \<Rightarrow> bool) \<Rightarrow> dcerr \<Rightarrow> ('a \<Rightarrow> 'b) \<Rightarrow> 'b dcres" where
  "dcQuery bad valid call good wrong conv =
     (if \<not> valid then (bad, Some InvalidID)
      else case call of (rc, v) \<Rightarrow>
        if rc \<noteq> Success then (bad, Some (CallFailed rc))
        else if \<not> good v then (bad, Some wrong) else (conv v, None))"

definition DcGetDeviceNumInCard :: "'d dcmi_lib \<Rightarrow> 'd \<Rightarrow> i32 \<Rightarrow> i32 dcres" where
  "DcGetDeviceNumInCard lib st cardID =
     dcQuery RetError (IsValidCardID cardID) (dcmi_get_device_num_in_card_new lib st cardID)
       IsValidDevNumInCard WrongValue (\<lambda>n. n)"

definition DcGetDeviceLogicID :: "'d dcmi_lib \<Rightarrow> 'd \<Rightarrow> i32 \<Rightarrow> i32 \<Rightarrow> i32 dcres" where
  "DcGetDeviceLogicID lib st cardID deviceID =
     dcQuery RetError (IsValidCardIDAndDeviceID cardID deviceID)
       (dcmi_get_device_logic_id_new lib st cardID deviceID) IsValidLogicIDOrPhyID WrongValue (\<lambda>n. n)"

text \<open>\<open>float32(vol) * 0.01\<close>: both factors are \<open>float32\<close> values and the product is rounded.\<close>

definition DcGetDeviceVoltage :: "'d dcmi_lib \<Rightarrow> 'd \<Rightarrow> i32 \<Rightarrow> i32 \<Rightarrow> rat dcres" where
  "DcGetDeviceVoltage lib st cardID deviceID =
     dcQuery (- 1) (IsValidCardIDAndDeviceID cardID deviceID) (dcmi_get_device_voltage lib st cardID deviceID)
       (\<lambda>vol. \<not> IsGreaterThanOrEqualInt32 (uint vol)) WrongValue
       (\<lambda>vol. f32 (f32 (of_int (uint vol)) * f32 (1 / 100)))"

definition DcGetDevicePowerInfo :: "'d dcmi_lib \<Rightarrow> 'd \<Rightarrow> i32 \<Rightarrow> i32 \<Rightarrow> rat dcres" where
  "DcGetDevicePowerInfo lib st cardID deviceID =
     dcQuery (- 1) (IsValidCardIDAndDeviceID cardID deviceID) (dcmi_get_device_power_info lib st cardID deviceID)
       (\<lambda>cpower. \<not> f32 (of_int (sint cpower)) < 0) WrongValue
       (\<lambda>cpower. f32 (f32 (of_int (sint cpower)) * f32 (1 / 10)))"

definition DcGetDeviceFrequency :: "'d dcmi_lib \<Rightarrow> 'd \<Rightarrow> i32 \<Rightarrow> i32 \<Rightarrow> i32 \<Rightarrow> i32 dcres" where
  "DcGetDeviceFrequency lib st cardID deviceID devType =
     dcQuery RetError (IsValidCardIDAndDeviceID cardID deviceID)
       (dcmi_get_device_frequency lib st cardID deviceID devType)
       (\<lambda>f. \<not> IsGreaterThanOrEqualInt32 (uint f)) WrongValue (\<lambda>f. f)"

definition DcGetMemoryInfo :: "'d dcmi_lib \<Rightarrow> 'd \<Rightarrow> i32 \<Rightarrow> i32 \<Rightarrow> MemoryInfo option dcres" where
  "DcGetMemoryInfo lib st cardID deviceID =
     dcQuery None (IsValidCardIDAndDeviceID cardID deviceID)
       (dcmi_get_device_memory_info_v3 lib st cardID deviceID)
       (\<lambda>m. \<not> MemorySize m < MemoryAvailable m) WrongValue
       (\<lambda>m. Some \<lparr>MemorySize = MemorySize m, MemoryAvailable = MemoryAvailable m,
                   Frequency = Frequency m, Utilization = Utilization m\<rparr>)"

definition FuncDcmiGetDeviceHbmInfo :: "'d dcmi_lib \<Rightarrow> 'd \<Rightarrow> i32 \<Rightarrow> i32 \<Rightarrow> HbmInfo option dcres" where
  "FuncDcmiGetDeviceHbmInfo lib st cardID deviceID =
     dcQuery None (IsValidCardIDAndDeviceID cardID deviceID) (dcmi_get_device_hbm_info lib st cardID deviceID)
       (\<lambda>h. \<not> sint (HbmTemp h) < 0) WrongValue
       (\<lambda>h. Some \<lparr>HbmMemorySize = HbmMemorySize h, HbmFrequency = HbmFrequency h, HbmUsage = HbmUsage h,
                   HbmTemp = HbmTemp h, BandWidthUtilRate = BandWidthUtilRate h\<rparr>)"

definition DcGetHbmInfo :: "i32 \<Rightarrow> i32 \<Rightarrow> HbmInfo option dcres" where
  "DcGetHbmInfo cardID deviceID = (Some zeroHbmInfo, None)"

definition DcGetDeviceErrorCode :: "'d dcmi_lib \<Rightarrow> 'd \<Rightarrow> i32 \<Rightarrow> i32 \<Rightarrow> (i32 \<times> int) dcres" where
  "DcGetDeviceErrorCode lib st cardID deviceID =
     dcQuery (RetError, - 1) (IsValidCardIDAndDeviceID cardID deviceID)
       (dcmi_get_device_errorcode_v2 lib st cardID deviceID MaxErrorCodeCount)
       (\<lambda>(n, codes). \<not> (sint n < 0 \<or> sint n > int MaxErrorCodeCount)) WrongValue
       (\<lambda>(n, codes). (n, uint (cArray MaxErrorCodeCount codes ! 0)))"

definition DcGetDeviceHealth :: "'d dcmi_lib \<Rightarrow> 'd \<Rightarrow> i32 \<Rightarrow> i32 \<Rightarrow> i32 dcres" where
  "DcGetDeviceHealth lib st cardID deviceID =
     dcQuery RetError (IsValidCardIDAndDeviceID cardID deviceID) (dcmi_get_device_health lib st cardID deviceID)
       (\<lambda>h. \<not> IsGreaterThanOrEqualInt32 (uint h)) WrongValue (\<lambda>h. h)"

definition DcGetDeviceUtilizationRate :: "'d dcmi_lib \<Rightarrow> 'd \<Rightarrow> i32 \<Rightarrow> i32 \<Rightarrow> i32 \<Rightarrow> i32 dcres" where
  "DcGetDeviceUtilizationRate lib st cardID deviceID devType =
     dcQuery RetError (IsValidCardIDAndDeviceID cardID deviceID)
       (dcmi_get_device_utilization_rate lib st cardID deviceID devType)
       IsValidUtilizationRate WrongValue (\<lambda>r. r)"

definition DcGetDeviceTemperature :: "'d dcmi_lib \<Rightarrow> 'd \<Rightarrow> i32 \<Rightarrow> i32 \<Rightarrow> i32 dcres" where
  "DcGetDeviceTemperature lib st cardID deviceID =
     dcQuery RetError (IsValidCardIDAndDeviceID cardID deviceID)
       (dcmi_get_device_temperature lib st cardID deviceID)
       (\<lambda>t. \<not> sint t < DefaultTemperatureWhenQueryFailed) WrongValue (\<lambda>t. t)"

text \<open>Byte arrays end at the first zero. A C \<open>char\<close> is signed: bytes from 128 on are no valid
  rune and print as the replacement character.\<close>

definition convertUCharToCharArr :: "byte list \<Rightarrow> byte list" where
  "convertUCharToCharArr arr = takeWhile (\<lambda>v. v \<noteq> 0) arr"

definition runeString :: "byte \<Rightarrow> byte list" where
  "runeString v = (if uint v < 128 then [v] else [0xEF, 0xBF, 0xBD])"

definition convertToString :: "byte list \<Rightarrow> byte list" where
  "convertToString arr = concat (map runeString (takeWhile (\<lambda>v. v \<noteq> 0) arr))"

definition bytesString :: "byte list \<Rightarrow> string" where
  "bytesString bs = map (\<lambda>b. char_of (unat b)) bs"

definition IsValidChipInfo :: "ChipInfo \<Rightarrow> bool" where
  "IsValidChipInfo chip \<longleftrightarrow> ChipName chip \<noteq> [] \<or> ChipType chip \<noteq> [] \<or> ChipVersion chip \<noteq> []"

definition chipOf :: "byte list \<times> byte list \<times> byte list \<Rightarrow> ChipInfo" where
  "chipOf = (\<lambda>(ty, nm, ver).
     \<lparr>ChipType = bytesString (convertUCharToCharArr (cArray 32 ty)),
      ChipName = bytesString (convertUCharToCharArr (cArray 32 nm)),
      ChipVersion = bytesString (convertUCharToCharArr (cArray 32 ver))\<rparr>)"

definition DcGetChipInfo :: "'d dcmi_lib \<Rightarrow> 'd \<Rightarrow> i32 \<Rightarrow> i32 \<Rightarrow> ChipInfo option dcres" where
  "DcGetChipInfo lib st cardID deviceID =
     dcQuery None (IsValidCardIDAndDeviceID cardID deviceID) (dcmi_get_device_chip_info lib st cardID deviceID)
       (\<lambda>v. IsValidChipInfo (chipOf v)) EmptyChipInfo (\<lambda>v. Some (chipOf v))"

definition DcGetPhysicIDFromLogicID :: "'d dcmi_lib \<Rightarrow> 'd \<Rightarrow> i32 \<Rightarrow> i32 dcres" where
  "DcGetPhysicIDFromLogicID lib st logicID =
     dcQuery RetError (IsValidLogicIDOrPhyID logicID) (dcmi_get_device_phyid_from_logicid lib st logicID)
       IsValidLogicIDOrPhyID WrongValue (\<lambda>p. p)"

definition DcGetLogicIDFromPhysicID :: "'d dcmi_lib \<Rightarrow> 'd \<Rightarrow> i32 \<Rightarrow> i32 dcres" where
  "DcGetLogicIDFromPhysicID lib st physicID =
     dcQuery RetError (IsValidLogicIDOrPhyID physicID) (dcmi_get_device_logicid_from_phyid lib st physicID)
       IsValidLogicIDOrPhyID WrongValue (\<lambda>l. l)"

text \<open>Four decimal numbers between 0 and 255 joined by dots are a valid address that prints as
  itself, so the check of \<open>net.ParseIP\<close> always passes.\<close>

definition DcGetDeviceIPAddress :: "'d dcmi_lib \<Rightarrow> 'd \<Rightarrow> i32 \<Rightarrow> i32 \<Rightarrow> string dcres" where
  "DcGetDeviceIPAddress lib st cardID deviceID =
     dcQuery [] (IsValidCardIDAndDeviceID cardID deviceID) (dcmi_get_device_ip lib st cardID deviceID 1 0)
       (\<lambda>_. True) WrongValue
       (\<lambda>u. joinC CHR ''.'' (map (\<lambda>b. showNat (unat b)) (take 4 (cArray 16 u))))"

definition DcGetDeviceNetWorkHealth :: "'d dcmi_lib \<Rightarrow> 'd \<Rightarrow> i32 \<Rightarrow> i32 \<Rightarrow> u32 dcres" where
  "DcGetDeviceNetWorkHealth lib st cardID deviceID =
     dcQuery UnRetError (IsValidCardIDAndDeviceID cardID deviceID)
       (dcmi_get_device_network_health lib st cardID deviceID)
       (\<lambda>h. \<not> (sint h < 0 \<or> sint h > 127)) WrongValue (\<lambda>h. h)"

definition FuncDcmiMcuGetPowerInfo :: "'d dcmi_lib \<Rightarrow> 'd \<Rightarrow> i32 \<Rightarrow> rat dcres" where
  "FuncDcmiMcuGetPowerInfo lib st cardID =
     dcQuery (- 1) True (dcmi_mcu_get_power_info_new lib st cardID)
       (\<lambda>p. \<not> f32 (of_int (sint p)) < 0) WrongValue
       (\<lambda>p. f32 (f32 (of_int (sint p)) * f32 (1 / 10)))"

definition DcGetMcuPowerInfo :: "i32 \<Rightarrow> rat dcres" where
  "DcGetMcuPowerInfo cardID = (0, None)"

definition DcGetProductType :: "'d dcmi_lib \<Rightarrow> 'd \<Rightarrow> i32 \<Rightarrow> i32 \<Rightarrow> string dcres" where
  "DcGetProductType lib st cardID deviceID =
     dcQuery [] True (dcmi_get_product_type lib st cardID deviceID 64) (\<lambda>_. True) WrongValue
       (\<lambda>b. bytesString (takeWhile (\<lambda>v. v \<noteq> 0) (cArray 64 b)))"

definition DcGetCardIDDeviceID :: "'d dcmi_lib \<Rightarrow> 'd \<Rightarrow> i32 \<Rightarrow> (i32 \<times> i32) dcres" where
  "DcGetCardIDDeviceID lib st logicID =
     dcQuery (RetError, RetError) (IsValidLogicIDOrPhyID logicID)
       (dcmi_get_card_id_device_id_from_logicid lib st logicID)
       (\<lambda>(c, d). IsValidCardIDAndDeviceID c d) WrongValue (\<lambda>cd. cd)"

section \<open>Cards and logical ids\<close>

definition DcGetCardList :: "'d dcmi_lib \<Rightarrow> 'd \<Rightarrow> (i32 \<times> i32 list) dcres" where
  "DcGetCardList lib st =
     dcQuery (RetError, []) True (dcmi_get_card_list lib st HiAIMaxCardNum)
       (\<lambda>(n, ids). \<not> (sint n \<le> 0 \<or> sint n > int HiAIMaxCardNum)) WrongValue
       (\<lambda>(n, ids). (n, filter (\<lambda>c. \<not> sint c < 0) (take (nat (sint n)) (cArray HiAIMaxCardNum ids))))"

text \<open>The devices of one card: the logical ids collected so far, or the error of the first that
  fails.\<close>

fun logicIDsOfCard :: "'d dcmi_lib \<Rightarrow> 'd \<Rightarrow> i32 \<Rightarrow> nat list \<Rightarrow> i32 list \<Rightarrow> dcerr + i32 list" where
  "logicIDsOfCard lib st cardID [] acc = Inr acc"
| "logicIDsOfCard lib st cardID (devID # ds) acc =
     (case DcGetDeviceLogicID lib st cardID (of_nat devID) of
        (logicID, Some e) \<Rightarrow> Inl (Inner e)
      | (logicID, None) \<Rightarrow> logicIDsOfCard lib st cardID ds (acc @ [logicID]))"

fun logicIDLoop :: "'d dcmi_lib \<Rightarrow> 'd \<Rightarrow> i32 list \<Rightarrow> i32 \<Rightarrow> i32 list \<Rightarrow> (i32 \<times> i32 list) dcres" where
  "logicIDLoop lib st [] totalNum logicIDs = ((totalNum, logicIDs), None)"
| "logicIDLoop lib st (cardID # cs) totalNum logicIDs =
     (case DcGetDeviceNumInCard lib st cardID of
        (n, Some e) \<Rightarrow> ((RetError, logicIDs), Some (Inner e))
      | (n, None) \<Rightarrow>
          let totalNum' = totalNum + n
          in if sint totalNum' > int (HiAIMaxDeviceNum * HiAIMaxCardNum)
             then ((RetError, []), Some TooManyDevices)
             else case logicIDsOfCard lib st cardID [0..<nat (sint n)] logicIDs of
                    Inl e \<Rightarrow> ((RetError, []), Some e)
                  | Inr logicIDs' \<Rightarrow> logicIDLoop lib st cs totalNum' logicIDs')"

definition DcGetLogicIDList :: "'d dcmi_lib \<Rightarrow> 'd \<Rightarrow> (i32 \<times> i32 list) dcres" where
  "DcGetLogicIDList lib st =
     (case DcGetCardList lib st of
        (_, Some e) \<Rightarrow> ((RetError, []), Some (Inner e))
      | ((_, cardList), None) \<Rightarrow> logicIDLoop lib st cardList 0 [])"

definition DcGetDeviceCount :: "'d dcmi_lib \<Rightarrow> 'd \<Rightarrow> i32 dcres" where
  "DcGetDeviceCount lib st =
     (case DcGetLogicIDList lib st of
        (_, Some e) \<Rightarrow> (RetError, Some (Inner e)) | ((devNum, _), None) \<Rightarrow> (devNum, None))"

section \<open>Virtual devices\<close>

definition templateNameLen :: nat where "templateNameLen = 32"
definition dcmiMaxVdevNum :: nat where "dcmiMaxVdevNum = 32"
definition MainCmdVDevMng :: u32 where "MainCmdVDevMng = 52"
definition VmngSubCmdGetVDevResource :: u32 where "VmngSubCmdGetVDevResource = 0"
definition VmngSubCmdGetTotalResource :: u32 where "VmngSubCmdGetTotalResource = 1"
definition VmngSubCmdGetFreeResource :: u32 where "VmngSubCmdGetFreeResource = 2"

definition convertCreateVDevOut :: "CgoCreateVDevOut \<Rightarrow> CgoCreateVDevOut" where
  "convertCreateVDevOut c =
     \<lparr>OutVDevID = OutVDevID c, PcieBus = PcieBus c, PcieDevice = PcieDevice c,
      PcieFunc = PcieFunc c, OutVfgID = OutVfgID c\<rparr>"

text \<open>A template name longer than the array is refused; a shorter one is copied into zeros.\<close>

definition DcCreateVirtualDevice ::
  "'d dcmi_lib \<Rightarrow> i32 \<Rightarrow> i32 \<Rightarrow> CgoCreateVDevRes \<Rightarrow> 'd \<Rightarrow> CgoCreateVDevOut dcres \<times> 'd" where
  "DcCreateVirtualDevice lib cardID deviceID vDevInfo st =
     (if \<not> IsValidCardIDAndDeviceID cardID deviceID then ((zeroVDevOut, Some InvalidID), st)
      else if length (TemplateName vDevInfo) > templateNameLen then ((zeroVDevOut, Some NameTooLong), st)
      else let cTemplateName = cArray templateNameLen (map of_char (TemplateName vDevInfo));
               (res, st') = dcmi_create_vdevice lib st cardID deviceID
                              (ResVDevID vDevInfo, ResVfgID vDevInfo, cTemplateName)
           in case res of (rc, out) \<Rightarrow>
                if rc \<noteq> Success then ((zeroVDevOut, Some (CallFailed rc)), st')
                else ((convertCreateVDevOut out, None), st'))"

definition DcSetDestroyVirtualDevice ::
  "'d dcmi_lib \<Rightarrow> i32 \<Rightarrow> i32 \<Rightarrow> u32 \<Rightarrow> 'd \<Rightarrow> dcerr option \<times> 'd" where
  "DcSetDestroyVirtualDevice lib cardID deviceID vDevID st =
     (if \<not> IsValidCardIDAndDeviceID cardID deviceID then (Some InvalidID, st)
      else case dcmi_set_destroy_vdevice lib st cardID deviceID vDevID of (rc, st') \<Rightarrow>
        if rc \<noteq> Success then (Some (CallFailed rc), st') else (None, st'))"

definition convertBaseResource :: "CgoBaseResource \<Rightarrow> CgoBaseResource" where
  "convertBaseResource c =
     \<lparr>TokenCount = TokenCount c, TokenMax = TokenMax c, TaskTimeout = TaskTimeout c,
      BaseVfgID = BaseVfgID c, VipMode = VipMode c\<rparr>"

definition convertComputingResource :: "CgoComputingResource \<Rightarrow> CgoComputingResource" where
  "convertComputingResource c =
     \<lparr>Aic = Aic c, Aiv = Aiv c, Dsa = Dsa c, Rtsq = Rtsq c, Acsq = Acsq c, Cdqm = Cdqm c,
      CCore = CCore c, Ffts = Ffts c, Sdma = Sdma c, PcieDma = PcieDma c,
      CompMemorySize = CompMemorySize c, EventID = EventID c, NotifyID = NotifyID c,
      StreamID = StreamID c, ModelID = ModelID c, TopicScheduleAicpu = TopicScheduleAicpu c,
      HostCtrlCPU = HostCtrlCPU c, HostAicpu = HostAicpu c, DeviceAicpu = DeviceAicpu c,
      TopicCtrlCPUSlot = TopicCtrlCPUSlot c\<rparr>"

definition convertMediaResource :: "CgoMediaResource \<Rightarrow> CgoMediaResource" where
  "convertMediaResource c =
     \<lparr>Jpegd = Jpegd c, Jpege = Jpege c, Vpc = Vpc c, Vdec = Vdec c, Pngd = Pngd c, Venc = Venc c\<rparr>"

text \<open>The name of a virtual device is a C array of 16 characters.\<close>

definition convertVDevQueryInfo :: "CgoVDevQueryInfo \<Rightarrow> CgoVDevQueryInfo" where
  "convertVDevQueryInfo c =
     \<lparr>VName = bytesString (convertToString (cArray 16 (map of_char (VName c)))),
      VStatus = VStatus c, IsContainerUsed = IsContainerUsed c, Vfid = Vfid c, QVfgID = QVfgID c,
      ContainerID = ContainerID c, QBase = convertBaseResource (QBase c),
      QComputing = convertComputingResource (QComputing c), QMedia = convertMediaResource (QMedia c)\<rparr>"

definition convertVDevQueryStru :: "CgoVDevQueryStru \<Rightarrow> CgoVDevQueryStru" where
  "convertVDevQueryStru c = \<lparr>QVDevID = QVDevID c, QueryInfo = convertVDevQueryInfo (QueryInfo c)\<rparr>"

definition convertSocTotalResource :: "CgoSocTotalResource \<Rightarrow> CgoSocTotalResource" where
  "convertSocTotalResource c =
     \<lparr>VDevNum = VDevNum c,
      VDevIDs = take (min (unat (VDevNum c)) dcmiMaxVdevNum) (cArray dcmiMaxVdevNum (VDevIDs c)),
      TVfgNum = TVfgNum c, TVfgBitmap = TVfgBitmap c, TBase = convertBaseResource (TBase c),
      TComputing = convertComputingResource (TComputing c), TMedia = convertMediaResource (TMedia c)\<rparr>"

definition convertSocFreeResource :: "CgoSocFreeResource \<Rightarrow> CgoSocFreeResource" where
  "convertSocFreeResource c =
     \<lparr>FVfgNum = FVfgNum c, FVfgBitmap = FVfgBitmap c, FBase = convertBaseResource (FBase c),
      FComputing = convertComputingResource (FComputing c), FMedia = convertMediaResource (FMedia c)\<rparr>"

definition zeroBase :: CgoBaseResource where
  "zeroBase = \<lparr>TokenCount = 0, TokenMax = 0, TaskTimeout = 0, BaseVfgID = 0, VipMode = 0\<rparr>"

definition zeroComputing :: CgoComputingResource where
  "zeroComputing =
     \<lparr>Aic = 0, Aiv = 0, Dsa = 0, Rtsq = 0, Acsq = 0, Cdqm = 0, CCore = 0, Ffts = 0, Sdma = 0, PcieDma = 0,
      CompMemorySize = 0, EventID = 0, NotifyID = 0, StreamID = 0, ModelID = 0, TopicScheduleAicpu = 0,
      HostCtrlCPU = 0, HostAicpu = 0, DeviceAicpu = 0, TopicCtrlCPUSlot = 0\<rparr>"

definition zeroMedia :: CgoMediaResource where
  "zeroMedia = \<lparr>Jpegd = 0, Jpege = 0, Vpc = 0, Vdec = 0, Pngd = 0, Venc = 0\<rparr>"

definition zeroVDevQuery :: CgoVDevQueryStru where
  "zeroVDevQuery =
     \<lparr>QVDevID = 0, QueryInfo = \<lparr>VName = [], VStatus = 0, IsContainerUsed = 0, Vfid = 0, QVfgID = 0,
        ContainerID = 0, QBase = zeroBase, QComputing = zeroComputing, QMedia = zeroMedia\<rparr>\<rparr>"

definition zeroTotal :: CgoSocTotalResource where
  "zeroTotal = \<lparr>VDevNum = 0, VDevIDs = [], TVfgNum = 0, TVfgBitmap = 0, TBase = zeroBase,
                TComputing = zeroComputing, TMedia = zeroMedia\<rparr>"

definition zeroFree :: CgoSocFreeResource where
  "zeroFree = \<lparr>FVfgNum = 0, FVfgBitmap = 0, FBase = zeroBase, FComputing = zeroComputing, FMedia = zeroMedia\<rparr>"

definition zeroVirtual :: VirtualDevInfo where
  "zeroVirtual = \<lparr>TotalResource = zeroTotal, FreeResource = zeroFree, VDevInfo = []\<rparr>"

text \<open>The library fills the structure it is given: a buffer keeps its kind.\<close>

definition DcGetDeviceVDevResource :: "'d dcmi_lib \<Rightarrow> 'd \<Rightarrow> i32 \<Rightarrow> i32 \<Rightarrow> u32 \<Rightarrow> CgoVDevQueryStru dcres" where
  "DcGetDeviceVDevResource lib st cardID deviceID vDevID =
     (let buf = zeroVDevQuery\<lparr>QVDevID := vDevID\<rparr>
      in dcQuery zeroVDevQuery (IsValidCardIDAndDeviceID cardID deviceID)
           (dcmi_get_device_info lib st cardID deviceID MainCmdVDevMng VmngSubCmdGetVDevResource (VDevBuf buf))
           (\<lambda>_. True) WrongValue
           (\<lambda>b. convertVDevQueryStru (case b of VDevBuf v \<Rightarrow> v | _ \<Rightarrow> buf)))"

definition DcGetDeviceTotalResource :: "'d dcmi_lib \<Rightarrow> 'd \<Rightarrow> i32 \<Rightarrow> i32 \<Rightarrow> CgoSocTotalResource dcres" where
  "DcGetDeviceTotalResource lib st cardID deviceID =
     (let filled = (\<lambda>b. case b of TotalBuf v \<Rightarrow> v | _ \<Rightarrow> zeroTotal)
      in dcQuery zeroTotal (IsValidCardIDAndDeviceID cardID deviceID)
           (dcmi_get_device_info lib st cardID deviceID MainCmdVDevMng VmngSubCmdGetTotalResource (TotalBuf zeroTotal))
           (\<lambda>b. \<not> unat (VDevNum (filled b)) > dcmiMaxVdevNum) WrongValue
           (\<lambda>b. convertSocTotalResource (filled b)))"

definition DcGetDeviceFreeResource :: "'d dcmi_lib \<Rightarrow> 'd \<Rightarrow> i32 \<Rightarrow> i32 \<Rightarrow> CgoSocFreeResource dcres" where
  "DcGetDeviceFreeResource lib st cardID deviceID =
     dcQuery zeroFree (IsValidCardIDAndDeviceID cardID deviceID)
       (dcmi_get_device_info lib st cardID deviceID MainCmdVDevMng VmngSubCmdGetFreeResource (FreeBuf zeroFree))
       (\<lambda>_. True) WrongValue
       (\<lambda>b. convertSocFreeResource (case b of FreeBuf v \<Rightarrow> v | _ \<Rightarrow> zeroFree))"

fun vdevLoop :: "'d dcmi_lib \<Rightarrow> 'd \<Rightarrow> i32 \<Rightarrow> i32 \<Rightarrow> u32 list \<Rightarrow> VirtualDevInfo \<Rightarrow> VirtualDevInfo dcres" where
  "vdevLoop lib st cardID deviceID [] info = (info, None)"
| "vdevLoop lib st cardID deviceID (v # vs) info =
     (case DcGetDeviceVDevResource lib st cardID deviceID v of
        (q, Some e) \<Rightarrow> (zeroVirtual, Some (Inner e))
      | (q, None) \<Rightarrow> vdevLoop lib st cardID deviceID vs (info\<lparr>VDevInfo := VDevInfo info @ [q]\<rparr>))"

definition DcVGetDeviceInfo :: "'d dcmi_lib \<Rightarrow> 'd \<Rightarrow> i32 \<Rightarrow> i32 \<Rightarrow> VirtualDevInfo dcres" where
  "DcVGetDeviceInfo lib st cardID deviceID =
     (if \<not> IsValidCardIDAndDeviceID cardID deviceID then (zeroVirtual, Some InvalidID)
      else case dcmi_get_device_type lib st cardID deviceID of (rc, unitType) \<Rightarrow>
        if rc \<noteq> 0 then (zeroVirtual, Some (CallFailed rc))
        else if unitType \<noteq> 0 then (zeroVirtual, Some NotSupportedUnit)
        else case DcGetDeviceTotalResource lib st cardID deviceID of
               (_, Some e) \<Rightarrow> (zeroVirtual, Some (Inner e))
             | (tot, None) \<Rightarrow>
                 (case DcGetDeviceFreeResource lib st cardID deviceID of
                    (_, Some e) \<Rightarrow> (zeroVirtual, Some (Inner e))
                  | (free, None) \<Rightarrow>
                      vdevLoop lib st cardID deviceID (VDevIDs tot)
                        \<lparr>TotalResource = tot, FreeResource = free, VDevInfo = []\<rparr>))"

text \<open>The same by logical id.\<close>

definition DcCreateVDevice ::
  "'d dcmi_lib \<Rightarrow> i32 \<Rightarrow> CgoCreateVDevRes \<Rightarrow> 'd \<Rightarrow> CgoCreateVDevOut dcres \<times> 'd" where
  "DcCreateVDevice lib logicID vDevInfo st =
     (if \<not> IsValidLogicIDOrPhyID logicID then ((zeroVDevOut, Some InvalidID), st)
      else case DcGetCardIDDeviceID lib st logicID of
             (_, Some e) \<Rightarrow> ((zeroVDevOut, Some (Inner e)), st)
           | ((cardID, deviceID), None) \<Rightarrow>
               (case DcCreateVirtualDevice lib cardID deviceID vDevInfo st of
                  ((_, Some e), st') \<Rightarrow> ((zeroVDevOut, Some (Inner e)), st')
                | ((out, None), st') \<Rightarrow> ((out, None), st')))"

definition DcGetVDeviceInfo :: "'d dcmi_lib \<Rightarrow> 'd \<Rightarrow> i32 \<Rightarrow> VirtualDevInfo dcres" where
  "DcGetVDeviceInfo lib st logicID =
     (if \<not> IsValidLogicIDOrPhyID logicID then (zeroVirtual, Some InvalidID)
      else case DcGetCardIDDeviceID lib st logicID of
             (_, Some e) \<Rightarrow> (zeroVirtual, Some (Inner e))
           | ((cardID, deviceID), None) \<Rightarrow>
               (case DcVGetDeviceInfo lib st cardID deviceID of
                  (_, Some e) \<Rightarrow> (zeroVirtual, Some (Inner e)) | (info, None) \<Rightarrow> (info, None)))"

definition DcDestroyVDevice :: "'d dcmi_lib \<Rightarrow> i32 \<Rightarrow> u32 \<Rightarrow> 'd \<Rightarrow> dcerr option \<times> 'd" where
  "DcDestroyVDevice lib logicID vDevID st =
     (if \<not> IsValidLogicIDOrPhyID logicID then (Some InvalidID, st)
      else case DcGetCardIDDeviceID lib st logicID of
             (_, Some e) \<Rightarrow> (Some (Inner e), st)
           | ((cardID, deviceID), None) \<Rightarrow>
               (case DcSetDestroyVirtualDevice lib cardID deviceID vDevID st of
                  (Some e, st') \<Rightarrow> (Some (Inner e), st') | (None, st') \<Rightarrow> (None, st')))"

section \<open>Lemmas\<close>

lemma dcQuery_ok:
  "snd (dcQuery bad valid call good wrong conv) = None \<longleftrightarrow>
     valid \<and> fst call = Success \<and> good (snd call)"
  by (cases call) (simp add: dcQuery_def)

lemma dcQuery_value:
  "snd (dcQuery bad valid call good wrong conv) = None \<Longrightarrow>
     fst (dcQuery bad valid call good wrong conv) = conv (snd call)"
  by (cases call) (simp add: dcQuery_def split: if_splits)

lemma dcQuery_bad:
  "snd (dcQuery bad valid call good wrong conv) \<noteq> None \<Longrightarrow>
     fst (dcQuery bad valid call good wrong conv) = bad"
  by (cases call) (simp add: dcQuery_def split: if_splits)

lemma dcQuery_eq_ok:
  "dcQuery bad valid call good wrong conv = (v, None) \<longleftrightarrow>
     valid \<and> fst call = Success \<and> good (snd call) \<and> v = conv (snd call)"
  by (cases call) (auto simp: dcQuery_def)

lemma CALL_FUNC_Success:
  "fst (CALL_FUNC f call out) = Success \<Longrightarrow> f \<noteq> None"
  by (cases f) (simp_all add: CALL_FUNC_def FUNCTION_NOT_FOUND_def Success_def)

text \<open>The ranges the callers rely on.\<close>

lemmas dc_range_defs = IsValidDevNumInCard_def IsValidLogicIDOrPhyID_def IsValidCardIDAndDeviceID_def
  IsValidCardID_def IsValidDeviceID_def IsValidUtilizationRate_def IsGreaterThanOrEqualInt32_def
  HiAIMaxCardNum_def HiAIMaxDeviceNum_def MaxErrorCodeCount_def DefaultTemperatureWhenQueryFailed_def

lemma DcGetDeviceNumInCard_range:
  "DcGetDeviceNumInCard lib st c = (n, None) \<Longrightarrow> IsValidCardID c \<and> 1 \<le> sint n \<and> sint n \<le> 4"
  by (auto simp: DcGetDeviceNumInCard_def dcQuery_eq_ok IsValidDevNumInCard_def HiAIMaxDeviceNum_def)

lemma DcGetDeviceLogicID_range:
  "DcGetDeviceLogicID lib st c d = (i, None) \<Longrightarrow> 0 \<le> sint i \<and> sint i < 256"
  by (auto simp: DcGetDeviceLogicID_def dcQuery_eq_ok IsValidLogicIDOrPhyID_def HiAIMaxCardNum_def
      HiAIMaxDeviceNum_def)

text \<open>The specification of the logical id list: card by card, device by device, what the library
  answers.\<close>

definition devicesOfCard :: "'d dcmi_lib \<Rightarrow> 'd \<Rightarrow> i32 \<Rightarrow> nat" where
  "devicesOfCard lib st c = nat (sint (fst (DcGetDeviceNumInCard lib st c)))"

definition logicIDSpec :: "'d dcmi_lib \<Rightarrow> 'd \<Rightarrow> i32 list \<Rightarrow> i32 list" where
  "logicIDSpec lib st cards =
     concat (map (\<lambda>c. map (\<lambda>d. fst (DcGetDeviceLogicID lib st c (of_nat d))) [0..<devicesOfCard lib st c]) cards)"

lemma logicIDsOfCard_Inr:
  "logicIDsOfCard lib st c ds acc = Inr ids \<longleftrightarrow>
     (\<forall>d \<in> set ds. snd (DcGetDeviceLogicID lib st c (of_nat d)) = None) \<and>
     ids = acc @ map (\<lambda>d. fst (DcGetDeviceLogicID lib st c (of_nat d))) ds"
  by (induction ds arbitrary: acc) (auto split: prod.splits option.splits)

lemma sint_add_small:
  fixes a b :: i32
  assumes "0 \<le> sint a" "sint a \<le> 256" "0 \<le> sint b" "sint b \<le> 4"
  shows "sint (a + b) = sint a + sint b"
proof -
  have "sint (a + b) = signed_take_bit 31 (sint a + sint b)" by (simp add: sint_word_ariths)
  also have "\<dots> = sint a + sint b" using assms by (intro signed_take_bit_int_eq_self) simp_all
  finally show ?thesis .
qed

lemma logicIDLoop_ok:
  "logicIDLoop lib st cards n ids = ((m, out), None) \<Longrightarrow> 0 \<le> sint n \<Longrightarrow> sint n \<le> 256 \<Longrightarrow>
     out = ids @ logicIDSpec lib st cards \<and>
     sint m = sint n + int (sum_list (map (devicesOfCard lib st) cards)) \<and> sint m \<le> 256 \<and>
     (\<forall>c \<in> set cards. snd (DcGetDeviceNumInCard lib st c) = None \<and>
        (\<forall>d < devicesOfCard lib st c. snd (DcGetDeviceLogicID lib st c (of_nat d)) = None))"
proof (induction cards arbitrary: n ids)
  case (Cons c cs)
  obtain k where k: "DcGetDeviceNumInCard lib st c = (k, None)"
    using Cons.prems(1) by (cases "DcGetDeviceNumInCard lib st c") (auto split: option.splits)
  note range = DcGetDeviceNumInCard_range [OF k]
  have dev: "devicesOfCard lib st c = nat (sint k)" by (simp add: devicesOfCard_def k)
  have sum: "sint (n + k) = sint n + sint k" using Cons.prems(2,3) range by (intro sint_add_small) simp_all
  have bound: "\<not> sint (n + k) > 256"
    using Cons.prems(1) k by (auto simp: Let_def HiAIMaxCardNum_def HiAIMaxDeviceNum_def split: if_splits)
  then obtain ids' where inr: "logicIDsOfCard lib st c [0..<nat (sint k)] ids = Inr ids'"
    and rest: "logicIDLoop lib st cs (n + k) ids' = ((m, out), None)"
    using Cons.prems(1) k
    by (auto simp: Let_def HiAIMaxCardNum_def HiAIMaxDeviceNum_def split: if_splits sum.splits)
  have "0 \<le> sint (n + k)" using sum Cons.prems(2) range by simp
  from Cons.IH [OF rest this] bound inr show ?case
    using k dev sum range by (auto simp: logicIDsOfCard_Inr logicIDSpec_def)
qed (simp add: logicIDSpec_def)

lemma length_logicIDSpec: "length (logicIDSpec lib st cards) = sum_list (map (devicesOfCard lib st) cards)"
  by (induction cards) (simp_all add: logicIDSpec_def)

lemma DcGetLogicIDList_ok:
  assumes "DcGetLogicIDList lib st = ((n, ids), None)"
  obtains k cards where "DcGetCardList lib st = ((k, cards), None)" "ids = logicIDSpec lib st cards"
    "sint n = int (length ids)" "length ids \<le> 256"
    "\<forall>c \<in> set cards. snd (DcGetDeviceNumInCard lib st c) = None \<and>
        (\<forall>d < devicesOfCard lib st c. snd (DcGetDeviceLogicID lib st c (of_nat d)) = None)"
proof -
  obtain k cards where kc: "DcGetCardList lib st = ((k, cards), None)"
    using assms by (auto simp: DcGetLogicIDList_def split: prod.splits option.splits)
  then have "logicIDLoop lib st cards 0 [] = ((n, ids), None)"
    using assms by (simp add: DcGetLogicIDList_def)
  from logicIDLoop_ok [OF this] that [OF kc] show thesis by (simp add: length_logicIDSpec)
qed

lemma DcGetCardList_ok:
  "DcGetCardList lib st = ((k, cards), None) \<Longrightarrow>
     length cards \<le> 64 \<and> (\<forall>c \<in> set cards. 0 \<le> sint c) \<and> 1 \<le> sint k \<and> sint k \<le> 64"
proof -
  assume "DcGetCardList lib st = ((k, cards), None)"
  then obtain ids where k: "0 < sint k" "sint k \<le> 64"
    and cards: "cards = filter (\<lambda>c. \<not> sint c < 0) (take (nat (sint k)) (cArray 64 ids))"
    by (auto simp: DcGetCardList_def dcQuery_eq_ok HiAIMaxCardNum_def split: prod.splits)
  have "length cards \<le> length (take (nat (sint k)) (cArray 64 ids))" by (simp only: cards length_filter_le)
  also have "\<dots> \<le> 64" by simp
  finally show ?thesis using k cards by auto
qed

lemma convert_resources [simp]:
  "convertCreateVDevOut out = out" "convertBaseResource b = b" "convertComputingResource c = c"
  "convertMediaResource m = m"
  by (simp_all add: convertCreateVDevOut_def convertBaseResource_def convertComputingResource_def
      convertMediaResource_def)

lemma DcGetCardIDDeviceID_valid:
  "DcGetCardIDDeviceID lib st l = ((c, d), None) \<Longrightarrow> IsValidCardIDAndDeviceID c d"
  by (auto simp: DcGetCardIDDeviceID_def dcQuery_eq_ok)

lemma sint_of_small_uint: "uint (w :: u32) < 2147483647 \<Longrightarrow> 0 \<le> sint w"
proof -
  assume "uint w < 2147483647"
  moreover have "sint w = signed_take_bit 31 (uint w)" by (simp add: sint_uint)
  moreover have "0 \<le> uint w" by simp
  ultimately show ?thesis by (simp add: signed_take_bit_int_eq_self)
qed

text \<open>A result is well typed for a set of values and an error value.\<close>

definition typed :: "('a \<Rightarrow> bool) \<Rightarrow> 'a \<Rightarrow> 'a dcres \<Rightarrow> bool" where
  "typed P bad r = (case r of (v, None) \<Rightarrow> P v | (v, Some _) \<Rightarrow> v = bad)"

lemma typed_dcQuery:
  "(\<And>v. good v \<Longrightarrow> P (conv v)) \<Longrightarrow> typed P bad (dcQuery bad valid call good wrong conv)"
  by (cases call) (simp add: typed_def dcQuery_def)

lemma f32_nonneg: "0 \<le> q \<Longrightarrow> 0 \<le> f32 q"
  by (simp add: f32_def roundTo_nonneg)

lemma unsigned_rat_nonneg: "0 \<le> (unsigned (v :: u32) :: rat)"
  using of_int_0_le_iff [of "uint v", where 'a = rat] by simp

section \<open>Properties\<close>

text \<open>C27: the answers are well typed: whatever the vendor library returns, including nonsense and
  missing functions, each query yields either an error with the documented error value, or a value
  of its range: device counts from 1 to 4, logical and physical ids below 256, utilisation up to
  100, temperature from -275, health, frequency and error counts within a signed 32-bit integer,
  available memory not above the memory size, non-negative power, voltage and memory temperature,
  valid card and device numbers, a chip description that is not empty.\<close>

theorem dcmi_answers_well_typed:
  "typed (\<lambda>n. 1 \<le> sint n \<and> sint n \<le> 4) RetError (DcGetDeviceNumInCard lib st c) \<and>
   typed (\<lambda>i. 0 \<le> sint i \<and> sint i < 256) RetError (DcGetDeviceLogicID lib st c d) \<and>
   typed (\<lambda>i. 0 \<le> sint i \<and> sint i < 256) RetError (DcGetPhysicIDFromLogicID lib st l) \<and>
   typed (\<lambda>i. 0 \<le> sint i \<and> sint i < 256) RetError (DcGetLogicIDFromPhysicID lib st l) \<and>
   typed (\<lambda>(c, d). 0 \<le> sint c \<and> 0 \<le> sint d \<and> sint d < 4) (RetError, RetError) (DcGetCardIDDeviceID lib st l) \<and>
   typed (\<lambda>r. uint r \<le> 100) RetError (DcGetDeviceUtilizationRate lib st c d t) \<and>
   typed (\<lambda>x. - 275 \<le> sint x) RetError (DcGetDeviceTemperature lib st c d) \<and>
   typed (\<lambda>h. 0 \<le> sint h) RetError (DcGetDeviceHealth lib st c d) \<and>
   typed (\<lambda>f. 0 \<le> sint f) RetError (DcGetDeviceFrequency lib st c d t) \<and>
   typed (\<lambda>h. 0 \<le> sint h \<and> sint h \<le> 127) UnRetError (DcGetDeviceNetWorkHealth lib st c d) \<and>
   typed (\<lambda>(n, code). 0 \<le> sint n \<and> sint n \<le> 128 \<and> 0 \<le> code) (RetError, - 1) (DcGetDeviceErrorCode lib st c d) \<and>
   typed (\<lambda>m. \<exists>i. m = Some i \<and> MemoryAvailable i \<le> MemorySize i) None (DcGetMemoryInfo lib st c d) \<and>
   typed (\<lambda>h. \<exists>i. h = Some i \<and> 0 \<le> sint (HbmTemp i)) None (FuncDcmiGetDeviceHbmInfo lib st c d) \<and>
   typed (\<lambda>v. 0 \<le> v) (- 1) (DcGetDeviceVoltage lib st c d) \<and>
   typed (\<lambda>p. 0 \<le> p) (- 1) (DcGetDevicePowerInfo lib st c d) \<and>
   typed (\<lambda>p. 0 \<le> p) (- 1) (FuncDcmiMcuGetPowerInfo lib st c) \<and>
   typed (\<lambda>i. \<exists>chip. i = Some chip \<and> IsValidChipInfo chip) None (DcGetChipInfo lib st c d)"
  unfolding DcGetDeviceNumInCard_def DcGetDeviceLogicID_def DcGetPhysicIDFromLogicID_def
    DcGetLogicIDFromPhysicID_def DcGetCardIDDeviceID_def DcGetDeviceUtilizationRate_def
    DcGetDeviceTemperature_def DcGetDeviceHealth_def DcGetDeviceFrequency_def DcGetDeviceNetWorkHealth_def
    DcGetDeviceErrorCode_def DcGetMemoryInfo_def FuncDcmiGetDeviceHbmInfo_def DcGetDeviceVoltage_def
    DcGetDevicePowerInfo_def FuncDcmiMcuGetPowerInfo_def DcGetChipInfo_def
  by (intro conjI; rule typed_dcQuery; auto simp: dc_range_defs sint_of_small_uint f32_nonneg not_less
      unsigned_rat_nonneg intro!: f32_nonneg mult_nonneg_nonneg split: if_splits)

text \<open>C28: the list of logical ids is exact: when it is obtained, it holds for every card with a
  non-negative number, in order, the library's logical id of each of its devices, none left out; the
  reported count is its length, at most 256, and is what \<open>DcGetDeviceCount\<close> returns; every id
  is below 256.\<close>

theorem logic_id_list_exact:
  assumes "DcGetLogicIDList lib st = ((n, ids), None)"
  shows "\<exists>k cards. DcGetCardList lib st = ((k, cards), None) \<and> ids = logicIDSpec lib st cards \<and>
    sint n = int (length ids) \<and> length ids \<le> 256 \<and> (\<forall>i \<in> set ids. 0 \<le> sint i \<and> sint i < 256) \<and>
    DcGetDeviceCount lib st = (n, None)"
proof -
  obtain k cards where *: "DcGetCardList lib st = ((k, cards), None)" "ids = logicIDSpec lib st cards"
    "sint n = int (length ids)" "length ids \<le> 256"
    "\<forall>c \<in> set cards. snd (DcGetDeviceNumInCard lib st c) = None \<and>
        (\<forall>d < devicesOfCard lib st c. snd (DcGetDeviceLogicID lib st c (of_nat d)) = None)"
    using DcGetLogicIDList_ok [OF assms] by blast
  have "0 \<le> sint i \<and> sint i < 256" if "i \<in> set ids" for i
  proof -
    from that obtain c d where "c \<in> set cards" "d < devicesOfCard lib st c"
      and i: "i = fst (DcGetDeviceLogicID lib st c (of_nat d))"
      by (auto simp: *(2) logicIDSpec_def)
    then have "DcGetDeviceLogicID lib st c (of_nat d) = (i, None)" using *(5) by (metis prod.collapse)
    then show ?thesis by (rule DcGetDeviceLogicID_range)
  qed
  then show ?thesis using * assms by (auto simp: DcGetDeviceCount_def)
qed

text \<open>A library with two cards of one and two devices, for the examples; its state counts the virtual
  devices made.\<close>

definition demoLib :: "nat dcmi_lib" where
  "demoLib =
     \<lparr>dcmi_init_func = Some (\<lambda>_. 0),
      dcmi_get_card_list_func = Some (\<lambda>_ _. (0, 2, [3, 5])),
      dcmi_get_device_num_in_card_func = Some (\<lambda>_ c. (0, if c = 3 then 1 else 2)),
      dcmi_get_device_logic_id_func = Some (\<lambda>_ c d. (0, c * 4 + d)),
      dcmi_create_vdevice_func = Some (\<lambda>st c d v. ((0, zeroVDevOut\<lparr>OutVDevID := fst v\<rparr>), st + 1)),
      dcmi_set_destroy_vdevice_func = None, dcmi_get_device_info_func = None,
      dcmi_get_device_type_func = None, dcmi_get_device_health_func = None,
      dcmi_get_device_utilization_rate_func = Some (\<lambda>_ c d t. (0, 40)),
      dcmi_get_device_temperature_func = None, dcmi_get_device_voltage_func = None,
      dcmi_get_device_power_info_func = None, dcmi_get_device_frequency_func = None,
      dcmi_get_device_memory_info_v3_func =
        Some (\<lambda>_ c d. (0, \<lparr>MemorySize = 1000, MemoryAvailable = 900, Frequency = 0, Utilization = 10\<rparr>)),
      dcmi_get_device_hbm_info_func = None, dcmi_get_device_errorcode_v2_func = None,
      dcmi_get_device_chip_info_func = Some (\<lambda>_ c d. (0, [65], [51, 49, 48], [86])),
      dcmi_get_device_phyid_from_logicid_func = None, dcmi_get_device_logicid_from_phyid_func = None,
      dcmi_get_device_ip_func = None, dcmi_get_device_network_health_func = None,
      dcmi_get_card_id_device_id_from_logicid_func = Some (\<lambda>_ l. (0, l div 4, l mod 4)),
      dcmi_mcu_get_power_info_func = None, dcmi_get_product_type_func = None\<rparr>"

lemma demoLib_logic_ids: "DcGetLogicIDList demoLib 0 = ((3, [12, 20, 21]), None)"
  by code_simp

theorem logic_id_list_exact_witness:
  "DcGetLogicIDList demoLib 0 = ((3, [12, 20, 21]), None) \<and> DcGetDeviceCount demoLib 0 = (3, None)"
  using logic_id_list_exact [OF demoLib_logic_ids] demoLib_logic_ids by auto

text \<open>A virtual device is made only where it should be: a successful request by logical id was
  passed to the library for the card and device the library itself names for that id, both valid,
  with the template name zero-padded to its 32-byte field, and its answer is returned unchanged; a
  request with an invalid id, an unresolved id or a longer name leaves the driver as it was.\<close>

theorem virtual_device_request_checked:
  "case DcCreateVDevice lib logicID v st of
     ((out, None), st') \<Rightarrow>
        \<exists>c d. DcGetCardIDDeviceID lib st logicID = ((c, d), None) \<and> IsValidLogicIDOrPhyID logicID \<and>
          IsValidCardIDAndDeviceID c d \<and> length (TemplateName v) \<le> 32 \<and>
          dcmi_create_vdevice lib st c d
            (ResVDevID v, ResVfgID v, map of_char (TemplateName v) @ replicate (32 - length (TemplateName v)) 0)
            = ((Success, out), st')
   | ((out, Some e), st') \<Rightarrow>
        out = zeroVDevOut \<and>
        (\<not> IsValidLogicIDOrPhyID logicID \<or> snd (DcGetCardIDDeviceID lib st logicID) \<noteq> None \<or>
           length (TemplateName v) > 32 \<longrightarrow> st' = st)"
proof (cases "IsValidLogicIDOrPhyID logicID \<and> snd (DcGetCardIDDeviceID lib st logicID) = None")
  case False
  then show ?thesis
    by (auto simp: DcCreateVDevice_def split: prod.splits option.splits)
next
  case True
  then obtain c d where cd: "DcGetCardIDDeviceID lib st logicID = ((c, d), None)"
    by (metis prod.collapse)
  obtain rc out st' where call: "dcmi_create_vdevice lib st c d
      (ResVDevID v, ResVfgID v, cArray 32 (map of_char (TemplateName v))) = ((rc, out), st')"
    by (metis prod.collapse)
  have "length (TemplateName v) \<le> 32 \<Longrightarrow> cArray 32 (map of_char (TemplateName v)) =
      map of_char (TemplateName v) @ replicate (32 - length (TemplateName v)) (0 :: byte)"
    by (simp add: cArray_def)
  then show ?thesis
    using True cd call DcGetCardIDDeviceID_valid [OF cd]
    by (cases "rc = Success"; cases "length (TemplateName v) \<le> 32")
       (simp_all add: DcCreateVDevice_def DcCreateVirtualDevice_def templateNameLen_def)
qed

theorem virtual_device_request_checked_witness:
  "snd (DcCreateVDevice demoLib 20 \<lparr>ResVDevID = 7, ResVfgID = 0, TemplateName = replicate 33 CHR ''v''\<rparr> 3) = 3"
proof -
  let ?v = "\<lparr>ResVDevID = 7, ResVfgID = 0, TemplateName = replicate 33 CHR ''v''\<rparr>"
  obtain out e st' where r: "DcCreateVDevice demoLib 20 ?v 3 = ((out, e), st')"
    by (metis prod.collapse)
  show ?thesis
    using virtual_device_request_checked [where lib = demoLib and logicID = 20 and v = ?v and st = 3] r
    by (cases e) simp_all
qed

end
