(* ===== verification/Cndev.thy ===== *)
theory Cndev
  imports Dcmi
begin

text \<open>
  The Cambricon device client of \<open>gpu/mlu/cndev\<close> (\<open>cvdev.go\<close>, \<open>cndev_dl.go\<close>). The vendor
  library \<open>libcndev.so\<close> is a record of functions of a driver state, the structure version and the
  device (and link) number; each returns a code and the fields of the structure it fills, in the
  order of the header. Go's \<open>int\<close> and \<open>uint\<close> have 64 bits: the device number is cut to a C
  \<open>int\<close> on the way in, C integers are extended by their sign on the way out. Counts reported by
  the library size Go slices and bound loops over fixed C arrays, so a wrong count panics; these
  operations return \<open>CnPanic\<close>.
\<close>

section \<open>The library\<close>

definition CNDEV_SUCCESS :: u32 where "CNDEV_SUCCESS = 0"
definition CNDEV_ERROR_UNINITIALIZED :: u32 where "CNDEV_ERROR_UNINITIALIZED = 4"
definition CNDEV_ERROR_UNKNOWN :: u32 where "CNDEV_ERROR_UNKNOWN = 7"
definition version :: i32 where "version = 5"

type_synonym ('d, 'a) cnfun = "'d \<Rightarrow> i32 \<Rightarrow> i32 \<Rightarrow> u32 \<times> 'a"
type_synonym ('d, 'a) cnlink = "'d \<Rightarrow> i32 \<Rightarrow> i32 \<Rightarrow> i32 \<Rightarrow> u32 \<times> 'a"

record eccInfo =
  oneBitError :: u64
  multipleOneError :: u64
  multipleError :: u64
  multipleMultipleError :: u64
  correctedError :: u64
  uncorrectedError :: u64
  totalError :: u64
  addressForbiddenError :: u64

record linkCounter =
  cntrReadByte :: u64
  cntrReadPackage :: u64
  cntrWriteByte :: u64
  cntrWritePackage :: u64
  errReplay :: u64
  errFatal :: u64
  errEccDouble :: u64
  errCRC24 :: u64
  errCRC32 :: u64
  errCorrected :: u64
  errUncorrected :: u64

record pcieInfo =
  subsystemId :: u32
  pciDeviceId :: u32
  vendor :: u16
  subsystemVendor :: u16
  pciDomain :: u32
  bus :: u32
  pciDevice :: u32
  pciFunction :: u32
  slotID :: i32

record processUtil =
  pid :: u32
  ipuUtil :: u32
  jpuUtil :: u32
  vpuDecUtil :: u32
  vpuEncUtil :: u32
  memUtil :: u32

record 'd cndev_lib =
  cndevInit :: "'d \<Rightarrow> u32"
  cndevReleaseLib :: "'d \<Rightarrow> u32"
  cndevGetErrorString :: "u32 \<Rightarrow> string"
  cndevGetArmOsMemoryUsage :: "('d, u64 \<times> u64) cnfun"
  cndevGetClusterCount :: "('d, i32) cnfun"
  cndevGetCoreCount :: "('d, i32) cnfun"
  cndevGetDeviceCount :: "'d \<Rightarrow> i32 \<Rightarrow> u32 \<times> u32"
  cndevGetDeviceCPUUtilization :: "('d, u16 \<times> byte \<times> byte list) cnfun"
  cndevGetCRCInfo :: "('d, u64 \<times> u64) cnfun"
  cndevGetCurrentPCIInfo :: "('d, i32 \<times> i32) cnfun"
  cndevGetDDRInfo :: "('d, u32 \<times> u32 \<times> u32) cnfun"
  cndevGetECCInfo :: "('d, eccInfo) cnfun"
  cndevGetFanSpeedInfo :: "('d, i32) cnfun"
  cndevGetCardHealthState :: "('d, i32) cnfun"
  cndevGetImageCodecUtilization :: "('d, i32 \<times> i32 list) cnfun"
  cndevGetMemoryUsage :: "('d, u64 \<times> u64 \<times> u64 \<times> u64) cnfun"
  cndevGetMLULinkCapability :: "('d, u32 \<times> u32) cnlink"
  cndevGetMLULinkCounter :: "('d, linkCounter) cnlink"
  cndevGetMLULinkPortMode :: "('d, i32) cnlink"
  cndevGetMLULinkPortNumber :: "'d \<Rightarrow> i32 \<Rightarrow> i32"
  cndevGetMLULinkSpeedInfo :: "('d, rat \<times> i32) cnlink"
  cndevGetMLULinkStatus :: "('d, i32 \<times> i32) cnlink"
  cndevGetMLULinkVersion :: "('d, u32 \<times> u32 \<times> u32) cnlink"
  cndevGetCardNameStringByDevId :: "'d \<Rightarrow> i32 \<Rightarrow> string"
  cndevGetNUMANodeIdByDevId :: "('d, i32) cnfun"
  cndevGetPCIeInfo :: "('d, pcieInfo) cnfun"
  cndevGetPowerInfo :: "('d, i32) cnfun"
  cndevGetProcessUtilization :: "'d \<Rightarrow> u32 \<Rightarrow> i32 \<Rightarrow> i32 \<Rightarrow> u32 \<times> u32 \<times> (nat \<Rightarrow> processUtil)"
  cndevGetCardSN :: "('d, u64) cnfun"
  cndevGetTemperatureInfo :: "('d, i32 \<times> i32 list) cnfun"
  cndevGetTinyCoreUtilization :: "('d, i32 \<times> i32 list) cnfun"
  cndevGetDeviceUtilizationInfo :: "('d, i32 \<times> i32 list) cnfun"
  cndevGetUUID :: "('d, byte list) cnfun"
  cndevGetVersionInfo :: "('d, u32 \<times> u32 \<times> u32 \<times> u32 \<times> u32 \<times> u32) cnfun"
  cndevGetCardVfState :: "('d, i32) cnfun"
  cndevGetVideoCodecUtilization :: "('d, i32 \<times> i32 list) cnfun"

section \<open>Loading\<close>

text \<open>The open handles of the library; \<open>opens\<close> says whether \<open>dlopen\<close> succeeds, \<open>closes\<close> whether
  the \<open>dlclose\<close> of a handle does.\<close>

type_synonym dlhandles = "nat list"

definition dl_cndevInit :: "'d cndev_lib \<Rightarrow> 'd \<Rightarrow> nat option \<Rightarrow> dlhandles \<Rightarrow> u32 \<times> dlhandles" where
  "dl_cndevInit lib st opens hs =
     (case opens of None \<Rightarrow> (CNDEV_ERROR_UNINITIALIZED, hs) | Some h \<Rightarrow> (cndevInit lib st, hs @ [h]))"

definition dl_cndevRelease :: "'d cndev_lib \<Rightarrow> 'd \<Rightarrow> (nat \<Rightarrow> bool) \<Rightarrow> dlhandles \<Rightarrow> u32" where
  "dl_cndevRelease lib st closes hs =
     (let ret = cndevReleaseLib lib st
      in if ret \<noteq> CNDEV_SUCCESS then ret
         else if \<exists>h \<in> set hs. \<not> closes h then CNDEV_ERROR_UNKNOWN else CNDEV_SUCCESS)"

definition errorString :: "'d cndev_lib \<Rightarrow> u32 \<Rightarrow> string option" where
  "errorString lib ret =
     (if ret = CNDEV_SUCCESS then None else Some (''cndev: '' @ cndevGetErrorString lib ret))"

definition InitCn :: "'d cndev_lib \<Rightarrow> 'd \<Rightarrow> nat option \<Rightarrow> dlhandles \<Rightarrow> string option \<times> dlhandles" where
  "InitCn lib st opens hs =
     (case dl_cndevInit lib st opens hs of (r, hs') \<Rightarrow>
        (if r = CNDEV_ERROR_UNINITIALIZED then Some ''could not load CNDEV library'' else errorString lib r, hs'))"

definition ReleaseCn :: "'d cndev_lib \<Rightarrow> 'd \<Rightarrow> (nat \<Rightarrow> bool) \<Rightarrow> dlhandles \<Rightarrow> string option" where
  "ReleaseCn lib st closes hs = errorString lib (dl_cndevRelease lib st closes hs)"

section \<open>Queries\<close>

datatype 'a cnres = CnRet 'a "string option" | CnPanic

text \<open>\<open>C.int(idx)\<close> of a 64-bit \<open>uint\<close>, and \<open>int(x)\<close>, \<open>uint(x)\<close> of a C \<open>int\<close>.\<close>

definition cint :: "u64 \<Rightarrow> i32" where "cint idx = ucast idx"
definition goInt :: "i32 \<Rightarrow> int" where "goInt x = sint x"
definition goUint :: "i32 \<Rightarrow> u64" where "goUint x = scast x"
definition u32Uint :: "u32 \<Rightarrow> u64" where "u32Uint x = ucast x"

text \<open>Two shapes: the fields whatever the code says, or zero values beside an error.\<close>

definition cnFields :: "'d cndev_lib \<Rightarrow> u32 \<times> 'a \<Rightarrow> ('a \<Rightarrow> 'b) \<Rightarrow> 'b cnres" where
  "cnFields lib call conv = CnRet (conv (snd call)) (errorString lib (fst call))"

definition cnChecked :: "'d cndev_lib \<Rightarrow> u32 \<times> 'a \<Rightarrow> 'b \<Rightarrow> ('a \<Rightarrow> 'b cnres) \<Rightarrow> 'b cnres" where
  "cnChecked lib call zero conv =
     (case errorString lib (fst call) of Some e \<Rightarrow> CnRet zero (Some e) | None \<Rightarrow> conv (snd call))"

text \<open>The first \<open>n\<close> elements of a C array of fixed size: a longer or negative count (an enormous
  unsigned number) panics, when the slice is made or when the loop leaves the array.\<close>

definition readArr :: "nat \<Rightarrow> u64 \<Rightarrow> 'a::zero list \<Rightarrow> 'a list option" where
  "readArr len n arr = (if unat n \<le> len then Some (take (unat n) (cArray len arr)) else None)"

definition cnList :: "('a list \<Rightarrow> 'b) \<Rightarrow> 'a list option \<Rightarrow> 'b cnres" where
  "cnList f r = (case r of None \<Rightarrow> CnPanic | Some xs \<Rightarrow> CnRet (f xs) None)"

definition GetDeviceArmOsMemory :: "'d cndev_lib \<Rightarrow> 'd \<Rightarrow> u64 \<Rightarrow> (int \<times> int) cnres" where
  "GetDeviceArmOsMemory lib st idx =
     cnFields lib (cndevGetArmOsMemoryUsage lib st version (cint idx)) (\<lambda>(tot, used). (sint used, sint tot))"

definition GetDeviceClusterCount :: "'d cndev_lib \<Rightarrow> 'd \<Rightarrow> u64 \<Rightarrow> int cnres" where
  "GetDeviceClusterCount lib st idx = cnFields lib (cndevGetClusterCount lib st version (cint idx)) goInt"

definition GetDeviceCoreNum :: "'d cndev_lib \<Rightarrow> 'd \<Rightarrow> u64 \<Rightarrow> u64 cnres" where
  "GetDeviceCoreNum lib st idx = cnFields lib (cndevGetCoreCount lib st version (cint idx)) goUint"

definition GetDeviceCount :: "'d cndev_lib \<Rightarrow> 'd \<Rightarrow> u64 cnres" where
  "GetDeviceCount lib st = cnFields lib (cndevGetDeviceCount lib st version) u32Uint"

definition GetDeviceCPUUtil :: "'d cndev_lib \<Rightarrow> 'd \<Rightarrow> u64 \<Rightarrow> (u16 \<times> byte list) cnres" where
  "GetDeviceCPUUtil lib st idx =
     cnChecked lib (cndevGetDeviceCPUUtilization lib st version (cint idx)) (0, [])
       (\<lambda>(chip, n, cores). cnList (\<lambda>xs. (chip, xs)) (readArr 80 (ucast n) cores))"

definition GetDeviceCRCInfo :: "'d cndev_lib \<Rightarrow> 'd \<Rightarrow> u64 \<Rightarrow> (u64 \<times> u64) cnres" where
  "GetDeviceCRCInfo lib st idx = cnFields lib (cndevGetCRCInfo lib st version (cint idx)) (\<lambda>x. x)"

definition GetDeviceCurrentPCIeInfo :: "'d cndev_lib \<Rightarrow> 'd \<Rightarrow> u64 \<Rightarrow> (int \<times> int) cnres" where
  "GetDeviceCurrentPCIeInfo lib st idx =
     cnFields lib (cndevGetCurrentPCIInfo lib st version (cint idx)) (\<lambda>(s, w). (goInt s, goInt w))"

text \<open>\<open>ParseFloat\<close> of the two numbers joined by a dot, which always succeeds.\<close>

definition GetDeviceDDRInfo :: "'d cndev_lib \<Rightarrow> 'd \<Rightarrow> u64 \<Rightarrow> (int \<times> rat) cnres" where
  "GetDeviceDDRInfo lib st idx =
     cnChecked lib (cndevGetDDRInfo lib st version (cint idx)) (0, 0)
       (\<lambda>(dataWidth, bw, dec).
          CnRet (uint dataWidth, f64 (of_nat (unat bw) + of_nat (unat dec) / 10 ^ length (showNat (unat dec)))) None)"

definition GetDeviceECCInfo ::
  "'d cndev_lib \<Rightarrow> 'd \<Rightarrow> u64 \<Rightarrow> (u64 \<times> u64 \<times> u64 \<times> u64 \<times> u64 \<times> u64 \<times> u64 \<times> u64) cnres" where
  "GetDeviceECCInfo lib st idx =
     cnFields lib (cndevGetECCInfo lib st version (cint idx))
       (\<lambda>i. (addressForbiddenError i, correctedError i, multipleError i, multipleMultipleError i,
             multipleOneError i, oneBitError i, totalError i, uncorrectedError i))"

definition GetDeviceFanSpeed :: "'d cndev_lib \<Rightarrow> 'd \<Rightarrow> u64 \<Rightarrow> int cnres" where
  "GetDeviceFanSpeed lib st idx = cnFields lib (cndevGetFanSpeedInfo lib st version (cint idx)) goInt"

definition GetDeviceHealth :: "'d cndev_lib \<Rightarrow> 'd \<Rightarrow> u64 \<Rightarrow> int cnres" where
  "GetDeviceHealth lib st idx = cnFields lib (cndevGetCardHealthState lib st version (cint idx)) goInt"

definition GetDeviceMemory :: "'d cndev_lib \<Rightarrow> 'd \<Rightarrow> u64 \<Rightarrow> (int \<times> int \<times> int \<times> int) cnres" where
  "GetDeviceMemory lib st idx =
     cnFields lib (cndevGetMemoryUsage lib st version (cint idx))
       (\<lambda>(pTotal, pUsed, vTotal, vUsed). (sint pUsed, sint pTotal, sint vUsed, sint vTotal))"

definition GetDeviceMLULinkCapability :: "'d cndev_lib \<Rightarrow> 'd \<Rightarrow> u64 \<Rightarrow> u64 \<Rightarrow> (u64 \<times> u64) cnres" where
  "GetDeviceMLULinkCapability lib st idx link =
     cnFields lib (cndevGetMLULinkCapability lib st version (cint idx) (cint link))
       (\<lambda>(p, i). (u32Uint p, u32Uint i))"

definition GetDeviceMLULinkCounter ::
  "'d cndev_lib \<Rightarrow> 'd \<Rightarrow> u64 \<Rightarrow> u64 \<Rightarrow>
     (u64 \<times> u64 \<times> u64 \<times> u64 \<times> u64 \<times> u64 \<times> u64 \<times> u64 \<times> u64 \<times> u64 \<times> u64) cnres" where
  "GetDeviceMLULinkCounter lib st idx link =
     cnFields lib (cndevGetMLULinkCounter lib st version (cint idx) (cint link))
       (\<lambda>c. (cntrReadByte c, cntrReadPackage c, cntrWriteByte c, cntrWritePackage c, errCorrected c,
             errCRC24 c, errCRC32 c, errEccDouble c, errFatal c, errReplay c, errUncorrected c))"

definition GetDeviceMLULinkPortMode :: "'d cndev_lib \<Rightarrow> 'd \<Rightarrow> u64 \<Rightarrow> u64 \<Rightarrow> int cnres" where
  "GetDeviceMLULinkPortMode lib st idx link =
     cnFields lib (cndevGetMLULinkPortMode lib st version (cint idx) (cint link)) goInt"

definition GetDeviceMLULinkPortNumber :: "'d cndev_lib \<Rightarrow> 'd \<Rightarrow> u64 \<Rightarrow> int" where
  "GetDeviceMLULinkPortNumber lib st idx = goInt (cndevGetMLULinkPortNumber lib st (cint idx))"

definition GetDeviceMLULinkSpeedInfo :: "'d cndev_lib \<Rightarrow> 'd \<Rightarrow> u64 \<Rightarrow> u64 \<Rightarrow> (rat \<times> int) cnres" where
  "GetDeviceMLULinkSpeedInfo lib st idx link =
     cnFields lib (cndevGetMLULinkSpeedInfo lib st version (cint idx) (cint link)) (\<lambda>(v, f). (v, goInt f))"

definition GetDeviceMLULinkStatus :: "'d cndev_lib \<Rightarrow> 'd \<Rightarrow> u64 \<Rightarrow> u64 \<Rightarrow> (int \<times> int) cnres" where
  "GetDeviceMLULinkStatus lib st idx link =
     cnFields lib (cndevGetMLULinkStatus lib st version (cint idx) (cint link)) (\<lambda>(a, s). (goInt a, goInt s))"

definition GetDeviceMLULinkVersion :: "'d cndev_lib \<Rightarrow> 'd \<Rightarrow> u64 \<Rightarrow> u64 \<Rightarrow> (u64 \<times> u64 \<times> u64) cnres" where
  "GetDeviceMLULinkVersion lib st idx link =
     cnFields lib (cndevGetMLULinkVersion lib st version (cint idx) (cint link))
       (\<lambda>(a, b, c). (u32Uint a, u32Uint b, u32Uint c))"

definition GetDeviceModel :: "'d cndev_lib \<Rightarrow> 'd \<Rightarrow> u64 \<Rightarrow> string" where
  "GetDeviceModel lib st idx = cndevGetCardNameStringByDevId lib st (cint idx)"

definition GetDeviceNUMANodeID :: "'d cndev_lib \<Rightarrow> 'd \<Rightarrow> u64 \<Rightarrow> int cnres" where
  "GetDeviceNUMANodeID lib st idx = cnFields lib (cndevGetNUMANodeIdByDevId lib st version (cint idx)) goInt"

definition GetDevicePCIeInfo ::
  "'d cndev_lib \<Rightarrow> 'd \<Rightarrow> u64 \<Rightarrow> (int \<times> u64 \<times> u64 \<times> u16 \<times> u16 \<times> u64 \<times> u64 \<times> u64 \<times> u64) cnres" where
  "GetDevicePCIeInfo lib st idx =
     cnFields lib (cndevGetPCIeInfo lib st version (cint idx))
       (\<lambda>p. (goInt (slotID p), u32Uint (subsystemId p), u32Uint (pciDeviceId p), vendor p, subsystemVendor p,
             u32Uint (pciDomain p), u32Uint (bus p), u32Uint (pciDevice p), u32Uint (pciFunction p)))"

definition GetDevicePower :: "'d cndev_lib \<Rightarrow> 'd \<Rightarrow> u64 \<Rightarrow> int cnres" where
  "GetDevicePower lib st idx = cnFields lib (cndevGetPowerInfo lib st version (cint idx)) goInt"

text \<open>The library gets room for ten processes and writes back how many there are; a larger number
  panics at the slice of the ten-element array.\<close>

definition GetDeviceProcessUtil ::
  "'d cndev_lib \<Rightarrow> 'd \<Rightarrow> u64 \<Rightarrow>
     (u32 list \<times> u32 list \<times> u32 list \<times> u32 list \<times> u32 list \<times> u32 list) cnres" where
  "GetDeviceProcessUtil lib st idx =
     cnChecked lib (cndevGetProcessUtilization lib st 10 version (cint idx)) ([], [], [], [], [], [])
       (\<lambda>(processCount, utils).
          if unat processCount > 10 then CnPanic
          else let results = map utils [0..<unat processCount]
               in CnRet (map pid results, map ipuUtil results, map jpuUtil results, map memUtil results,
                         map vpuDecUtil results, map vpuEncUtil results) None)"

fun showHex :: "nat \<Rightarrow> string" where
  "showHex n =
     (let d = n mod 16; c = (if d < 10 then char_of (48 + d) else char_of (87 + d))
      in if n < 16 then [c] else showHex (n div 16) @ [c])"

declare showHex.simps [simp del]

definition GetDeviceSN :: "'d cndev_lib \<Rightarrow> 'd \<Rightarrow> u64 \<Rightarrow> string cnres" where
  "GetDeviceSN lib st idx =
     cnChecked lib (cndevGetCardSN lib st version (cint idx)) []
       (\<lambda>sn. CnRet (if sint sn < 0 then ''-'' @ showHex (nat (- sint sn)) else showHex (nat (sint sn))) None)"

definition GetDeviceTemperature :: "'d cndev_lib \<Rightarrow> 'd \<Rightarrow> u64 \<Rightarrow> (int \<times> int list) cnres" where
  "GetDeviceTemperature lib st idx =
     (case cndevGetClusterCount lib st version (cint idx) of (r0, cluster) \<Rightarrow>
        case errorString lib r0 of
          Some e \<Rightarrow> CnRet (0, []) (Some e)
        | None \<Rightarrow>
            cnChecked lib (cndevGetTemperatureInfo lib st version (cint idx)) (0, [])
              (\<lambda>(board, temps). cnList (\<lambda>xs. (goInt board, map goInt xs)) (readArr 20 (goUint cluster) temps)))"

definition GetDeviceTinyCoreUtil :: "'d cndev_lib \<Rightarrow> 'd \<Rightarrow> u64 \<Rightarrow> int list cnres" where
  "GetDeviceTinyCoreUtil lib st idx =
     cnChecked lib (cndevGetTinyCoreUtilization lib st version (cint idx)) []
       (\<lambda>(n, xs). cnList (map goInt) (readArr 10 (goUint n) xs))"

definition GetDeviceUtil :: "'d cndev_lib \<Rightarrow> 'd \<Rightarrow> u64 \<Rightarrow> (int \<times> int list) cnres" where
  "GetDeviceUtil lib st idx =
     (case cndevGetCoreCount lib st version (cint idx) of (r0, core) \<Rightarrow>
        case errorString lib r0 of
          Some e \<Rightarrow> CnRet (0, []) (Some e)
        | None \<Rightarrow>
            cnChecked lib (cndevGetDeviceUtilizationInfo lib st version (cint idx)) (0, [])
              (\<lambda>(avg, cores). cnList (\<lambda>xs. (goInt avg, map goInt xs)) (readArr 80 (goUint core) cores)))"

definition GetDeviceUUID :: "'d cndev_lib \<Rightarrow> 'd \<Rightarrow> u64 \<Rightarrow> string cnres" where
  "GetDeviceUUID lib st idx =
     cnChecked lib (cndevGetUUID lib st version (cint idx)) []
       (\<lambda>u. CnRet (bytesString (takeWhile (\<lambda>v. v \<noteq> 0) (cArray 37 u))) None)"

definition GetDeviceVersion ::
  "'d cndev_lib \<Rightarrow> 'd \<Rightarrow> u64 \<Rightarrow> (u64 \<times> u64 \<times> u64 \<times> u64 \<times> u64 \<times> u64) cnres" where
  "GetDeviceVersion lib st idx =
     cnFields lib (cndevGetVersionInfo lib st version (cint idx))
       (\<lambda>(a, b, c, d, e, f). (u32Uint a, u32Uint b, u32Uint c, u32Uint d, u32Uint e, u32Uint f))"

definition GetDeviceVfState :: "'d cndev_lib \<Rightarrow> 'd \<Rightarrow> u64 \<Rightarrow> int cnres" where
  "GetDeviceVfState lib st idx = cnFields lib (cndevGetCardVfState lib st version (cint idx)) goInt"

definition GetDeviceImageCodecUtil :: "'d cndev_lib \<Rightarrow> 'd \<Rightarrow> u64 \<Rightarrow> int list cnres" where
  "GetDeviceImageCodecUtil lib st idx =
     cnChecked lib (cndevGetImageCodecUtilization lib st version (cint idx)) []
       (\<lambda>(n, xs). cnList (map goInt) (readArr 20 (goUint n) xs))"

definition GetDeviceVideoCodecUtil :: "'d cndev_lib \<Rightarrow> 'd \<Rightarrow> u64 \<Rightarrow> int list cnres" where
  "GetDeviceVideoCodecUtil lib st idx =
     cnChecked lib (cndevGetVideoCodecUtilization lib st version (cint idx)) []
       (\<lambda>(n, xs). cnList (map goInt) (readArr 20 (goUint n) xs))"

section \<open>Lemmas\<close>

lemma unat_goUint: "unat (goUint n) = nat (if 0 \<le> sint n then sint n else sint n + 2 ^ 64)"
proof -
  have range: "- (2 ^ 31) \<le> sint n" "sint n < 2 ^ 31"
    using sint_range_size [of n] by (simp_all add: word_size)
  have "uint (goUint n) = sint n mod 2 ^ 64"
    by (simp only: goUint_def scast_eq uint_word_of_int) simp
  also have "\<dots> = (if 0 \<le> sint n then sint n else sint n + 2 ^ 64)"
  proof (cases "0 \<le> sint n")
    case True
    then show ?thesis using range by (simp add: mod_pos_pos_trivial)
  next
    case False
    have "sint n mod 2 ^ 64 = (sint n + 2 ^ 64) mod 2 ^ 64" by simp
    also have "\<dots> = sint n + 2 ^ 64" using False range by (intro mod_pos_pos_trivial) simp_all
    finally show ?thesis using False by simp
  qed
  finally show ?thesis by (simp only: unat_eq_nat_uint)
qed

lemma readArr_goUint:
  assumes "len < 2 ^ 31"
  shows "readArr len (goUint n) arr =
     (if 0 \<le> sint n \<and> sint n \<le> int len then Some (take (nat (sint n)) (cArray len arr)) else None)"
proof (cases "0 \<le> sint n")
  case True
  then show ?thesis by (simp add: readArr_def unat_goUint nat_le_iff)
next
  case False
  have "- (2 ^ 31) \<le> sint n" using sint_range_size [of n] by (simp add: word_size)
  then have "2 ^ 31 \<le> nat (sint n + 2 ^ 64)" by (simp add: le_nat_iff)
  then have "\<not> nat (sint n + 2 ^ 64) \<le> len" using assms by (simp only: not_le)
  then show ?thesis using False by (simp add: readArr_def unat_goUint)
qed

lemma errorString_None: "errorString lib r = None \<longleftrightarrow> r = CNDEV_SUCCESS"
  by (simp add: errorString_def)

section \<open>Properties\<close>

text \<open>A count fits an array, and the values a query may read then.\<close>

definition countIn :: "nat \<Rightarrow> i32 \<Rightarrow> bool" where
  "countIn len n \<longleftrightarrow> 0 \<le> sint n \<and> sint n \<le> int len"

definition firstInts :: "nat \<Rightarrow> i32 \<Rightarrow> i32 list \<Rightarrow> int list" where
  "firstInts len n arr = map sint (take (nat (sint n)) (cArray len arr))"

text \<open>The lists of per-core, per-cluster and per-codec readings are exact: when the library
  succeeds, the query returns precisely the first \<open>count\<close> entries of the C array as long as the
  count the library reported is within the array, and it panics exactly when the count is negative
  or larger; a failing library call is an error with empty values and never a panic.\<close>

theorem cndev_lists_within_arrays:
  "GetDeviceUtil lib st idx =
     (let (r, cores) = cndevGetCoreCount lib st version (cint idx);
          (r1, avg, utils) = cndevGetDeviceUtilizationInfo lib st version (cint idx)
      in if r \<noteq> CNDEV_SUCCESS then CnRet (0, []) (errorString lib r)
         else if r1 \<noteq> CNDEV_SUCCESS then CnRet (0, []) (errorString lib r1)
         else if countIn 80 cores then CnRet (sint avg, firstInts 80 cores utils) None else CnPanic) \<and>
   GetDeviceTemperature lib st idx =
     (let (r, clusters) = cndevGetClusterCount lib st version (cint idx);
          (r1, board, temps) = cndevGetTemperatureInfo lib st version (cint idx)
      in if r \<noteq> CNDEV_SUCCESS then CnRet (0, []) (errorString lib r)
         else if r1 \<noteq> CNDEV_SUCCESS then CnRet (0, []) (errorString lib r1)
         else if countIn 20 clusters then CnRet (sint board, firstInts 20 clusters temps) None else CnPanic) \<and>
   GetDeviceVideoCodecUtil lib st idx =
     (let (r, vpus, utils) = cndevGetVideoCodecUtilization lib st version (cint idx)
      in if r \<noteq> CNDEV_SUCCESS then CnRet [] (errorString lib r)
         else if countIn 20 vpus then CnRet (firstInts 20 vpus utils) None else CnPanic)"
  by (simp add: GetDeviceUtil_def GetDeviceTemperature_def GetDeviceVideoCodecUtil_def cnChecked_def cnList_def
      readArr_goUint countIn_def firstInts_def goInt_def errorString_def split_def Let_def)

text \<open>A library with one idle device, for the examples.\<close>

definition demoCn :: "unit cndev_lib" where
  "demoCn =
     \<lparr>cndevInit = (\<lambda>_. 0),
      cndevReleaseLib = (\<lambda>_. 0),
      cndevGetErrorString = (\<lambda>_. ''fault''),
      cndevGetArmOsMemoryUsage = (\<lambda>_ _ _. (0, (0, 0))),
      cndevGetClusterCount = (\<lambda>_ _ _. (0, 0)),
      cndevGetCoreCount = (\<lambda>_ _ _. (0, 0)),
      cndevGetDeviceCount = (\<lambda>_ _. (0, 1)),
      cndevGetDeviceCPUUtilization = (\<lambda>_ _ _. (0, (0, 0, []))),
      cndevGetCRCInfo = (\<lambda>_ _ _. (0, (0, 0))),
      cndevGetCurrentPCIInfo = (\<lambda>_ _ _. (0, (0, 0))),
      cndevGetDDRInfo = (\<lambda>_ _ _. (0, (0, 0, 0))),
      cndevGetECCInfo = (\<lambda>_ _ _. (0, \<lparr>oneBitError = 0, multipleOneError = 0, multipleError = 0, multipleMultipleError = 0,
        correctedError = 0, uncorrectedError = 0, totalError = 0, addressForbiddenError = 0\<rparr>)),
      cndevGetFanSpeedInfo = (\<lambda>_ _ _. (0, 0)),
      cndevGetCardHealthState = (\<lambda>_ _ _. (0, 0)),
      cndevGetImageCodecUtilization = (\<lambda>_ _ _. (0, (0, []))),
      cndevGetMemoryUsage = (\<lambda>_ _ _. (0, (0, 0, 0, 0))),
      cndevGetMLULinkCapability = (\<lambda>_ _ _ _. (0, (0, 0))),
      cndevGetMLULinkCounter = (\<lambda>_ _ _ _. (0, \<lparr>cntrReadByte = 0, cntrReadPackage = 0, cntrWriteByte = 0, cntrWritePackage = 0, errReplay = 0,
        errFatal = 0, errEccDouble = 0, errCRC24 = 0, errCRC32 = 0, errCorrected = 0, errUncorrected = 0\<rparr>)),
      cndevGetMLULinkPortMode = (\<lambda>_ _ _ _. (0, 0)),
      cndevGetMLULinkPortNumber = (\<lambda>_ _. 0),
      cndevGetMLULinkSpeedInfo = (\<lambda>_ _ _ _. (0, (0, 0))),
      cndevGetMLULinkStatus = (\<lambda>_ _ _ _. (0, (0, 0))),
      cndevGetMLULinkVersion = (\<lambda>_ _ _ _. (0, (0, 0, 0))),
      cndevGetCardNameStringByDevId = (\<lambda>_ _. ''MLU270''),
      cndevGetNUMANodeIdByDevId = (\<lambda>_ _ _. (0, 0)),
      cndevGetPCIeInfo = (\<lambda>_ _ _. (0, \<lparr>subsystemId = 0, pciDeviceId = 0, vendor = 0, subsystemVendor = 0, pciDomain = 0, bus = 0,
        pciDevice = 0, pciFunction = 0, slotID = 0\<rparr>)),
      cndevGetPowerInfo = (\<lambda>_ _ _. (0, 0)),
      cndevGetProcessUtilization = (\<lambda>_ _ _ _. (0, 0, \<lambda>_. \<lparr>pid = 0, ipuUtil = 0, jpuUtil = 0, vpuDecUtil = 0, vpuEncUtil = 0, memUtil = 0\<rparr>)),
      cndevGetCardSN = (\<lambda>_ _ _. (0, 0)),
      cndevGetTemperatureInfo = (\<lambda>_ _ _. (0, (0, []))),
      cndevGetTinyCoreUtilization = (\<lambda>_ _ _. (0, (0, []))),
      cndevGetDeviceUtilizationInfo = (\<lambda>_ _ _. (0, (0, []))),
      cndevGetUUID = (\<lambda>_ _ _. (0, [])),
      cndevGetVersionInfo = (\<lambda>_ _ _. (0, (0, 0, 0, 0, 0, 0))),
      cndevGetCardVfState = (\<lambda>_ _ _. (0, 0)),
      cndevGetVideoCodecUtilization = (\<lambda>_ _ _. (0, (0, [])))\<rparr>"

end
