(* ===== verification/Gpu_Devices.thy ===== *)
theory Gpu_Devices
  imports Cndev
begin

text \<open>
  The accelerator back ends behind Go's interface \<open>GpuInfo\<close> (\<open>gpu/GpuInfo.go\<close>): Ascend
  (\<open>gpu/atlas/AtlasInfo.go\<close> over \<open>dcmi\<close> and \<open>dsmi\<close>), NVIDIA (\<open>gpu/nvidia/NvidiaInfo.go\<close>,
  with the parser of \<open>nvidia-smi\<close> output), Cambricon (\<open>gpu/mlu/MluInfo.go\<close>) and Sophgo
  (\<open>gpu/sophgo/SophgoInfo.go\<close>, \<open>bmctl\<close>), and the GPU self test of \<open>GpuCheckExecutor.go\<close>. The
  vendor libraries, the container engine and the number conversions of the package \<open>cast\<close> are
  parameters. A map of results is an association list; a run-time panic is a value, and
  \<open>recoverInfo\<close> is the deferred \<open>recover\<close> of a function with unnamed results, which turns it
  into an empty map without an error.
\<close>

section \<open>The interface\<close>

record InfoObj =
  Total :: u64
  Used :: u64
  GpuType :: string
  Model :: string
  GpuUtil :: u32
  MemUtil :: u32

datatype infoRes = IRet "(string, InfoObj) gomap" "string option" | IPanic

definition recoverInfo :: "infoRes \<Rightarrow> infoRes" where
  "recoverInfo r = (case r of IPanic \<Rightarrow> IRet [] None | IRet m e \<Rightarrow> IRet m e)"

text \<open>What the back ends read of an inspected container.\<close>

record containerView =
  ConfigEnv :: "string list"
  DevicePaths :: "string list"

text \<open>The first environment entry with the key decides; \<open>env[1]\<close> panics when it has no \<open>=\<close>.\<close>

fun visibleDevices :: "string \<Rightarrow> (string \<Rightarrow> string list) \<Rightarrow> string list \<Rightarrow> string list option" where
  "visibleDevices key f [] = Some []"
| "visibleDevices key f (v # vs) =
     (if contains v key
      then (case splitC CHR ''='' v of _ # x # _ \<Rightarrow> Some (f x) | _ \<Rightarrow> None)
      else visibleDevices key f vs)"

definition isDigitC :: "char \<Rightarrow> bool" where
  "isDigitC c \<longleftrightarrow> 48 \<le> (of_char c :: nat) \<and> (of_char c :: nat) \<le> 57"

text \<open>\<open>FindString\<close> of the expression of digits up to the end.\<close>

definition trailingDigits :: "string \<Rightarrow> string" where
  "trailingDigits s = rev (takeWhile isDigitC (rev s))"

definition tpuDevices :: "string list \<Rightarrow> string list" where
  "tpuDevices paths = map trailingDigits (filter (\<lambda>p. contains p ''/dev/bm-tpu'') paths)"

section \<open>Ascend\<close>

definition AtlasContainerDevices :: "(string \<Rightarrow> containerView option) \<Rightarrow> string \<Rightarrow> string list option" where
  "AtlasContainerDevices inspect containerID =
     (case inspect containerID of
        None \<Rightarrow> Some []
      | Some c \<Rightarrow> visibleDevices ''ASCEND_VISIBLE_DEVICES'' (splitC CHR '','') (ConfigEnv c))"

text \<open>The devices of one card; a missing chip description is dereferenced. The running index and
  the map so far, or a panic.\<close>

fun atlasCard :: "'d dcmi_lib \<Rightarrow> 'd \<Rightarrow> i32 \<Rightarrow> nat list \<Rightarrow> nat \<times> (string, InfoObj) gomap \<Rightarrow>
    (nat \<times> (string, InfoObj) gomap) option" where
  "atlasCard lib st carIndex [] (index, res) = Some (index, res)"
| "atlasCard lib st carIndex (d # ds) (index, res) =
     (case DcGetMemoryInfo lib st carIndex (of_nat d) of
        (m, Some e) \<Rightarrow> atlasCard lib st carIndex ds (index, res)
      | (None, None) \<Rightarrow> None
      | (Some memoryInfo, None) \<Rightarrow>
          (let coreRate = fst (DcGetDeviceUtilizationRate lib st carIndex (of_nat d) 2) in
           case fst (DcGetChipInfo lib st carIndex (of_nat d)) of
             None \<Rightarrow> None
           | Some info \<Rightarrow>
               atlasCard lib st carIndex ds
                 (index + 1,
                  gm_set (showNat index)
                    \<lparr>Total = MemorySize memoryInfo * 1000000,
                     Used = (MemorySize memoryInfo - MemoryAvailable memoryInfo) * 1000000,
                     GpuType = ''NPU'', Model = ChipName info, GpuUtil = coreRate,
                     MemUtil = Utilization memoryInfo\<rparr> res)))"

fun atlasCards :: "'d dcmi_lib \<Rightarrow> 'd \<Rightarrow> i32 list \<Rightarrow> nat \<times> (string, InfoObj) gomap \<Rightarrow>
    (nat \<times> (string, InfoObj) gomap) option" where
  "atlasCards lib st [] acc = Some acc"
| "atlasCards lib st (carIndex # cs) acc =
     (let deviceIdMax = fst (DcGetDeviceNumInCard lib st carIndex) in
      case atlasCard lib st carIndex [0..<nat (sint deviceIdMax)] acc of
        None \<Rightarrow> None | Some acc' \<Rightarrow> atlasCards lib st cs acc')"

text \<open>Error messages are kept to their fixed part.\<close>

definition showErr :: "dcerr \<Rightarrow> string" where
  "showErr e = ''get device count failed''"

definition atlasDcmi :: "'d dcmi_lib \<Rightarrow> 'd \<Rightarrow> infoRes" where
  "atlasDcmi lib st =
     (case DcGetDeviceCount lib st of (deviceCount, r) \<Rightarrow>
        if r = None \<and> sint deviceCount > 0 then
          (case atlasCards lib st (snd (fst (DcGetCardList lib st))) (0, []) of
             None \<Rightarrow> IPanic | Some (_, res) \<Rightarrow> IRet res None)
        else IRet [] (map_option showErr r))"

subsection \<open>The older interface\<close>

record AtlasDevInfo =
  DTotal :: u64
  DUsed :: u64
  DCoreRate :: u32
  DChipType :: string
  DChipName :: string

text \<open>\<open>dsmi_list_device\<close> fills a list of the announced length; a memory query answers with a code,
  the utilisation and the size.\<close>

record dsmi_lib =
  dsmi_get_device_count :: "i32 \<times> u32"
  dsmi_list_device :: "nat \<Rightarrow> i32 \<times> i32 list"
  dsmi_get_memory_info :: "i32 \<Rightarrow> i32 \<times> u32 \<times> u64"
  dsmi_get_device_utilization_rate :: "i32 \<Rightarrow> i32 \<Rightarrow> u32"
  dsmi_get_chip_info :: "i32 \<Rightarrow> string \<times> string"

text \<open>\<open>C.long(utiliza) * C.long(memory_size) * C.long(1000*1000) / 100\<close> on 64-bit integers,
  division truncating.\<close>

definition goQuot :: "int \<Rightarrow> int \<Rightarrow> int" where
  "goQuot a b = sgn a * sgn b * (\<bar>a\<bar> div \<bar>b\<bar>)"

definition dsmiUsed :: "u32 \<Rightarrow> u64 \<Rightarrow> u64" where
  "dsmiUsed utiliza memory_size =
     word_of_int (goQuot (wrap64 (wrap64 (uint utiliza * sint memory_size) * 1000000)) 100)"

definition dsmiInfo :: "dsmi_lib \<Rightarrow> i32 \<Rightarrow> AtlasDevInfo option" where
  "dsmiInfo lib v =
     (case dsmi_get_memory_info lib v of (ret, utiliza, memory_size) \<Rightarrow>
        if ret = 0 then
          Some \<lparr>DTotal = memory_size * 1000000, DUsed = dsmiUsed utiliza memory_size,
                DCoreRate = dsmi_get_device_utilization_rate lib v 2,
                DChipType = fst (dsmi_get_chip_info lib v), DChipName = snd (dsmi_get_chip_info lib v)\<rparr>
        else None)"

text \<open>\<open>&deviceList[0]\<close> panics when there is no device.\<close>

datatype dsmiRes = DRet "(i32, AtlasDevInfo) gomap" "string option" | DPanic

definition AllDeviceInfo :: "dsmi_lib \<Rightarrow> dsmiRes" where
  "AllDeviceInfo lib =
     (case dsmi_get_device_count lib of (ret, deviceCount) \<Rightarrow>
        if ret \<noteq> 0 then DRet [] (Some ''device count=0'')
        else if deviceCount = 0 then DPanic
        else case dsmi_list_device lib (unat deviceCount) of (ret2, deviceList) \<Rightarrow>
          if ret2 = 0 then
            DRet (fold (\<lambda>v infos. case dsmiInfo lib v of None \<Rightarrow> infos | Some i \<Rightarrow> gm_set v i infos)
                    (cArray (unat deviceCount) deviceList) []) None
          else DRet [] (Some ''dsmi_list_device error''))"

definition GetDeviceInfoByDeviceIds :: "dsmi_lib \<Rightarrow> i32 list \<Rightarrow> (i32, AtlasDevInfo) gomap" where
  "GetDeviceInfoByDeviceIds lib ids =
     fold (\<lambda>v infos.
        let (_, utiliza, memory_size) = dsmi_get_memory_info lib v
        in gm_set v \<lparr>DTotal = memory_size,
             DUsed = word_of_int (goQuot (wrap64 (uint utiliza * sint memory_size)) 100),
             DCoreRate = dsmi_get_device_utilization_rate lib v 2, DChipType = [], DChipName = []\<rparr> infos) ids []"

definition dsmiGetDeviceCount :: "dsmi_lib \<Rightarrow> u64 \<times> string option" where
  "dsmiGetDeviceCount lib =
     (case dsmi_get_device_count lib of (ret, n) \<Rightarrow>
        if ret = 0 then (ucast n, None) else (ucast n, Some ''dsmi_list_device error''))"

definition atlasDsmi :: "dsmi_lib \<Rightarrow> infoRes" where
  "atlasDsmi lib =
     (case AllDeviceInfo lib of
        DPanic \<Rightarrow> IPanic
      | DRet allInfo err \<Rightarrow>
          if err \<noteq> None then
            (if \<exists>(k, i) \<in> set allInfo. DTotal i = 0 then IPanic
             else IRet (map (\<lambda>(k, i). (showInt (sint k),
                    \<lparr>Total = DTotal i, Used = DUsed i, GpuType = [], Model = [], GpuUtil = DCoreRate i,
                     MemUtil = ucast (DUsed i div DTotal i)\<rparr>)) allInfo) None)
          else IRet [] err)"

text \<open>\<open>AtlasInfo.InfoAll\<close> and \<open>Info\<close>: the first recovers from a panic with unnamed results, the
  second keeps the devices asked for.\<close>

definition AtlasInfoAll :: "'d dcmi_lib option \<Rightarrow> 'd \<Rightarrow> dsmi_lib \<Rightarrow> infoRes" where
  "AtlasInfoAll dcmi st ds =
     recoverInfo (case dcmi of Some lib \<Rightarrow> atlasDcmi lib st | None \<Rightarrow> atlasDsmi ds)"

definition keepRequested :: "string list \<Rightarrow> (string, InfoObj) gomap \<Rightarrow> (string, InfoObj) gomap" where
  "keepRequested indexs m = fold (\<lambda>(s, obj) res. if s \<in> set indexs then gm_set s obj res else res) m []"

definition AtlasInfo :: "'d dcmi_lib option \<Rightarrow> 'd \<Rightarrow> dsmi_lib \<Rightarrow> string list \<Rightarrow> infoRes" where
  "AtlasInfo dcmi st ds indexs =
     (case AtlasInfoAll dcmi st ds of
        IPanic \<Rightarrow> IRet [] (Some ''Info error recover'')
      | IRet m (Some e) \<Rightarrow> IRet [] (Some e)
      | IRet m None \<Rightarrow> IRet (keepRequested indexs m) None)"

section \<open>NVIDIA\<close>

text \<open>The management library answers for a device handle, or for the nil handle. \<open>smi\<close> is the
  output of the command line tool for a device, if it ends without an error.\<close>

record nvml =
  DeviceGetCount :: int
  DeviceGetHandleByUUID :: "string \<Rightarrow> nat option"
  DeviceGetHandleByIndex :: "int \<Rightarrow> nat option"
  DeviceGetMemoryInfo :: "nat option \<Rightarrow> u64 \<times> u64"
  DeviceGetName :: "nat option \<Rightarrow> string"
  DeviceGetUtilizationRates :: "nat option \<Rightarrow> u32"
  smi :: "string \<Rightarrow> string option"
  toUint64 :: "string \<Rightarrow> u64"
  toUint32 :: "string \<Rightarrow> u32"

definition NvidiaContainerDevices :: "nvml \<Rightarrow> (string \<Rightarrow> containerView option) \<Rightarrow> string \<Rightarrow> string list option" where
  "NvidiaContainerDevices nv inspect containerID =
     (case inspect containerID of
        None \<Rightarrow> Some []
      | Some c \<Rightarrow>
          (case visibleDevices ''NVIDIA_VISIBLE_DEVICE''
                  (\<lambda>x. if x = ''all'' then map showNat [0..<nat (DeviceGetCount nv)] else splitC CHR '','' x)
                  (ConfigEnv c) of
             None \<Rightarrow> Some [] | Some ids \<Rightarrow> Some ids))"

text \<open>The first group of the expression of digits in front of a fixed text.\<close>

fun findNum :: "string \<Rightarrow> string \<Rightarrow> string option" where
  "findNum suf [] = None"
| "findNum suf (c # cs) =
     (let ds = takeWhile isDigitC (c # cs)
      in if isDigitC c \<and> hasPrefix (drop (length ds) (c # cs)) suf then Some ds else findNum suf cs)"

text \<open>The positions of the used and total memory and of the utilisation among the fields.\<close>

fun scanFields :: "nat \<Rightarrow> string list \<Rightarrow> nat \<times> nat \<times> nat \<Rightarrow> nat \<times> nat \<times> nat" where
  "scanFields i [] r = r"
| "scanFields i (val # vs) (usedIndex, totalIndex, gpuUtilIndex) =
     (let (u, t) = (if contains val ''MiB''
                    then (if usedIndex = 0 then (i, totalIndex) else (usedIndex, i))
                    else (usedIndex, totalIndex));
          g = (if i > 0 \<and> contains val ''%'' then i else gpuUtilIndex)
      in scanFields (i + 1) vs (u, t, g))"

definition memUtilOf :: "rat \<Rightarrow> rat \<Rightarrow> u32" where
  "memUtilOf used tot = f_to_u32 (percent64 used tot)"

definition smiObj :: "u64 \<Rightarrow> u64 \<Rightarrow> u32 \<Rightarrow> string \<Rightarrow> InfoObj" where
  "smiObj used memorySize utilRate model =
     \<lparr>Total = memorySize * 1024 * 1024, Used = used * 1024 * 1024, GpuType = ''GPU'', Model = model,
      GpuUtil = utilRate,
      MemUtil = (if memorySize > 0
                 then memUtilOf (f64 (f64 (f64 (of_nat (unat used)) * 1024) * 1024))
                        (f64 (f64 (f64 (of_nat (unat memorySize)) * 1024) * 1024)) else 0)\<rparr>"

text \<open>The two lines after the separator hold the name and the readings; every index may be out of
  range.\<close>

definition GetInfoByString :: "nvml \<Rightarrow> string \<Rightarrow> InfoObj option" where
  "GetInfoByString nv info =
     (case dropWhile (\<lambda>l. \<not> contains l ''===+==='') (splitC CHR 0x0A info) of
        [] \<Rightarrow> Some (smiObj 0 0 0 ''nvidia gpu'')
      | _ # l1 # rest \<Rightarrow>
          (let l1m = splitStr ''  '' [] l1
           in if length l1m \<le> 2 then None
              else case rest of
                [] \<Rightarrow> None
              | l2 # _ \<Rightarrow>
                  let s = Go_Prelude.fields l2; (u, t, g) = scanFields 0 s (0, 0, 0)
                  in if s = [] then None
                     else Some (smiObj
                       (case findNum ''MiB'' (s ! u) of Some m \<Rightarrow> toUint64 nv m | None \<Rightarrow> 0)
                       (case findNum ''MiB'' (s ! t) of Some m \<Rightarrow> toUint64 nv m | None \<Rightarrow> 0)
                       (case findNum ''%'' (s ! g) of Some m \<Rightarrow> toUint32 nv m | None \<Rightarrow> 0) (l1m ! 2)))
      | [_] \<Rightarrow> None)"

datatype smiRes = SmiInfo InfoObj | SmiError | SmiPanic

definition Nvidia_smi :: "nvml \<Rightarrow> string \<Rightarrow> smiRes" where
  "Nvidia_smi nv uuid =
     (case smi nv uuid of
        None \<Rightarrow> SmiError
      | Some out \<Rightarrow> (case GetInfoByString nv out of None \<Rightarrow> SmiPanic | Some i \<Rightarrow> SmiInfo i))"

text \<open>\<open>strconv.ParseInt(v, 10, 8)\<close> with its error ignored: zero on bad syntax, the nearest bound out
  of range.\<close>

definition digitsVal :: "string \<Rightarrow> int" where
  "digitsVal s = fold (\<lambda>c n. n * 10 + (of_char c - 48)) s 0"

definition parseInt8 :: "string \<Rightarrow> int" where
  "parseInt8 v =
     (let neg = hasPrefix v ''-''; ds = (if neg \<or> hasPrefix v ''+'' then tl v else v)
      in if ds = [] \<or> \<not> list_all isDigitC ds then 0
         else if neg then max (- 128) (- digitsVal ds) else min 127 (digitsVal ds))"

definition nvObj :: "nvml \<Rightarrow> nat option \<Rightarrow> InfoObj" where
  "nvObj nv devH =
     (let (tot, used) = DeviceGetMemoryInfo nv devH
      in \<lparr>Total = tot, Used = used, GpuType = ''GPU'', Model = DeviceGetName nv devH,
          GpuUtil = DeviceGetUtilizationRates nv devH,
          MemUtil = (if tot > 0 then memUtilOf (f64 (of_nat (unat used))) (f64 (of_nat (unat tot))) else 0)\<rparr>)"

text \<open>The loop of \<open>Info\<close>, with the cache of handles. In the branch of a UUID the handle is assigned
  to a variable of the inner block, so the readings are those of the nil handle.\<close>

type_synonym gpuDeviceMap = "(string, nat) gomap"

fun nvLoop :: "nvml \<Rightarrow> string list \<Rightarrow> gpuDeviceMap \<Rightarrow> (string, InfoObj) gomap \<Rightarrow> infoRes \<times> gpuDeviceMap" where
  "nvLoop nv [] cache res = (IRet res None, cache)"
| "nvLoop nv (v # vs) cache res =
     (case gm_get cache v of
        Some h \<Rightarrow> nvLoop nv vs cache (gm_set v (nvObj nv (Some h)) res)
      | None \<Rightarrow>
          if hasPrefix v ''GPU'' then
            (case DeviceGetHandleByUUID nv (trimSpace v) of
               Some h \<Rightarrow> nvLoop nv vs (gm_set v h cache) (gm_set v (nvObj nv None) res)
             | None \<Rightarrow>
                 (case Nvidia_smi nv v of
                    SmiInfo i \<Rightarrow> nvLoop nv vs cache (gm_set v i res)
                  | SmiError \<Rightarrow> (IRet res (Some ''get deviceHandle error by uuid''), cache)
                  | SmiPanic \<Rightarrow> (IPanic, cache)))
          else
            (case DeviceGetHandleByIndex nv (parseInt8 v) of
               Some h \<Rightarrow> nvLoop nv vs (gm_set v h cache) (gm_set v (nvObj nv (Some h)) res)
             | None \<Rightarrow> (IRet res (Some ''get deviceHandle error''), cache)))"

definition NvidiaInfo :: "nvml \<Rightarrow> gpuDeviceMap \<Rightarrow> string list \<Rightarrow> infoRes \<times> gpuDeviceMap" where
  "NvidiaInfo nv cache indexs =
     (case nvLoop nv indexs cache [] of (r, cache') \<Rightarrow> (recoverInfo r, cache'))"

definition NvidiaInfoAll :: "nvml \<Rightarrow> gpuDeviceMap \<Rightarrow> infoRes \<times> gpuDeviceMap" where
  "NvidiaInfoAll nv cache = NvidiaInfo nv cache (map showNat [0..<nat (DeviceGetCount nv)])"

text \<open>The path of the command line tool: the last of the four places where it exists.\<close>

definition nvidiasmipath :: "(string \<Rightarrow> bool) \<Rightarrow> string" where
  "nvidiasmipath exists =
     fold (\<lambda>p path. if exists p then p else path)
       [''/host/usr/bin/nvidia-smi'', ''/host/usr/local/bin/nvidia-smi'', ''/usr/bin/nvidia-smi'',
        ''/usr/local/bin/nvidia-smi''] []"

section \<open>Cambricon and Sophgo\<close>

text \<open>\<open>uint32((used / total) * 100)\<close> on 64-bit integers; a zero total panics. \<open>toUint\<close> is the
  conversion of an index by the package \<open>cast\<close>.\<close>

definition intUtil :: "int \<Rightarrow> int \<Rightarrow> u32 option" where
  "intUtil used tot = (if tot = 0 then None else Some (word_of_int (wrap64 (goQuot used tot * 100))))"

definition mib :: "int \<Rightarrow> u64" where
  "mib x = word_of_int (x * 1024 * 1024)"

text \<open>The entry of one device, or nothing when a query fails; a panic of the client or a zero total
  ends the whole call.\<close>

datatype mluEntry = MluObj InfoObj | MluSkip | MluPanic

definition mluDevice :: "'d cndev_lib \<Rightarrow> 'd \<Rightarrow> u64 \<Rightarrow> string \<Rightarrow> string \<Rightarrow> mluEntry" where
  "mluDevice lib st idx gpuType model =
     (case GetDeviceMemory lib st idx of
        CnPanic \<Rightarrow> MluPanic
      | CnRet (pyUsed, pyTotal, _, _) err \<Rightarrow>
          (case GetDeviceUtil lib st idx of
             CnPanic \<Rightarrow> MluPanic
           | CnRet (avgUtil, _) err2 \<Rightarrow>
               if err = None \<and> err2 = None then
                 (case intUtil pyUsed pyTotal of
                    None \<Rightarrow> MluPanic
                  | Some mu \<Rightarrow> MluObj \<lparr>Total = mib pyTotal, Used = mib pyUsed, GpuType = gpuType, Model = model,
                                      GpuUtil = word_of_int avgUtil, MemUtil = mu\<rparr>)
               else MluSkip))"

fun mluLoop :: "(string \<times> mluEntry) list \<Rightarrow> (string, InfoObj) gomap \<Rightarrow> infoRes" where
  "mluLoop [] res = IRet res None"
| "mluLoop ((v, e) # vs) res =
     (case e of MluPanic \<Rightarrow> IPanic | MluSkip \<Rightarrow> mluLoop vs res | MluObj i \<Rightarrow> mluLoop vs (gm_set v i res))"

definition MluInfo :: "(string \<Rightarrow> u64) \<Rightarrow> 'd cndev_lib \<Rightarrow> 'd \<Rightarrow> string list \<Rightarrow> infoRes" where
  "MluInfo toUint lib st indexs =
     mluLoop (map (\<lambda>v. (v, mluDevice lib st (toUint v) ''MLU'' (GetDeviceModel lib st (toUint v)))) indexs) []"

definition MluInfoAll :: "'d cndev_lib \<Rightarrow> 'd \<Rightarrow> infoRes" where
  "MluInfoAll lib st =
     (case GetDeviceCount lib st of
        CnRet deviceCount None \<Rightarrow>
          mluLoop (map (\<lambda>i. (showNat i, mluDevice lib st (of_nat i) [] [])) [0..<unat deviceCount]) []
      | _ \<Rightarrow> IRet [] None)"

definition MluContainerDevices :: "(string \<Rightarrow> containerView option) \<Rightarrow> string \<Rightarrow> string list option" where
  "MluContainerDevices inspect containerID =
     (case inspect containerID of None \<Rightarrow> Some [] | Some c \<Rightarrow> Some (tpuDevices (DevicePaths c)))"

record SophDeviceInfo =
  DevId :: i32
  ChipId :: i32
  MemUsed :: int
  MemTotal :: int
  TpuUtil :: i32

text \<open>The control device: the number of devices, unless the call fails, and the attributes the
  kernel leaves in the structure for a device number.\<close>

record bmctl =
  bmDevCnt :: "int option"
  bmSmiAttr :: "i32 \<Rightarrow> i32 \<times> i32 \<times> i32 \<times> i32 \<times> i32"

definition GetAllDeviceInfo :: "bmctl \<Rightarrow> (int, SophDeviceInfo) gomap" where
  "GetAllDeviceInfo bm =
     (case bmDevCnt bm of
        None \<Rightarrow> []
      | Some num \<Rightarrow>
          map (\<lambda>i. (int i,
            (let (dev_id, chip_id, mem_used, mem_total, tpu_util) = bmSmiAttr bm (of_nat i)
             in \<lparr>DevId = dev_id, ChipId = chip_id, MemUsed = sint mem_used * 1048576,
                 MemTotal = sint mem_total * 1048576, TpuUtil = tpu_util\<rparr>))) [0..<nat num])"

definition InitCtl :: "bool \<Rightarrow> string option" where
  "InitCtl opens = (if opens then None else Some ''device open failed'')"

definition SophgoInfo :: "bmctl \<Rightarrow> string list \<Rightarrow> infoRes" where
  "SophgoInfo bm indexs =
     IRet (fold (\<lambda>(_, v) res.
        let k = showInt (sint (DevId v))
        in if k \<in> set indexs
           then gm_set k \<lparr>Total = 0, Used = 0, GpuType = ''TPU'', Model = ''BM1684'',
                          GpuUtil = TpuUtil v, MemUtil = 0\<rparr> res
           else res) (GetAllDeviceInfo bm) []) None"

fun sophgoAll :: "SophDeviceInfo list \<Rightarrow> (string, InfoObj) gomap \<Rightarrow> infoRes" where
  "sophgoAll [] res = IRet res None"
| "sophgoAll (v # vs) res =
     (case intUtil (MemUsed v) (MemTotal v) of
        None \<Rightarrow> IPanic
      | Some mu \<Rightarrow> sophgoAll vs (gm_set (showInt (sint (DevId v)))
          \<lparr>Total = word_of_int (MemTotal v), Used = word_of_int (MemUsed v), GpuType = [], Model = [],
           GpuUtil = TpuUtil v, MemUtil = mu\<rparr> res))"

definition SophgoInfoAll :: "bmctl \<Rightarrow> infoRes" where
  "SophgoInfoAll bm = sophgoAll (map snd (GetAllDeviceInfo bm)) []"

definition SophgoContainerDevices :: "(string \<Rightarrow> containerView option) \<Rightarrow> string \<Rightarrow> string list option" where
  "SophgoContainerDevices inspect containerID =
     (case inspect containerID of None \<Rightarrow> Some [] | Some c \<Rightarrow> Some (tpuDevices (DevicePaths c)))"

section \<open>Choosing the back end\<close>

datatype backend = Atlas bool | Nvidia | Mlu | Sophgo

text \<open>The registered back end of \<open>gpu/GpuInfo.go\<close>, if any.\<close>

definition SetExecutor :: "'e \<Rightarrow> 'e option \<Rightarrow> 'e option" where
  "SetExecutor e executor = Some e"

definition GetExecutor :: "'e option \<Rightarrow> string + 'e" where
  "GetExecutor executor = (case executor of None \<Rightarrow> Inl ''not hava executor'' | Some e \<Rightarrow> Inr e)"

lemma GetExecutor_simps [simp]:
  "GetExecutor None = Inl ''not hava executor''" "GetExecutor (Some e) = Inr e"
  by (simp_all add: GetExecutor_def)

text \<open>Each package's \<open>init\<close> registers itself when its library answers, replacing the one before;
  the Ascend one falls back to the older library and gives up (recovers) when that is missing too.\<close>

definition atlasInit :: "dcerr option \<Rightarrow> bool \<Rightarrow> backend option \<Rightarrow> backend option" where
  "atlasInit dcInit dsmiLoads ex =
     (if dcInit = None then SetExecutor (Atlas True) ex else if dsmiLoads then SetExecutor (Atlas False) ex else ex)"

definition nvidiaInit :: "bool \<Rightarrow> backend option \<Rightarrow> backend option" where
  "nvidiaInit nvmlOk ex = (if nvmlOk then SetExecutor Nvidia ex else ex)"

definition sophgoInit :: "bool \<Rightarrow> backend option \<Rightarrow> backend option" where
  "sophgoInit opens ex = (if InitCtl opens = None then SetExecutor Sophgo ex else ex)"

definition mluInit :: "string option \<Rightarrow> backend option \<Rightarrow> backend option" where
  "mluInit initErr ex = (if initErr = None then SetExecutor Mlu ex else ex)"

section \<open>The self test\<close>

text \<open>\<open>checkGpuExec\<close> holds the running command. The command ends well, with an exit code, or
  cannot be run; only lines of its output ended by a newline are looked at.\<close>

datatype cmdEnd = CmdOk | CmdExit int | CmdFailed

definition CheckGpu :: "bool \<Rightarrow> string \<Rightarrow> cmdEnd \<Rightarrow> (int \<times> string option) \<times> bool" where
  "CheckGpu running out ended =
     (if running then ((5, Some ''CheckGpu started''), running)
      else let st = (case ended of CmdExit c \<Rightarrow> c | _ \<Rightarrow> 0);
               lines = map (\<lambda>l. l @ [CHR 0x0A]) (butlast (splitC CHR 0x0A out))
           in case find (\<lambda>l. contains l ''error'') lines of
                Some l \<Rightarrow> ((st, Some l), True)
              | None \<Rightarrow> ((st, case ended of CmdOk \<Rightarrow> None | _ \<Rightarrow> Some ''exit status''), False))"

section \<open>Lemmas\<close>

lemma digitsVal_append: "digitsVal (s @ [c]) = digitsVal s * 10 + (of_char c - 48)"
  by (simp add: digitsVal_def)

lemma digitsVal_showNat: "digitsVal (showNat n) = int n"
proof (induction n rule: showNat.induct)
  case (1 n)
  have digit: "(of_char (digitC d) :: int) - 48 = int d" if "d < 10" for d
  proof -
    have "int (of_char (digitC d) :: nat) = of_char (digitC d)" by (rule of_nat_of_char)
    then show ?thesis using that by (metis of_char_digitC add_diff_cancel_left' of_nat_add of_nat_numeral)
  qed
  show ?case
  proof (cases "n < 10")
    case True
    then show ?thesis using digit [of n] by (subst showNat.simps) (simp add: digitsVal_def)
  next
    case False
    have "int (n div 10) * 10 + int (n mod 10) = int n"
      by (metis div_mult_mod_eq of_nat_add of_nat_mult of_nat_numeral)
    moreover have "n mod 10 < 10" by simp
    ultimately show ?thesis using False 1 digit [of "n mod 10"]
      by (subst showNat.simps) (simp add: digitsVal_append)
  qed
qed

lemma showNat_inject: "showNat m = showNat n \<longleftrightarrow> m = n"
  by (metis digitsVal_showNat of_nat_eq_iff)

lemma isDigitC_digitC [simp]: "d < 10 \<Longrightarrow> isDigitC (digitC d)"
  by (simp add: isDigitC_def)

lemma showNat_isDigit: "list_all isDigitC (showNat n)"
  using showNat_digits [of n] by (auto simp: list_all_iff)

text \<open>An index printed in decimal is read back, up to the largest 8-bit number.\<close>

lemma parseInt8_showNat: "n \<le> 127 \<Longrightarrow> parseInt8 (showNat n) = int n"
proof -
  assume n: "n \<le> 127"
  obtain c cs where c: "showNat n = c # cs" by (cases "showNat n") simp_all
  have "isDigitC c" using showNat_isDigit [of n] c by simp
  then have "c \<noteq> CHR ''-''" "c \<noteq> CHR ''+''" by (auto simp: isDigitC_def)
  then show ?thesis
    using n c showNat_isDigit [of n] digitsVal_showNat [of n] by (simp add: parseInt8_def Let_def)
qed

lemma findNum_showNat:
  assumes "suf \<noteq> []" and "\<not> isDigitC (hd suf)"
  shows "findNum suf (showNat n @ suf @ t) = Some (showNat n)"
proof -
  obtain c cs where c: "showNat n = c # cs" by (cases "showNat n") simp_all
  obtain x xs where x: "suf = x # xs" using assms(1) by (cases suf) simp_all
  have "takeWhile isDigitC (showNat n @ suf @ t) = showNat n"
    using showNat_isDigit [of n] assms(2) x by (simp add: list_all_iff takeWhile_append)
  moreover have "isDigitC c" using showNat_isDigit [of n] c by simp
  ultimately show ?thesis using c by (simp add: Let_def del: takeWhile.simps)
qed

subsection \<open>Utilisation\<close>

lemma f64_of_nat_mono: "m \<le> n \<Longrightarrow> f64 (of_nat m) \<le> f64 (of_nat n)"
  by (simp add: f64_def roundTo_mono)

lemma f64_pos: "0 < n \<Longrightarrow> 0 < f64 (of_nat n)"
proof -
  assume "0 < n"
  then have "f64 (of_nat 1) \<le> f64 (of_nat n)" by (intro f64_of_nat_mono) simp
  moreover have "f64 (of_nat 1) = 1" using roundTo_of_int [of 1 53] by (simp add: f64_def)
  ultimately show ?thesis by simp
qed

lemma percent64_accurate:
  assumes "0 \<le> a" and "a \<le> b" and "0 < b"
  shows "\<bar>percent64 a b - 100 * a / b\<bar> \<le> 1 / 1000"
proof -
  let ?x = "a / b" and ?r = "f64 (a / b)"
  have x: "0 \<le> ?x" "?x \<le> 1" using assms by simp_all
  have e1: "\<bar>?r - ?x\<bar> \<le> ?x / 2 ^ 53" using roundTo_error [of 53 ?x] x by (simp add: f64_def)
  have r: "0 \<le> ?r" "?r \<le> 1"
    using roundTo_nonneg [OF x(1)] roundTo_mono [OF x, of 53] roundTo_of_int [of 1 53] by (simp_all add: f64_def)
  have e2: "\<bar>percent64 a b - ?r * 100\<bar> \<le> (?r * 100) / 2 ^ 53"
    using roundTo_error [of 53 "?r * 100"] r by (simp add: percent64_def f64_def)
  have "percent64 a b - 100 * ?x = (percent64 a b - ?r * 100) + 100 * (?r - ?x)" by (simp add: algebra_simps)
  then have "\<bar>percent64 a b - 100 * ?x\<bar> \<le> \<bar>percent64 a b - ?r * 100\<bar> + \<bar>100 * (?r - ?x)\<bar>"
    by (simp only: abs_triangle_ineq)
  also have "\<bar>100 * (?r - ?x)\<bar> = 100 * \<bar>?r - ?x\<bar>" by (simp only: abs_mult)
  also have "\<bar>percent64 a b - ?r * 100\<bar> + 100 * \<bar>?r - ?x\<bar> \<le> 100 / 2 ^ 53 + 100 * (1 / 2 ^ 53)"
  proof (intro add_mono mult_left_mono)
    show "\<bar>percent64 a b - ?r * 100\<bar> \<le> 100 / 2 ^ 53"
    proof -
      have "?r * 100 / 2 ^ 53 \<le> 100 / 2 ^ 53" using r(2) by (intro divide_right_mono) simp_all
      with e2 show ?thesis by (rule order_trans)
    qed
    have "?x / 2 ^ 53 \<le> 1 / 2 ^ 53" using x(2) by (intro divide_right_mono) simp_all
    with e1 show "\<bar>?r - ?x\<bar> \<le> 1 / 2 ^ 53" by (rule order_trans)
  qed simp
  also have "\<dots> \<le> 1 / 1000" by simp
  finally show ?thesis by simp
qed

lemma memUtilOf_bounds:
  assumes "0 \<le> a" and "a \<le> b" and "0 < b"
  shows "unat (memUtilOf a b) \<le> 100" and "\<bar>of_nat (unat (memUtilOf a b)) - 100 * a / b\<bar> \<le> 1001 / 1000"
proof -
  note p = percent64_bounds [OF assms]
  have "0 \<le> \<lfloor>percent64 a b\<rfloor>" "\<lfloor>percent64 a b\<rfloor> \<le> 100" using p by (simp_all add: floor_le_iff)
  then have "uint (memUtilOf a b) = \<lfloor>percent64 a b\<rfloor>"
    by (simp add: memUtilOf_def f_to_u32_def uint_word_of_int)
  then have u: "int (unat (memUtilOf a b)) = \<lfloor>percent64 a b\<rfloor>" by simp
  then show "unat (memUtilOf a b) \<le> 100" using \<open>\<lfloor>percent64 a b\<rfloor> \<le> 100\<close> by linarith
  have "(of_nat (unat (memUtilOf a b)) :: rat) = of_int \<lfloor>percent64 a b\<rfloor>" by (metis u of_int_of_nat_eq)
  moreover have "of_int \<lfloor>percent64 a b\<rfloor> \<le> percent64 a b" "percent64 a b < of_int \<lfloor>percent64 a b\<rfloor> + 1"
    by linarith+
  ultimately show "\<bar>of_nat (unat (memUtilOf a b)) - 100 * a / b\<bar> \<le> 1001 / 1000"
    using percent64_accurate [OF assms] by linarith
qed

subsection \<open>Ascend devices\<close>

text \<open>The devices whose memory can be read, in the order of the cards.\<close>

definition readableDevices :: "'d dcmi_lib \<Rightarrow> 'd \<Rightarrow> i32 list \<Rightarrow> (i32 \<times> nat) list" where
  "readableDevices lib st cards =
     concat (map (\<lambda>c. map (Pair c)
       (filter (\<lambda>d. snd (DcGetMemoryInfo lib st c (of_nat d)) = None) [0..<devicesOfCard lib st c])) cards)"

definition atlasObj :: "'d dcmi_lib \<Rightarrow> 'd \<Rightarrow> i32 \<times> nat \<Rightarrow> InfoObj" where
  "atlasObj lib st = (\<lambda>(c, d).
     let m = the (fst (DcGetMemoryInfo lib st c (of_nat d)))
     in \<lparr>Total = MemorySize m * 1000000, Used = (MemorySize m - MemoryAvailable m) * 1000000, GpuType = ''NPU'',
         Model = ChipName (the (fst (DcGetChipInfo lib st c (of_nat d)))),
         GpuUtil = fst (DcGetDeviceUtilizationRate lib st c (of_nat d) 2), MemUtil = Utilization m\<rparr>)"

definition hasChip :: "'d dcmi_lib \<Rightarrow> 'd \<Rightarrow> i32 \<times> nat \<Rightarrow> bool" where
  "hasChip lib st = (\<lambda>(c, d). snd (DcGetChipInfo lib st c (of_nat d)) = None)"

definition numbered :: "('a \<Rightarrow> InfoObj) \<Rightarrow> 'a list \<Rightarrow> string \<Rightarrow> InfoObj option" where
  "numbered f xs = map_of (map (\<lambda>i. (showNat i, f (xs ! i))) [0..<length xs])"

lemma numbered_get: "numbered f xs (showNat i) = (if i < length xs then Some (f (xs ! i)) else None)"
proof -
  have inj: "distinct (map fst (map (\<lambda>i. (showNat i, f (xs ! i))) [0..<length xs]))"
    by (simp add: comp_def distinct_map inj_on_def showNat_inject)
  show ?thesis
  proof (cases "i < length xs")
    case True
    then have "(showNat i, f (xs ! i)) \<in> set (map (\<lambda>i. (showNat i, f (xs ! i))) [0..<length xs])" by simp
    from map_of_is_SomeI [OF inj this] True show ?thesis by (simp add: numbered_def)
  next
    case False
    then show ?thesis by (auto simp: numbered_def map_of_eq_None_iff showNat_inject)
  qed
qed

lemma numbered_snoc: "numbered f (xs @ [x]) = (numbered f xs)(showNat (length xs) \<mapsto> f x)"
proof -
  have "map (\<lambda>i. (showNat i, f ((xs @ [x]) ! i))) [0..<length (xs @ [x])] =
      map (\<lambda>i. (showNat i, f (xs ! i))) [0..<length xs] @ [(showNat (length xs), f x)]"
    by (simp add: nth_append)
  then have "numbered f (xs @ [x]) = [showNat (length xs) \<mapsto> f x] ++ numbered f xs"
    by (simp only: numbered_def map_of_append) simp
  moreover have "numbered f xs (showNat (length xs)) = None" by (simp add: numbered_get)
  ultimately show ?thesis by (auto simp: fun_eq_iff map_add_def split: option.splits)
qed

lemma DcGetMemoryInfo_Some: "snd (DcGetMemoryInfo lib st c d) = None \<Longrightarrow> \<exists>m. DcGetMemoryInfo lib st c d = (Some m, None)"
  by (cases "DcGetMemoryInfo lib st c d") (auto simp: DcGetMemoryInfo_def dcQuery_eq_ok)

lemma DcGetChipInfo_cases:
  "if snd (DcGetChipInfo lib st c d) = None then \<exists>i. fst (DcGetChipInfo lib st c d) = Some i
   else fst (DcGetChipInfo lib st c d) = None"
proof (cases "snd (DcGetChipInfo lib st c d) = None")
  case True
  then have "fst (DcGetChipInfo lib st c d) = Some (chipOf (snd (dcmi_get_device_chip_info lib st c d)))"
    unfolding DcGetChipInfo_def by (rule dcQuery_value)
  then show ?thesis using True by simp
next
  case False
  then have "fst (DcGetChipInfo lib st c d) = None" unfolding DcGetChipInfo_def by (rule dcQuery_bad)
  then show ?thesis using False by simp
qed

lemma atlasCard_spec:
  assumes "gm_get res = numbered (atlasObj lib st) seen"
  shows "let ok = map (Pair c) (filter (\<lambda>d. snd (DcGetMemoryInfo lib st c (of_nat d)) = None) ds)
    in if \<forall>x \<in> set ok. hasChip lib st x
       then \<exists>res'. atlasCard lib st c ds (length seen, res) = Some (length (seen @ ok), res') \<and>
              gm_get res' = numbered (atlasObj lib st) (seen @ ok)
       else atlasCard lib st c ds (length seen, res) = None"
  using assms
proof (induction ds arbitrary: seen res)
  case (Cons d ds)
  show ?case
  proof (cases "snd (DcGetMemoryInfo lib st c (of_nat d)) = None")
    case False
    then obtain x e where xe: "DcGetMemoryInfo lib st c (of_nat d) = (x, Some e)"
      by (cases "DcGetMemoryInfo lib st c (of_nat d)") auto
    then have step: "atlasCard lib st c (d # ds) (length seen, res) = atlasCard lib st c ds (length seen, res)"
      by (cases x) simp_all
    have "filter (\<lambda>d. snd (DcGetMemoryInfo lib st c (of_nat d)) = None) (d # ds) =
        filter (\<lambda>d. snd (DcGetMemoryInfo lib st c (of_nat d)) = None) ds"
      using xe by simp
    then show ?thesis unfolding step by (simp only:) (rule Cons.IH [OF Cons.prems])
  next
    case True
    from DcGetMemoryInfo_Some [OF True] obtain m where m: "DcGetMemoryInfo lib st c (of_nat d) = (Some m, None)"
      by (elim exE)
    show ?thesis
    proof (cases "hasChip lib st (c, d)")
      case False
      then have "fst (DcGetChipInfo lib st c (of_nat d)) = None"
        using DcGetChipInfo_cases [of lib st c "of_nat d"] by (simp add: hasChip_def)
      then show ?thesis using m False by (simp add: Let_def)
    next
      case chip: True
      then obtain i where i: "fst (DcGetChipInfo lib st c (of_nat d)) = Some i"
        using DcGetChipInfo_cases [of lib st c "of_nat d"] by (auto simp: hasChip_def)
      let ?res = "gm_set (showNat (length seen)) (atlasObj lib st (c, d)) res"
      define acc where "acc = seen @ [(c, d)]"
      have "gm_get ?res = numbered (atlasObj lib st) acc"
        using Cons.prems by (simp add: numbered_snoc acc_def)
      note IH = Cons.IH [OF this, unfolded Let_def]
      have step: "atlasCard lib st c (d # ds) (length seen, res) = atlasCard lib st c ds (length acc, ?res)"
        using m i by (simp add: Let_def atlasObj_def acc_def)
      let ?rest = "map (Pair c) (filter (\<lambda>d. snd (DcGetMemoryInfo lib st c (of_nat d)) = None) ds)"
      have flt: "map (Pair c) (filter (\<lambda>d. snd (DcGetMemoryInfo lib st c (of_nat d)) = None) (d # ds)) = (c, d) # ?rest"
        using m by simp
      have app: "seen @ (c, d) # ?rest = acc @ ?rest" by (simp add: acc_def)
      have all: "(\<forall>x \<in> set ((c, d) # ?rest). hasChip lib st x) \<longleftrightarrow> (\<forall>x \<in> set ?rest. hasChip lib st x)"
        using chip by simp
      show ?thesis unfolding Let_def flt step app all by (rule IH)
    qed
  qed
qed (simp add: Let_def)

lemma atlasCards_spec:
  assumes "gm_get res = numbered (atlasObj lib st) seen"
  shows "if \<forall>x \<in> set (readableDevices lib st cards). hasChip lib st x
    then \<exists>n res'. atlasCards lib st cards (length seen, res) = Some (n, res') \<and>
           gm_get res' = numbered (atlasObj lib st) (seen @ readableDevices lib st cards)
    else atlasCards lib st cards (length seen, res) = None"
  using assms
proof (induction cards arbitrary: seen res)
  case (Cons c cs)
  let ?ok = "map (Pair c) (filter (\<lambda>d. snd (DcGetMemoryInfo lib st c (of_nat d)) = None) [0..<devicesOfCard lib st c])"
  have split: "readableDevices lib st (c # cs) = ?ok @ readableDevices lib st cs"
    by (simp add: readableDevices_def)
  note card = atlasCard_spec [OF Cons.prems, of c "[0..<devicesOfCard lib st c]", unfolded Let_def]
  show ?case
  proof (cases "\<forall>x \<in> set ?ok. hasChip lib st x")
    case False
    then have "atlasCard lib st c [0..<devicesOfCard lib st c] (length seen, res) = None" using card by meson
    then have "atlasCards lib st (c # cs) (length seen, res) = None" by (simp add: devicesOfCard_def Let_def)
    then show ?thesis using False split by auto
  next
    case True
    then obtain res' where r: "atlasCard lib st c [0..<devicesOfCard lib st c] (length seen, res) = Some (length (seen @ ?ok), res')"
      and g: "gm_get res' = numbered (atlasObj lib st) (seen @ ?ok)"
      using card by meson
    define acc where "acc = seen @ ?ok"
    have step: "atlasCards lib st (c # cs) (length seen, res) = atlasCards lib st cs (length acc, res')"
      using r by (simp add: devicesOfCard_def Let_def acc_def)
    have app: "seen @ readableDevices lib st (c # cs) = acc @ readableDevices lib st cs"
      by (simp add: split acc_def)
    have all: "(\<forall>x \<in> set (readableDevices lib st (c # cs)). hasChip lib st x) \<longleftrightarrow>
        (\<forall>x \<in> set (readableDevices lib st cs). hasChip lib st x)"
      using True by (auto simp: split)
    show ?thesis unfolding step app all by (rule Cons.IH) (simp add: acc_def g)
  qed
qed (simp add: readableDevices_def)

lemma atlasDcmi_spec:
  assumes "DcGetDeviceCount lib st = (n, None)" and "0 < sint n" and "DcGetCardList lib st = ((k, cards), None)"
  shows "if \<forall>x \<in> set (readableDevices lib st cards). hasChip lib st x
    then \<exists>res. atlasDcmi lib st = IRet res None \<and> gm_get res = numbered (atlasObj lib st) (readableDevices lib st cards)
    else atlasDcmi lib st = IPanic"
proof -
  have "gm_get [] = numbered (atlasObj lib st) []" by (simp add: numbered_def)
  note spec = atlasCards_spec [OF this, of cards]
  show ?thesis
  proof (cases "\<forall>x \<in> set (readableDevices lib st cards). hasChip lib st x")
    case True
    then obtain m res where "atlasCards lib st cards (0, []) = Some (m, res)"
      "gm_get res = numbered (atlasObj lib st) (readableDevices lib st cards)"
      using spec by (auto split: if_splits)
    then show ?thesis using True assms by (simp add: atlasDcmi_def)
  next
    case False
    then have "atlasCards lib st cards (0, []) = None" using spec by (auto split: if_splits)
    then show ?thesis using False assms by (auto simp: atlasDcmi_def)
  qed
qed

lemma AllDeviceInfo_error_empty: "AllDeviceInfo lib = DRet m (Some e) \<Longrightarrow> m = []"
  by (auto simp: AllDeviceInfo_def split: prod.splits if_splits)

lemma scanFields_append:
  "scanFields i (xs @ ys) r = scanFields (i + length xs) ys (scanFields i xs r)"
proof (induction xs arbitrary: i r)
  case (Cons x xs)
  then show ?case by (cases r) (simp add: Let_def split: if_splits)
qed simp

lemma scanFields_noMiB:
  "\<forall>f \<in> set xs. \<not> contains f ''MiB'' \<Longrightarrow> \<exists>g'. scanFields i xs (u, t, g) = (u, t, g')"
  by (induction xs arbitrary: i g) (auto simp: Let_def)

lemma scanFields_plain:
  "\<forall>f \<in> set xs. \<not> contains f ''MiB'' \<and> \<not> contains f ''%'' \<Longrightarrow> scanFields i xs r = r"
  by (induction xs arbitrary: i; cases r) (auto simp: Let_def)

lemma showNat_no_char: "\<not> isDigitC c \<Longrightarrow> c \<notin> set (showNat n)"
  using showNat_isDigit [of n] by (auto simp: list_all_iff)

lemma readings_contain:
  "contains (showNat u @ ''MiB'') ''MiB''" "contains (showNat g @ ''%'') ''%''"
  "\<not> contains (showNat u @ ''MiB'') ''%''" "\<not> contains (showNat g @ ''%'') ''MiB''"
  "\<not> contains ''/'' ''MiB''" "\<not> contains ''/'' ''%''" "\<not> contains ''|'' ''MiB''" "\<not> contains ''|'' ''%''"
proof -
  show "contains (showNat u @ ''MiB'') ''MiB''" by (auto simp: contains_iff intro: exI [of _ "[]"])
  show "contains (showNat g @ ''%'') ''%''" by (auto simp: contains_iff intro: exI [of _ "[]"])
  show "\<not> contains (showNat u @ ''MiB'') ''%''"
    using showNat_no_char [of "CHR ''%''" u] by (auto dest: contains_set simp: isDigitC_def)
  show "\<not> contains (showNat g @ ''%'') ''MiB''"
    using showNat_no_char [of "CHR ''M''" g] by (auto dest: contains_set simp: isDigitC_def)
qed (auto dest: contains_set)

section \<open>Properties\<close>

text \<open>The numbering of Ascend devices: when devices are found, the reported device \<open>i\<close> is the
  \<open>i\<close>-th device, in the order of the cards, whose memory could be read, with its memory, chip name
  and core rate; so one unreadable device renumbers all devices after it. If the chip
  description of one readable device is missing, nothing at all is reported, and no error either.\<close>

theorem atlas_devices_numbered:
  assumes "DcGetDeviceCount lib st = (n, None)" and "0 < sint n" and "DcGetCardList lib st = ((k, cards), None)"
  shows "if \<forall>x \<in> set (readableDevices lib st cards). hasChip lib st x
    then \<exists>res. AtlasInfoAll (Some lib) st ds = IRet res None \<and>
      (\<forall>i. gm_get res (showNat i) =
         (if i < length (readableDevices lib st cards) then Some (atlasObj lib st (readableDevices lib st cards ! i)) else None))
    else AtlasInfoAll (Some lib) st ds = IRet [] None"
proof (cases "\<forall>x \<in> set (readableDevices lib st cards). hasChip lib st x")
  case True
  then obtain res where "atlasDcmi lib st = IRet res None"
    "gm_get res = numbered (atlasObj lib st) (readableDevices lib st cards)"
    using atlasDcmi_spec [OF assms] by (auto split: if_splits)
  then have "AtlasInfoAll (Some lib) st ds = IRet res None \<and> (\<forall>i. gm_get res (showNat i) =
      (if i < length (readableDevices lib st cards) then Some (atlasObj lib st (readableDevices lib st cards ! i)) else None))"
    by (simp add: AtlasInfoAll_def recoverInfo_def numbered_get)
  then show ?thesis using True by auto
next
  case False
  then have "atlasDcmi lib st = IPanic" using atlasDcmi_spec [OF assms] by (auto split: if_splits)
  then show ?thesis using False by (auto simp: AtlasInfoAll_def recoverInfo_def)
qed

text \<open>The demonstration library with the memory of device 0 on card 5 out of order.\<close>

definition brokenLib :: "nat dcmi_lib" where
  "brokenLib = demoLib\<lparr>dcmi_get_device_memory_info_v3_func :=
     Some (\<lambda>_ c d. (if c = 5 \<and> d = 0 then 1 else 0,
       \<lparr>MemorySize = 1000, MemoryAvailable = 900, Frequency = 0, Utilization = 10\<rparr>))\<rparr>"

lemma brokenLib_eval:
  "DcGetDeviceCount brokenLib 0 = (3, None)" "DcGetCardList brokenLib 0 = ((2, [3, 5]), None)"
  "readableDevices brokenLib 0 [3, 5] = [(3, 0), (5, 1)]"
  "hasChip brokenLib 0 (3, 0)" "hasChip brokenLib 0 (5, 1)"
  by code_simp+

theorem atlas_devices_numbered_witness:
  "\<exists>res. AtlasInfoAll (Some brokenLib) 0 ds = IRet res None \<and>
     gm_get res ''1'' = Some (atlasObj brokenLib 0 (5, 1)) \<and> gm_get res ''2'' = None"
proof -
  have "\<forall>x \<in> set (readableDevices brokenLib 0 [3, 5]). hasChip brokenLib 0 x"
    by (simp add: brokenLib_eval del: One_nat_def)
  then obtain res where res: "AtlasInfoAll (Some brokenLib) 0 ds = IRet res None"
    "\<forall>i. gm_get res (showNat i) = (if i < length (readableDevices brokenLib 0 [3, 5])
       then Some (atlasObj brokenLib 0 (readableDevices brokenLib 0 [3, 5] ! i)) else None)"
    using atlas_devices_numbered [OF brokenLib_eval(1) _ brokenLib_eval(2), of ds] by auto
  have "showNat 1 = ''1''" "showNat 2 = ''2''" by code_simp+
  then show ?thesis using res(1) res(2) [rule_format, of 1] res(2) [rule_format, of 2]
    by (simp add: brokenLib_eval(3))
qed

text \<open>With the older Ascend interface no device is ever reported: the devices are copied only when
  the query failed, and then there are none.\<close>

theorem dsmi_reports_no_device: "AtlasInfo None st ds indexs = IRet m e \<Longrightarrow> m = []"
  by (auto simp: AtlasInfo_def AtlasInfoAll_def atlasDsmi_def recoverInfo_def keepRequested_def
      dest: AllDeviceInfo_error_empty split: dsmiRes.splits option.splits if_splits infoRes.splits)

text \<open>The memory utilisation of an NVIDIA device is a percentage: for every reading with a
  positive total that is not below the used memory, computed with \<open>float64\<close> rounding, it is at most
  100 and within 1.001 of the exact quotient of the converted readings; a zero total gives zero.\<close>

theorem nvidia_memory_utilisation:
  assumes "DeviceGetMemoryInfo nv h = (tot, used)" and "used \<le> tot"
  shows "unat (MemUtil (nvObj nv h)) \<le> 100 \<and> (tot = 0 \<longrightarrow> MemUtil (nvObj nv h) = 0) \<and>
    (0 < tot \<longrightarrow> \<bar>of_nat (unat (MemUtil (nvObj nv h))) - 100 * f64 (of_nat (unat used)) / f64 (of_nat (unat tot))\<bar> \<le> 1001 / 1000)"
proof (cases "0 < tot")
  case True
  have pos: "0 < f64 (of_nat (unat tot))" using True by (intro f64_pos) (simp add: unat_gt_0 word_neq_0_conv)
  have le: "f64 (of_nat (unat used)) \<le> f64 (of_nat (unat tot))"
    using assms(2) by (intro f64_of_nat_mono) (simp add: word_le_nat_alt)
  have nn: "0 \<le> f64 (of_nat (unat used))" unfolding f64_def by (intro roundTo_nonneg of_nat_0_le_iff)
  have "MemUtil (nvObj nv h) = memUtilOf (f64 (of_nat (unat used))) (f64 (of_nat (unat tot)))"
    using assms(1) True by (simp add: nvObj_def Let_def)
  moreover have "tot \<noteq> 0" using True by auto
  ultimately show ?thesis using memUtilOf_bounds [OF nn le pos] by simp
next
  case False
  then show ?thesis using assms(1) by (simp add: nvObj_def Let_def word_neq_0_conv)
qed

definition demoNv :: nvml where
  "demoNv = \<lparr>DeviceGetCount = 2, DeviceGetHandleByUUID = (\<lambda>u. if u = ''GPU-1'' then Some 1 else None),
     DeviceGetHandleByIndex = (\<lambda>i. if 0 \<le> i \<and> i < 2 then Some (nat i) else None),
     DeviceGetMemoryInfo = (\<lambda>h. if h = None then (0, 0) else (1000, 250)),
     DeviceGetName = (\<lambda>h. if h = None then [] else ''T4''),
     DeviceGetUtilizationRates = (\<lambda>h. if h = None then 0 else 30), smi = (\<lambda>_. None),
     toUint64 = (\<lambda>s. word_of_int (digitsVal s)), toUint32 = (\<lambda>s. word_of_int (digitsVal s))\<rparr>"

theorem nvidia_memory_utilisation_witness: "unat (MemUtil (nvObj demoNv (Some 0))) \<le> 100"
proof -
  have "DeviceGetMemoryInfo demoNv (Some 0) = (1000, 250)" by (simp add: demoNv_def)
  from nvidia_memory_utilisation [OF this] show ?thesis by simp
qed

text \<open>For Cambricon and Sophgo devices the division is done on integers, so a device that is not
  full reports zero.\<close>

theorem integer_utilisation_is_zero:
  assumes "0 \<le> used" and "used < tot"
  shows "intUtil used tot = Some 0"
  using assms by (simp add: intUtil_def goQuot_def wrap64_def)

text \<open>The output of \<open>nvidia-smi\<close> is read correctly: if the first separator line is followed by a
  line whose third column is the model and by one with the fields \<open>uMiB / tMiB | g%\<close> in this
  order, after at least one field and with no other memory field and no later percentage, the
  result has that model, the utilisation \<open>g\<close> and the memory sizes in bytes.\<close>

theorem nvidia_smi_parsed:
  assumes "splitC CHR 0x0A info = pre @ sep # l1 # l2 # post"
    and "\<forall>l \<in> set pre. \<not> contains l ''===+===''" and "contains sep ''===+===''"
    and "splitStr ''  '' [] l1 = c0 # c1 # model # cols"
    and "Go_Prelude.fields l2 = f0 # fs @ (showNat u @ ''MiB'') # ''/'' # (showNat t @ ''MiB'') # ''|'' # (showNat g @ ''%'') # rest"
    and "\<forall>f \<in> set (f0 # fs @ rest). \<not> contains f ''MiB''" and "\<forall>f \<in> set rest. \<not> contains f ''%''"
    and "\<And>n. toUint64 nv (showNat n) = of_nat n" and "\<And>n. toUint32 nv (showNat n) = of_nat n"
  shows "\<exists>obj. GetInfoByString nv info = Some obj \<and> Model obj = model \<and> GpuType obj = ''GPU'' \<and>
    GpuUtil obj = of_nat g \<and> Used obj = of_nat u * 1024 * 1024 \<and> Total obj = of_nat t * 1024 * 1024"
proof -
  let ?U = "showNat u @ ''MiB''" and ?T = "showNat t @ ''MiB''" and ?G = "showNat g @ ''%''"
  let ?s = "f0 # fs @ ?U # ''/'' # ?T # ''|'' # ?G # rest" and ?p = "length (f0 # fs)"
  have lines: "dropWhile (\<lambda>l. \<not> contains l ''===+==='') (splitC CHR 0x0A info) = sep # l1 # l2 # post"
    using assms(1-3) by (simp add: dropWhile_append)
  have "\<forall>f \<in> set (f0 # fs). \<not> contains f ''MiB''" using assms(6) by simp
  from scanFields_noMiB [OF this, of 0 0 0 0]
  obtain g0 where pre: "scanFields 0 (f0 # fs) (0, 0, 0) = (0, 0, g0)" by (elim exE)
  have tail: "scanFields i rest r = r" for i r
    using scanFields_plain [of rest i r] assms(6,7) by simp
  have "scanFields 0 ((f0 # fs) @ ?U # ''/'' # ?T # ''|'' # ?G # rest) (0, 0, 0) = (?p, ?p + 2, ?p + 4)"
    unfolding scanFields_append pre by (simp add: readings_contain tail)
  then have scan: "scanFields 0 ?s (0, 0, 0) = (?p, ?p + 2, ?p + 4)" by simp
  have nths: "?s ! ?p = ?U" "?s ! (?p + 2) = ?T" "?s ! (?p + 4) = ?G"
    by (simp_all add: nth_append)
  have nums: "findNum ''MiB'' ?U = Some (showNat u)" "findNum ''MiB'' ?T = Some (showNat t)"
    "findNum ''%'' ?G = Some (showNat g)"
    using findNum_showNat [of "''MiB''" _ "[]"] findNum_showNat [of "''%''" _ "[]"] by (simp_all add: isDigitC_def)
  have "GetInfoByString nv info = Some (smiObj (of_nat u) (of_nat t) (of_nat g) model)"
    unfolding GetInfoByString_def lines list.case assms(4,5) Let_def scan prod.case nths nums option.case assms(8,9)
    by simp
  then show ?thesis by (simp add: smiObj_def)
qed

definition demoSmi :: string where
  "demoSmi = ''|===+===|'' @ [CHR 0x0A] @ ''|   0  Tesla T4  Off |'' @ [CHR 0x0A] @
     ''| N/A   250MiB /  1000MiB |  30%  Default |'' @ [CHR 0x0A]"

lemma demoSmi_eval:
  "splitC CHR 0x0A demoSmi = [] @ ''|===+===|'' # ''|   0  Tesla T4  Off |'' #
     ''| N/A   250MiB /  1000MiB |  30%  Default |'' # [[]]"
  "contains ''|===+===|'' ''===+===''"
  "splitStr ''  '' [] ''|   0  Tesla T4  Off |'' = ''|'' # '' 0'' # ''Tesla T4'' # [''Off |'']"
  "Go_Prelude.fields ''| N/A   250MiB /  1000MiB |  30%  Default |'' =
     ''|'' # [''N/A''] @ (showNat 250 @ ''MiB'') # ''/'' # (showNat 1000 @ ''MiB'') # ''|'' # (showNat 30 @ ''%'') # [''Default'', ''|'']"
  "\<forall>f \<in> set (''|'' # [''N/A''] @ [''Default'', ''|'']). \<not> contains f ''MiB''"
  "\<forall>f \<in> set [''Default'', ''|'']. \<not> contains f ''%''"
  by code_simp+

theorem nvidia_smi_parsed_witness:
  "\<exists>obj. GetInfoByString demoNv demoSmi = Some obj \<and> Model obj = ''Tesla T4'' \<and> GpuUtil obj = 30 \<and>
     Total obj = 1000 * 1024 * 1024"
proof -
  have num: "toUint64 demoNv (showNat n) = of_nat n" "toUint32 demoNv (showNat n) = of_nat n" for n
    by (simp_all add: demoNv_def digitsVal_showNat)
  from nvidia_smi_parsed [OF demoSmi_eval(1) _ demoSmi_eval(2-6) num] show ?thesis by auto
qed

text \<open>The first query of a device by UUID does not read the device: the handle found is stored for
  later but the readings are those of the nil handle; the next query of the same UUID reads the
  device.\<close>

theorem first_uuid_query_reads_nil_handle:
  assumes "hasPrefix v ''GPU''" and "gm_get cache v = None" and "DeviceGetHandleByUUID nv (trimSpace v) = Some h"
  shows "NvidiaInfo nv cache [v] = (IRet [(v, nvObj nv None)] None, gm_set v h cache) \<and>
    fst (NvidiaInfo nv (gm_set v h cache) [v]) = IRet [(v, nvObj nv (Some h))] None"
  using assms by (simp add: NvidiaInfo_def recoverInfo_def)

theorem first_uuid_query_reads_nil_handle_witness:
  "fst (NvidiaInfo demoNv [] [''GPU-1'']) = IRet [(''GPU-1'', nvObj demoNv None)] None \<and>
   Total (nvObj demoNv None) = 0 \<and> Total (nvObj demoNv (Some 1)) = 1000"
proof -
  have "DeviceGetHandleByUUID demoNv (trimSpace ''GPU-1'') = Some 1" by code_simp
  from first_uuid_query_reads_nil_handle [OF _ _ this, of "[]"] show ?thesis
    by (simp add: nvObj_def demoNv_def)
qed

text \<open>The GPU self test locks itself out: after a run whose output has a line with the word error,
  the command counts as still running for ever, and every later request is answered with status 5
  without a test.\<close>

theorem failed_gpu_check_blocks_later_checks:
  assumes "l \<in> set (butlast (splitC CHR 0x0A out))" and "contains l ''error''"
  shows "\<exists>m. fst (CheckGpu False out ended) = (case ended of CmdExit c \<Rightarrow> c | _ \<Rightarrow> 0, Some m) \<and>
    snd (CheckGpu False out ended) \<and>
    (\<forall>out' ended'. CheckGpu (snd (CheckGpu False out ended)) out' ended' = ((5, Some ''CheckGpu started''), True))"
proof -
  let ?lines = "map (\<lambda>l. l @ [CHR 0x0A]) (butlast (splitC CHR 0x0A out))"
  have "contains (l @ [CHR 0x0A]) ''error''" using assms(2) by (fastforce simp: contains_iff)
  then have "find (\<lambda>l. contains l ''error'') ?lines \<noteq> None" using assms(1) by (auto simp: find_None_iff)
  then obtain m where "find (\<lambda>l. contains l ''error'') ?lines = Some m" by auto
  then show ?thesis by (simp add: CheckGpu_def Let_def)
qed

theorem failed_gpu_check_blocks_later_checks_witness:
  "CheckGpu (snd (CheckGpu False (''gpu 0 error'' @ [CHR 0x0A]) CmdOk)) ''ok'' CmdOk = ((5, Some ''CheckGpu started''), True)"
proof -
  have "''gpu 0 error'' \<in> set (butlast (splitC CHR 0x0A (''gpu 0 error'' @ [CHR 0x0A])))" by code_simp
  moreover have "contains ''gpu 0 error'' ''error''" by code_simp
  ultimately show ?thesis using failed_gpu_check_blocks_later_checks [of "''gpu 0 error''"] by blast
qed

end
