(* ===== verification/Gpu_Service.thy ===== *)
theory Gpu_Service
  imports Gpu_Devices Http_Reply
begin

text \<open>
  The GPU handlers of \<open>Service/GpuInfoService.go\<close> and \<open>Service/GpuCheckService.go\<close> over the
  registered back end. The locale \<open>gpu_info\<close> is the part of Go's interface \<open>GpuInfo\<close> the handlers
  rely on: \<open>Info\<close> answers only about devices it is asked for. It is interpreted for all four back
  ends at once. The state carried through the calls is NVIDIA's cache of handles, which the other
  back ends leave alone.
\<close>

section \<open>Back ends as executors\<close>

record gpuExec =
  ContainerDevices :: "string \<Rightarrow> string list option"
  Info :: "gpuDeviceMap \<Rightarrow> string list \<Rightarrow> infoRes \<times> gpuDeviceMap"

record ('d, 'c) gpuEnv =
  inspectC :: "string \<Rightarrow> containerView option"
  dcmiOf :: "'d dcmi_lib"
  dcmiSt :: 'd
  dsmiOf :: dsmi_lib
  nvmlOf :: nvml
  cndevOf :: "'c cndev_lib"
  cndevSt :: 'c
  toUintC :: "string \<Rightarrow> u64"
  bmOf :: bmctl

fun executorOf :: "('d, 'c) gpuEnv \<Rightarrow> backend \<Rightarrow> gpuExec" where
  "executorOf env (Atlas dcmi) =
     \<lparr>ContainerDevices = AtlasContainerDevices (inspectC env),
      Info = (\<lambda>cache indexs. (AtlasInfo (if dcmi then Some (dcmiOf env) else None) (dcmiSt env) (dsmiOf env) indexs, cache))\<rparr>"
| "executorOf env Nvidia =
     \<lparr>ContainerDevices = NvidiaContainerDevices (nvmlOf env) (inspectC env), Info = NvidiaInfo (nvmlOf env)\<rparr>"
| "executorOf env Mlu =
     \<lparr>ContainerDevices = MluContainerDevices (inspectC env),
      Info = (\<lambda>cache indexs. (MluInfo (toUintC env) (cndevOf env) (cndevSt env) indexs, cache))\<rparr>"
| "executorOf env Sophgo =
     \<lparr>ContainerDevices = SophgoContainerDevices (inspectC env), Info = (\<lambda>cache indexs. (SophgoInfo (bmOf env) indexs, cache))\<rparr>"

section \<open>Handlers\<close>

text \<open>The websocket loop: one message per round while \<open>Info\<close> gives no error and the write succeeds;
  \<open>writes\<close> are the results of the successive writes, of which there may be any number.\<close>

fun gpuStream :: "gpuExec \<Rightarrow> string list \<Rightarrow> bool list \<Rightarrow> gpuDeviceMap \<Rightarrow> (string, InfoObj) gomap list" where
  "gpuStream ex index [] cache = []"
| "gpuStream ex index (ok # writes) cache =
     (case Info ex cache index of
        (IRet m None, cache') \<Rightarrow> if ok then m # gpuStream ex index writes cache' else []
      | _ \<Rightarrow> [])"

datatype wsResult = NoContent | Streamed "(string, InfoObj) gomap list" | HandlerPanic

definition ContainerGpuInfoHandler ::
  "gpuExec option \<Rightarrow> gpuDeviceMap \<Rightarrow> bool \<Rightarrow> string \<Rightarrow> bool list \<Rightarrow> wsResult" where
  "ContainerGpuInfoHandler ex cache upgrades containerID writes =
     (if containerID = [] then NoContent
      else case GetExecutor ex of
             Inl _ \<Rightarrow> NoContent
           | Inr e \<Rightarrow>
               (case ContainerDevices e containerID of
                  None \<Rightarrow> HandlerPanic
                | Some index \<Rightarrow>
                    if index = [] then NoContent
                    else if \<not> upgrades then HandlerPanic
                    else Streamed (gpuStream e index writes cache)))"

type_synonym gpuResponse = "(string, (string, InfoObj) gomap option) response"

record monitorResult =
  monAnswer :: gpuResponse
  monTarget :: "string option"
  monPanic :: bool

definition ContainerGpuInfoForMonitorHandler ::
  "(string \<Rightarrow> string) \<Rightarrow> int \<Rightarrow> string \<Rightarrow> gpuExec option \<Rightarrow> gpuDeviceMap \<Rightarrow> signedReq \<Rightarrow> string \<Rightarrow> monitorResult" where
  "ContainerGpuInfoForMonitorHandler md5hex port key ex cache req containerID =
     (let w = emptyResponse; done1 = (\<lambda>a. \<lparr>monAnswer = a, monTarget = None, monPanic = False\<rparr>) in
      case RequestAndRedirect md5hex port key req of
        ToHost h \<Rightarrow> \<lparr>monAnswer = w, monTarget = Some h, monPanic = False\<rparr>
      | AuthFail \<Rightarrow> done1 (FAIL_RES ''auth fail'' None w)
      | HandleHere \<Rightarrow>
          if containerID = [] then done1 (FAIL_RES ''containerId is empty'' None w)
          else case GetExecutor ex of
                 Inl _ \<Rightarrow> done1 (SUCCESS_RES ''no gpu'' None w)
               | Inr e \<Rightarrow>
                   (case ContainerDevices e containerID of
                      None \<Rightarrow> \<lparr>monAnswer = w, monTarget = None, monPanic = True\<rparr>
                    | Some index \<Rightarrow>
                        if index = [] then done1 (SUCCESS_RES ''no gpu'' None w)
                        else (case fst (Info e cache index) of
                                IPanic \<Rightarrow> \<lparr>monAnswer = w, monTarget = None, monPanic = True\<rparr>
                              | IRet m (Some err) \<Rightarrow> done1 (FAIL_RES ''get gpu info error'' None w)
                              | IRet m None \<Rightarrow> done1 (SUCCESS_RES [] (Some m) w))))"

text \<open>The self test: the answer has the code of success whatever the outcome.\<close>

record checkAnswer =
  checkCode :: nat
  checkStatus :: int
  checkMsg :: string

definition CheckGpuHandler :: "bool \<Rightarrow> string \<Rightarrow> cmdEnd \<Rightarrow> checkAnswer \<times> bool" where
  "CheckGpuHandler running out ended =
     (case CheckGpu running out ended of ((st, err), running') \<Rightarrow>
        (case err of
           Some msg \<Rightarrow> (\<lparr>checkCode = 0, checkStatus = 5, checkMsg = msg\<rparr>, running')
         | None \<Rightarrow> (\<lparr>checkCode = 0, checkStatus = st, checkMsg = []\<rparr>, running')))"

section \<open>The contract of a back end\<close>

locale gpu_info =
  fixes ex :: gpuExec
  assumes info_requested: "Info ex cache indexs = (IRet m e, cache') \<Longrightarrow> gm_keys m \<subseteq> set indexs"
begin

lemma stream_requested: "\<forall>m \<in> set (gpuStream ex index writes cache). gm_keys m \<subseteq> set index"
proof (induction writes arbitrary: cache)
  case (Cons ok writes)
  obtain r cache' where r: "Info ex cache index = (r, cache')" by (cases "Info ex cache index")
  show ?case
  proof (cases r)
    case (IRet m e)
    then have "gm_keys m \<subseteq> set index" using info_requested r by blast
    then show ?thesis using Cons.IH [of cache'] r IRet by (cases e) auto
  qed (simp add: r)
qed simp

lemma handler_requested:
  assumes "ContainerGpuInfoHandler (Some ex) cache up cid writes = Streamed ms"
  shows "\<exists>index. ContainerDevices ex cid = Some index \<and> (\<forall>m \<in> set ms. gm_keys m \<subseteq> set index)"
  using assms
  by (auto simp: ContainerGpuInfoHandler_def split: option.splits if_splits
      intro: subsetD [OF stream_requested [rule_format]])

lemma monitor_requested:
  assumes "SuccessRes msg (Some m) \<in> set (bodies (monAnswer
      (ContainerGpuInfoForMonitorHandler md5hex port key (Some ex) cache req cid)))"
  shows "(\<exists>index. ContainerDevices ex cid = Some index \<and> gm_keys m \<subseteq> set index) \<and>
    sign req = md5hex (timestamp req @ ''_'' @ key)"
proof -
  from assms have here: "RequestAndRedirect md5hex port key req = HandleHere"
    by (auto simp: ContainerGpuInfoForMonitorHandler_def Let_def FAIL_RES_def split: redirect.splits)
  from assms here obtain index where index: "ContainerDevices ex cid = Some index" "index \<noteq> []"
    and info: "fst (Info ex cache index) = IRet m None"
    by (auto simp: ContainerGpuInfoForMonitorHandler_def Let_def FAIL_RES_def SUCCESS_RES_def
        split: option.splits if_splits infoRes.splits)
  obtain c where "Info ex cache index = (IRet m None, c)" using info by (metis prod.collapse)
  from info_requested [OF this] index here show ?thesis by (auto simp: HandleHere_iff)
qed

end

section \<open>The back ends keep the contract\<close>

lemma keepRequested_keys: "gm_keys (keepRequested indexs m) \<subseteq> set indexs"
proof -
  have "gm_keys (fold (\<lambda>(s, obj) res. if s \<in> set indexs then gm_set s obj res else res) m acc)
      \<subseteq> set indexs \<union> gm_keys acc" for acc
  proof (induction m arbitrary: acc)
    case (Cons x m)
    obtain s obj where x: "x = (s, obj)" by (cases x)
    show ?case using Cons.IH [of "gm_set s obj acc"] Cons.IH [of acc] x by auto
  qed simp
  from this [of "[]"] show ?thesis by (simp add: keepRequested_def)
qed

lemma nvLoop_keys: "nvLoop nv indexs cache res = (IRet m e, cache') \<Longrightarrow> gm_keys m \<subseteq> set indexs \<union> gm_keys res"
proof (induction indexs arbitrary: cache res)
  case (Cons v vs)
  from Cons.prems show ?case
    by (auto split: option.splits if_splits smiRes.splits dest!: Cons.IH)
qed simp

lemma mluLoop_keys: "mluLoop es res = IRet m e \<Longrightarrow> gm_keys m \<subseteq> gm_keys es \<union> gm_keys res"
proof (induction es arbitrary: res)
  case (Cons x es)
  obtain v en where x: "x = (v, en)" by (cases x)
  from Cons.prems x show ?case by (cases en) (auto dest!: Cons.IH)
qed simp

lemma SophgoInfo_keys: "SophgoInfo bm indexs = IRet m e \<Longrightarrow> gm_keys m \<subseteq> set indexs"
proof -
  let ?f = "\<lambda>(_, v) res. let k = showInt (sint (DevId v)) in if k \<in> set indexs
      then gm_set k \<lparr>Total = 0, Used = 0, GpuType = ''TPU'', Model = ''BM1684'', GpuUtil = TpuUtil v, MemUtil = 0\<rparr> res
      else res"
  have "gm_keys (fold ?f xs acc) \<subseteq> set indexs \<union> gm_keys acc" for xs :: "(int \<times> SophDeviceInfo) list" and acc
  proof (induction xs arbitrary: acc)
    case (Cons x xs)
    have "gm_keys (?f x acc) \<subseteq> set indexs \<union> gm_keys acc" by (cases x) (simp add: Let_def)
    then show ?case using Cons.IH [of "?f x acc"] by auto
  qed simp
  from this [of "GetAllDeviceInfo bm" "[]"] show "SophgoInfo bm indexs = IRet m e \<Longrightarrow> ?thesis"
    by (auto simp: SophgoInfo_def)
qed

lemma executorOf_requested:
  assumes "Info (executorOf env b) cache indexs = (IRet m e, cache')"
  shows "gm_keys m \<subseteq> set indexs"
proof (cases b)
  case (Atlas d)
  with assms show ?thesis
    using keepRequested_keys [of indexs] by (auto simp: AtlasInfo_def split: infoRes.splits option.splits)
next
  case Nvidia
  with assms show ?thesis
    by (auto simp: NvidiaInfo_def recoverInfo_def split: prod.splits infoRes.splits dest!: nvLoop_keys)
next
  case Mlu
  then have "MluInfo (toUintC env) (cndevOf env) (cndevSt env) indexs = IRet m e" using assms by simp
  from mluLoop_keys [OF this [unfolded MluInfo_def]] show ?thesis by (simp add: gm_keys_def image_image)
next
  case Sophgo
  then have "SophgoInfo (bmOf env) indexs = IRet m e" using assms by simp
  then show ?thesis by (rule SophgoInfo_keys)
qed

interpretation gpu: gpu_info "executorOf env b" for env b
  by unfold_locales (rule executorOf_requested)

section \<open>Properties\<close>

text \<open>C24: a container's GPU view stays within its own devices: whichever back end is registered and
  whatever its library answers, every message streamed for a container and every answer to the
  monitor names only devices that the container's own configuration lists; and the monitor gets
  readings only on a request signed with the cluster's key.\<close>

theorem gpu_readings_only_of_own_devices:
  assumes "ContainerDevices (executorOf env b) cid = Some index"
  shows "(\<forall>ms. ContainerGpuInfoHandler (Some (executorOf env b)) cache up cid writes = Streamed ms \<longrightarrow>
        (\<forall>m \<in> set ms. gm_keys m \<subseteq> set index)) \<and>
    (\<forall>msg m. SuccessRes msg (Some m) \<in> set (bodies (monAnswer
        (ContainerGpuInfoForMonitorHandler md5hex port key (Some (executorOf env b)) cache req cid))) \<longrightarrow>
        gm_keys m \<subseteq> set index \<and> sign req = md5hex (timestamp req @ ''_'' @ key))"
  using assms gpu.handler_requested [of env b cache up cid writes]
    gpu.monitor_requested [of _ _ md5hex port key env b cache req cid] by fastforce

definition demoEnv :: "(nat, unit) gpuEnv" where
  "demoEnv =
     \<lparr>inspectC = (\<lambda>c. Some \<lparr>ConfigEnv = [''NVIDIA_VISIBLE_DEVICES=1''], DevicePaths = []\<rparr>),
      dcmiOf = demoLib, dcmiSt = 0, dsmiOf = \<lparr>dsmi_get_device_count = (1, 0), dsmi_list_device = (\<lambda>_. (1, [])), dsmi_get_memory_info = (\<lambda>_. (1, 0, 0)),
        dsmi_get_device_utilization_rate = (\<lambda>_ _. 0), dsmi_get_chip_info = (\<lambda>_. ([], []))\<rparr>, nvmlOf = demoNv, cndevOf = demoCn, cndevSt = (),
      toUintC = (\<lambda>_. 0), bmOf = \<lparr>bmDevCnt = None, bmSmiAttr = (\<lambda>_. (0, 0, 0, 0, 0))\<rparr>\<rparr>"

lemma demoEnv_devices: "ContainerDevices (executorOf demoEnv Nvidia) ''c1'' = Some [''1'']"
  by (simp add: demoEnv_def NvidiaContainerDevices_def) code_simp

lemma demoEnv_streams:
  "ContainerGpuInfoHandler (Some (executorOf demoEnv Nvidia)) [] True ''c1'' [True] =
     Streamed [[(''1'', nvObj demoNv (Some 1))]]"
proof -
  have "parseInt8 ''1'' = 1" "\<not> hasPrefix ''1'' ''GPU''" by code_simp+
  moreover have "DeviceGetHandleByIndex demoNv 1 = Some 1" by (simp add: demoNv_def)
  moreover have "Info (executorOf demoEnv Nvidia) = NvidiaInfo demoNv" by (simp add: demoEnv_def)
  ultimately have "Info (executorOf demoEnv Nvidia) [] [''1''] = (IRet [(''1'', nvObj demoNv (Some 1))] None, gm_set ''1'' 1 [])"
    by (simp add: NvidiaInfo_def recoverInfo_def)
  then show ?thesis using demoEnv_devices by (simp add: ContainerGpuInfoHandler_def)
qed

theorem gpu_readings_only_of_own_devices_witness:
  "\<exists>m. ContainerGpuInfoHandler (Some (executorOf demoEnv Nvidia)) [] True ''c1'' [True] = Streamed [m] \<and>
     gm_keys m \<subseteq> {''1''}"
  using gpu_readings_only_of_own_devices [OF demoEnv_devices, of "[]" True "[True]"] demoEnv_streams by simp

end
