(* ===== verification/Model_Service.thy ===== *)
theory Model_Service
  imports Stream_Utils Http_Reply Project_Quota
begin

text \<open>
  The model files of \<open>Service/ModelSaveService.go\<close>: listing the content of an archive on the node,
  and saving chosen files of it as objects of a MinIO store. Both go through \<open>RequestAndRedirect\<close>,
  \<open>FindRealPath\<close> and the archive functions of \<open>Stream_Utils\<close>. The store is a map from buckets and
  object names to contents; its answers are arguments.
\<close>

section \<open>Parameters and answers\<close>

record SaveItem =
  siFileName :: string
  siObjectName :: string

record SaveModeParam =
  HostPath :: string
  smFileName :: string
  MinioEndpoint :: string
  ObjectBucket :: string
  AccessKey :: string
  SecretKey :: string
  saveItems :: "SaveItem list"
  CallBack :: string
  smAsync :: bool

record SaveModelResp =
  UnSaved :: "string list"
  Saved :: "string list"
  NotFound :: "string list"
  ErrorMessage :: string

datatype modelData = NoModel | Files "FileItem list" | SaveRes SaveModelResp

type_synonym modelResponse = "(string, modelData) response"

text \<open>The store: whether a client can be made, whether a bucket exists, and the outcome of a
  \<open>PutObject\<close>: none is a success, which reads and stores the whole content; an error comes with what
  was left unread.\<close>

record minioEnv =
  newClient :: "string \<Rightarrow> string \<Rightarrow> string \<Rightarrow> bool \<Rightarrow> string option"
  bucketExists :: "string \<Rightarrow> bool"
  putError :: "string \<Rightarrow> string \<Rightarrow> byte list \<Rightarrow> (string \<times> byte list) option"

record modelEnv =
  md5hex :: "string \<Rightarrow> string"
  srvPort :: int
  srvKey :: string
  mBaseDir :: string
  mLstat :: "string \<Rightarrow> lstatRes"
  mStat :: "string \<Rightarrow> oserr option"
  tarOf :: tarEnv
  minioOf :: minioEnv

definition realFile :: "modelEnv \<Rightarrow> string \<Rightarrow> string \<Rightarrow> string" where
  "realFile env hostPath fileName =
     pathJoin [(case FindRealPath (mLstat env) (mStat env) (mBaseDir env) hostPath of
                  Inl (_, p) \<Rightarrow> p | Inr p \<Rightarrow> p), fileName]"

section \<open>Listing\<close>

text \<open>\<open>None\<close> for a parameter that does not parse. The second result is a panic of the handler.\<close>

definition ListModelFile :: "modelEnv \<Rightarrow> signedReq \<Rightarrow> (string \<times> string) option \<Rightarrow> modelResponse \<times> bool" where
  "ListModelFile env req param =
     (case RequestAndRedirect (md5hex env) (srvPort env) (srvKey env) req of
        ToHost h \<Rightarrow> (emptyResponse, False)
      | AuthFail \<Rightarrow> (FAIL_RES ''auth fail'' NoModel emptyResponse, False)
      | HandleHere \<Rightarrow>
          (case param of
             None \<Rightarrow> (FAIL_RES ''request param error'' NoModel emptyResponse, False)
           | Some (hostPath, fileName) \<Rightarrow>
               (case ListFiles (tarOf env) (realFile env hostPath fileName) of
                  None \<Rightarrow> (emptyResponse, True)
                | Some (Inl e) \<Rightarrow> (FAIL_RES e NoModel emptyResponse, False)
                | Some (Inr items) \<Rightarrow> (SUCCESS_RES [] (Files items) emptyResponse, False))))"

section \<open>Saving\<close>

record saveSt =
  objects :: "string \<times> string \<Rightarrow> byte list option"
  buckets :: "string set"
  savedNames :: "string list"
  unSavedNames :: "string list"
  errText :: string

text \<open>The loop over the items has no \<open>break\<close>: the last item of that name counts.\<close>

definition objNameOf :: "SaveItem list \<Rightarrow> string \<Rightarrow> string" where
  "objNameOf items fileName =
     foldl (\<lambda>objName it. if siFileName it = fileName then siObjectName it else objName) [] items"

definition objKey :: "SaveModeParam \<Rightarrow> string \<Rightarrow> string \<times> string" where
  "objKey param fileName = (ObjectBucket param, trimCut (objNameOf (saveItems param) fileName) ''/'')"

definition saveCal :: "minioEnv \<Rightarrow> SaveModeParam \<Rightarrow> saveSt extractCb" where
  "saveCal m param fileName rest st =
     (case putError m (fst (objKey param fileName)) (snd (objKey param fileName)) rest of
        Some (e, left) \<Rightarrow>
          (left, st\<lparr>unSavedNames := unSavedNames st @ [fileName], errText := errText st @ e @ [CHR 0x0A]\<rparr>)
      | None \<Rightarrow>
          ([], st\<lparr>objects := (objects st)(objKey param fileName \<mapsto> rest), savedNames := savedNames st @ [fileName]\<rparr>))"

text \<open>\<open>doSave\<close>: the names not found are computed but never put into the result.\<close>

definition noResp :: SaveModelResp where
  "noResp = \<lparr>UnSaved = [], Saved = [], NotFound = [], ErrorMessage = []\<rparr>"

definition notFoundOf :: "SaveModeParam \<Rightarrow> saveSt \<Rightarrow> string list" where
  "notFoundOf param st =
     filter (\<lambda>n. n \<notin> set (savedNames st) \<and> n \<notin> set (unSavedNames st)) (map siFileName (saveItems param))"

definition doSave ::
  "modelEnv \<Rightarrow> SaveModeParam \<Rightarrow> (string \<times> string \<Rightarrow> byte list option) \<Rightarrow> string set \<Rightarrow>
     string option \<times> SaveModelResp \<times> saveSt" where
  "doSave env param objs bks =
     (let st0 = \<lparr>objects = objs,
                 buckets = (if bucketExists (minioOf env) (ObjectBucket param) then bks else insert (ObjectBucket param) bks),
                 savedNames = [], unSavedNames = [], errText = []\<rparr>
      in case ExtractFileTo (tarOf env) (realFile env (HostPath param) (smFileName param))
                (map siFileName (saveItems param)) (saveCal (minioOf env) param) st0 of
           (Some e, st) \<Rightarrow> (Some e, noResp, st)
         | (None, st) \<Rightarrow>
             (None, \<lparr>UnSaved = unSavedNames st, Saved = savedNames st, NotFound = [], ErrorMessage = errText st\<rparr>, st))"

definition endpointOf :: "string \<Rightarrow> string" where
  "endpointOf e = (if hasPrefix e ''http'' then trimPrefix (trimPrefix e ''https://'') ''http://'' else e)"

text \<open>What a request does: the answer, the store afterwards, and the callback of an asynchronous
  save.\<close>

record saveEffects =
  saveAnswer :: modelResponse
  store :: "string \<times> string \<Rightarrow> byte list option"
  saveCallback :: "(string \<times> (string, modelData) body) option"

text \<open>The guard of \<open>SaveModelFile\<close> leaves only when the request was redirected: after a failed
  signature the answer has been written and the handler goes on.\<close>

definition SaveModelFile ::
  "modelEnv \<Rightarrow> signedReq \<Rightarrow> SaveModeParam option \<Rightarrow> (string \<times> string \<Rightarrow> byte list option) \<Rightarrow> string set \<Rightarrow> saveEffects" where
  "SaveModelFile env req param objs bks =
     (let gate = RequestAndRedirect (md5hex env) (srvPort env) (srvKey env) req;
          w = (if gate = AuthFail then FAIL_RES ''auth fail'' NoModel emptyResponse else emptyResponse);
          answered = (\<lambda>a. \<lparr>saveAnswer = a, store = objs, saveCallback = None\<rparr>)
      in if redirected gate then answered emptyResponse
         else case param of
                None \<Rightarrow> answered (FAIL_RES ''request param error'' NoModel w)
              | Some p \<Rightarrow>
                  (case newClient (minioOf env) (endpointOf (MinioEndpoint p)) (AccessKey p) (SecretKey p)
                          (hasPrefix (MinioEndpoint p) ''https'') of
                     Some e \<Rightarrow> answered (FAIL_RES e NoModel w)
                   | None \<Rightarrow>
                       (case doSave env p objs bks of (err, res, st) \<Rightarrow>
                          if smAsync p then
                            \<lparr>saveAnswer = SUCCESS_RES [] (SaveRes noResp) w, store = objects st,
                             saveCallback =
                               (if CallBack p = [] then None
                                else Some (CallBack p,
                                  (case err of
                                     Some e \<Rightarrow> FailRes [] (SaveRes (res\<lparr>ErrorMessage := ErrorMessage res @ e @ [CHR 0x0A]\<rparr>))
                                   | None \<Rightarrow> SuccessRes [] (SaveRes res))))\<rparr>
                          else
                            \<lparr>saveAnswer = (case err of Some e \<Rightarrow> FAIL_RES e NoModel w | None \<Rightarrow> SUCCESS_RES [] (SaveRes res) w),
                             store = objects st, saveCallback = None\<rparr>)))"

section \<open>What is saved\<close>

lemma callNames_absent: "hn \<notin> set names \<Longrightarrow> callNames cal hn names rest st = st"
  by (induction names) auto

lemma callNames_distinct:
  "distinct names \<Longrightarrow> callNames cal hn names rest st = (if hn \<in> set names then snd (cal hn rest st) else st)"
  by (induction names) (auto simp: callNames_absent split: prod.splits)

lemma objNameOf_item:
  assumes "distinct (map siFileName items)" and "it \<in> set items"
  shows "objNameOf items (siFileName it) = siObjectName it"
proof -
  have keep: "foldl (\<lambda>ob i. if siFileName i = f then siObjectName i else ob) a is = a"
    if "f \<notin> siFileName ` set is" for f a "is"
    using that by (induction "is" arbitrary: a) auto
  have "foldl (\<lambda>ob i. if siFileName i = siFileName it then siObjectName i else ob) a items = siObjectName it" for a
    using assms by (induction items arbitrary: a) (auto simp: keep)
  then show ?thesis by (simp add: objNameOf_def)
qed

text \<open>When every put succeeds, the archive is gone through once and every chosen entry stored.\<close>

lemma extract_saves:
  assumes "\<And>b k c. putError m b k c = None" and "distinct names"
  shows "let st' = extractToLoop (saveCal m param) names hs st;
             chosen = filter (\<lambda>h. hdrName h \<in> set names) hs in
     savedNames st' = savedNames st @ map hdrName chosen \<and> unSavedNames st' = unSavedNames st \<and> errText st' = errText st \<and>
     objects st' = foldl (\<lambda>ob h. ob(objKey param (hdrName h) \<mapsto> body h)) (objects st) chosen"
proof (induction hs arbitrary: st)
  case (Cons h hs)
  have step: "snd (saveCal m param n r st) =
      st\<lparr>objects := (objects st)(objKey param n \<mapsto> r), savedNames := savedNames st @ [n]\<rparr>" for n r
    by (simp add: saveCal_def assms(1))
  show ?case
    using Cons.IH [of "callNames (saveCal m param) (hdrName h) names (body h) st"]
    by (simp add: callNames_distinct assms(2) step Let_def fun_upd_def)
qed simp

lemma foldl_upd:
  "foldl (\<lambda>ob h. ob(f h \<mapsto> g h)) ob hs k = (case map_of (rev (map (\<lambda>h. (f h, g h)) hs)) k of Some v \<Rightarrow> Some v | None \<Rightarrow> ob k)"
  by (induction hs arbitrary: ob) (auto simp: map_add_def split: option.splits)

lemma foldl_upd_distinct:
  assumes "distinct (map f hs)" and "h \<in> set hs"
  shows "foldl (\<lambda>ob h. ob(f h \<mapsto> g h)) ob hs (f h) = Some (g h)"
proof -
  have "map_of (rev (map (\<lambda>h. (f h, g h)) hs)) (f h) = Some (g h)"
    using assms by (intro map_of_is_SomeI) (auto simp: rev_map [symmetric] comp_def)
  then show ?thesis by (simp add: foldl_upd)
qed

lemma foldl_upd_other: "k \<notin> f ` set hs \<Longrightarrow> foldl (\<lambda>ob h. ob(f h \<mapsto> g h)) ob hs k = ob k"
  by (induction hs arbitrary: ob) auto

text \<open>C19: saving model files stores what the archive holds. For a signed request whose items name
  different files and different objects, with a store that accepts every object and an archive with
  one entry per name, every chosen file that is in the archive is afterwards stored, under its object
  name, with the content of its entry; no other object changes, and the answer lists the saved files
  in archive order. Files that are not in the archive are listed nowhere: \<open>NotFound\<close> stays empty.\<close>

theorem model_files_saved:
  assumes "RequestAndRedirect (md5hex env) (srvPort env) (srvKey env) req = HandleHere"
    and "\<And>a b c d. newClient (minioOf env) a b c d = None" and "\<And>b k c. putError (minioOf env) b k c = None"
    and "tarReader (tarOf env) (realFile env (HostPath p) (smFileName p)) = (hs, None)"
    and "distinct (map hdrName hs)" and "distinct (map siFileName (saveItems p))"
    and "distinct (map (\<lambda>it. trimCut (siObjectName it) ''/'') (saveItems p))" and "\<not> smAsync p"
  shows "(\<forall>it \<in> set (saveItems p). \<forall>h \<in> set hs. hdrName h = siFileName it \<longrightarrow>
            store (SaveModelFile env req (Some p) objs bks) (ObjectBucket p, trimCut (siObjectName it) ''/'') = Some (body h)) \<and>
         (\<forall>k. k \<notin> (\<lambda>it. (ObjectBucket p, trimCut (siObjectName it) ''/'')) ` set (saveItems p) \<longrightarrow>
            store (SaveModelFile env req (Some p) objs bks) k = objs k) \<and>
         saveAnswer (SaveModelFile env req (Some p) objs bks) = SUCCESS_RES [] (SaveRes
           \<lparr>UnSaved = [], Saved = map hdrName (filter (\<lambda>h. hdrName h \<in> siFileName ` set (saveItems p)) hs),
            NotFound = [], ErrorMessage = []\<rparr>) emptyResponse"
proof -
  let ?names = "map siFileName (saveItems p)" and ?key = "\<lambda>it. (ObjectBucket p, trimCut (siObjectName it) ''/'')"
  let ?chosen = "filter (\<lambda>h. hdrName h \<in> set ?names) hs"
  let ?objs = "foldl (\<lambda>ob h. ob(objKey p (hdrName h) \<mapsto> body h)) objs ?chosen"
  obtain st where st: "doSave env p objs bks =
      (None, \<lparr>UnSaved = [], Saved = map hdrName ?chosen, NotFound = [], ErrorMessage = []\<rparr>, st)" "objects st = ?objs"
    using extract_saves [OF assms(3,6), where param = p and hs = hs] assms(4)
    by (auto simp: doSave_def ExtractFileTo_def Let_def simp del: set_map)
  then have eff: "store (SaveModelFile env req (Some p) objs bks) = ?objs"
      "saveAnswer (SaveModelFile env req (Some p) objs bks) = SUCCESS_RES [] (SaveRes
         \<lparr>UnSaved = [], Saved = map hdrName ?chosen, NotFound = [], ErrorMessage = []\<rparr>) emptyResponse"
    using assms(1,2,8) by (simp_all add: SaveModelFile_def redirected_def Let_def)
  have key: "objKey p (siFileName it) = ?key it" if "it \<in> set (saveItems p)" for it
    using objNameOf_item [OF assms(6) that] by (simp add: objKey_def)
  have "inj_on (objKey p) (set ?names)"
    using assms(7) by (auto simp: inj_on_def key distinct_map)
  then have "inj_on (objKey p) (set (map hdrName ?chosen))" by (rule inj_on_subset) auto
  then have "distinct (map (objKey p) (map hdrName ?chosen))"
    using distinct_map_filter [OF assms(5)] by (simp only: distinct_map simp_thms)
  then have dist: "distinct (map (\<lambda>h. objKey p (hdrName h)) ?chosen)" by (simp add: comp_def)
  have "?objs (?key it) = Some (body h)" if "it \<in> set (saveItems p)" "h \<in> set hs" "hdrName h = siFileName it" for it h
    using foldl_upd_distinct [OF dist, of h body objs] key [OF that(1)] that by auto
  moreover have "?objs k = objs k" if "k \<notin> ?key ` set (saveItems p)" for k
    by (rule foldl_upd_other) (use that key in auto)
  ultimately show ?thesis unfolding eff by auto
qed

definition demoModelEnv :: modelEnv where
  "demoModelEnv =
     \<lparr>md5hex = (\<lambda>s. s), srvPort = 80, srvKey = ''k'', mBaseDir = ''/host'', mLstat = (\<lambda>_. Plain), mStat = (\<lambda>_. None),
      tarOf = demoTar, minioOf = \<lparr>newClient = (\<lambda>_ _ _ _. None), bucketExists = (\<lambda>_. True), putError = (\<lambda>_ _ _. None)\<rparr>\<rparr>"

definition demoSave :: SaveModeParam where
  "demoSave =
     \<lparr>HostPath = ''/m'', smFileName = ''a.tar'', MinioEndpoint = ''http://s'', ObjectBucket = ''b'', AccessKey = [],
      SecretKey = [], saveItems = [\<lparr>siFileName = ''d/a'', siObjectName = ''/o''\<rparr>], CallBack = [], smAsync = False\<rparr>"

definition demoSigned :: signedReq where
  "demoSigned = \<lparr>TargetHost = [], timestamp = ''1'', sign = ''1_k''\<rparr>"

definition demoUnsigned :: signedReq where
  "demoUnsigned = \<lparr>TargetHost = [], timestamp = [], sign = []\<rparr>"

lemma demo_gate:
  "RequestAndRedirect (md5hex demoModelEnv) (srvPort demoModelEnv) (srvKey demoModelEnv) demoSigned = HandleHere"
  "RequestAndRedirect (md5hex demoModelEnv) (srvPort demoModelEnv) (srvKey demoModelEnv) demoUnsigned = AuthFail"
  by (simp_all add: RequestAndRedirect_def demoModelEnv_def demoSigned_def demoUnsigned_def)

lemma demo_archive:
  "tarReader (tarOf demoModelEnv) f =
     ([\<lparr>hdrName = ''d'', hdrSize = 0, hdrModTime = 1, isDir = True, body = []\<rparr>,
       \<lparr>hdrName = ''d/a'', hdrSize = 2, hdrModTime = 1, isDir = False, body = [7, 8]\<rparr>], None)"
  by (simp add: tarReader_def demoModelEnv_def demoTar_def)

theorem model_files_saved_witness:
  "store (SaveModelFile demoModelEnv demoSigned (Some demoSave) (\<lambda>_. None) {}) (''b'', ''o'') = Some [7, 8]"
proof -
  have "trimCut ''/o'' ''/'' = ''o''" by code_simp
  then show ?thesis
    using model_files_saved [OF demo_gate(1) _ _ demo_archive, of demoSave "\<lambda>_. None" "{}"]
    by (simp add: demoModelEnv_def demoSave_def)
qed

text \<open>A request that fails the signature check still saves. The refusal is written to the answer,
  but the handler goes on: the objects stored and the callback sent are those of the same request with
  a valid signature. (\<open>ListModelFile\<close>, with the other guard, answers the refusal only.)\<close>

theorem unsigned_request_saves:
  assumes "RequestAndRedirect (md5hex env) (srvPort env) (srvKey env) bad = AuthFail"
    and "RequestAndRedirect (md5hex env) (srvPort env) (srvKey env) good = HandleHere"
  shows "store (SaveModelFile env bad param objs bks) = store (SaveModelFile env good param objs bks) \<and>
    saveCallback (SaveModelFile env bad param objs bks) = saveCallback (SaveModelFile env good param objs bks) \<and>
    ListModelFile env bad lparam = (FAIL_RES ''auth fail'' NoModel emptyResponse, False)"
  using assms
  by (auto simp: SaveModelFile_def ListModelFile_def redirected_def Let_def split: option.splits prod.splits)

theorem unsigned_request_saves_witness:
  "store (SaveModelFile demoModelEnv demoUnsigned (Some demoSave) (\<lambda>_. None) {}) (''b'', ''o'') = Some [7, 8]"
proof -
  have "trimCut ''/o'' ''/'' = ''o''" by code_simp
  then have "\<exists>r st. doSave demoModelEnv demoSave (\<lambda>_. None) {} = (None, r, st) \<and> objects st (''b'', ''o'') = Some [7, 8]"
    unfolding doSave_def ExtractFileTo_def demo_archive
    by (simp add: saveCal_def objKey_def objNameOf_def demoModelEnv_def demoSave_def)
  then have "store (SaveModelFile demoModelEnv demoSigned (Some demoSave) (\<lambda>_. None) {}) (''b'', ''o'') = Some [7, 8]"
    unfolding SaveModelFile_def demo_gate
    by (auto simp: redirected_def demoModelEnv_def [THEN arg_cong [of _ _ minioOf]] demoSave_def [THEN arg_cong [of _ _ smAsync]])
  then show ?thesis
    using unsigned_request_saves [OF demo_gate(2) demo_gate(1), of "Some demoSave" "\<lambda>_. None" "{}" None] by simp
qed

text \<open>A file asked for under two object names is stored empty: both calls put to the object name of
  the last item, and the second finds the reader at its end.\<close>

theorem file_saved_twice_is_empty:
  assumes "\<And>b k c. putError m b k c = None"
    and "map siFileName (saveItems p) = [n, n]"
  shows "objects (callNames (saveCal m p) n (map siFileName (saveItems p)) content st)
           (ObjectBucket p, trimCut (siObjectName (last (saveItems p))) ''/'') = Some []"
proof -
  obtain i j where "saveItems p = [i, j]" "siFileName i = n" "siFileName j = n"
    using assms(2) by (cases "saveItems p"; cases "tl (saveItems p)") auto
  then show ?thesis by (simp add: saveCal_def assms(1) objKey_def objNameOf_def)
qed

theorem file_saved_twice_is_empty_witness:
  "objects (callNames (saveCal (minioOf demoModelEnv) (demoSave\<lparr>saveItems := [\<lparr>siFileName = ''d/a'', siObjectName = ''x''\<rparr>,
       \<lparr>siFileName = ''d/a'', siObjectName = ''y''\<rparr>]\<rparr>)) ''d/a'' [''d/a'', ''d/a''] [7, 8]
     \<lparr>objects = (\<lambda>_. None), buckets = {}, savedNames = [], unSavedNames = [], errText = []\<rparr>) (''b'', ''y'') = Some []"
proof -
  have "trimCut ''y'' ''/'' = ''y''" by code_simp
  then show ?thesis
    using file_saved_twice_is_empty [of "minioOf demoModelEnv" "demoSave\<lparr>saveItems := [\<lparr>siFileName = ''d/a'', siObjectName = ''x''\<rparr>,
       \<lparr>siFileName = ''d/a'', siObjectName = ''y''\<rparr>]\<rparr>" "''d/a''" "[7, 8]"
       "\<lparr>objects = (\<lambda>_. None), buckets = {}, savedNames = [], unSavedNames = [], errText = []\<rparr>"]
    by (simp add: demoModelEnv_def demoSave_def)
qed

end
