(* ===== verification/Go_Text.thy ===== *)
theory Go_Text
  imports Go_Prelude
begin

text \<open>
  Two encodings of Go's library the file services rely on: UTF-8 as \<open>unicode/utf8\<close> decodes and
  encodes it, an invalid or incomplete sequence giving the replacement character for one byte, and
  the query escaping of \<open>net/url\<close>; and the path that a server reads from a request line.
\<close>

section \<open>UTF-8\<close>

definition RuneError :: nat where "RuneError = 0xFFFD"

definition cont :: "byte \<Rightarrow> bool" where
  "cont b \<longleftrightarrow> 0x80 \<le> unat b \<and> unat b \<le> 0xBF"

text \<open>\<open>utf8.DecodeRune\<close> of a list that is not empty: the code point and how many bytes it took.\<close>

fun decodeRune :: "byte list \<Rightarrow> nat \<times> nat" where
  "decodeRune [] = (RuneError, 0)"
| "decodeRune (b0 # bs) =
     (let x = unat b0 in
      if x < 0x80 then (x, 1)
      else if 0xC2 \<le> x \<and> x \<le> 0xDF then
        (case bs of b1 # _ \<Rightarrow> if cont b1 then ((x - 0xC0) * 64 + (unat b1 - 0x80), 2) else (RuneError, 1)
                  | _ \<Rightarrow> (RuneError, 1))
      else if 0xE0 \<le> x \<and> x \<le> 0xEF then
        (case bs of b1 # b2 # _ \<Rightarrow>
             if cont b1 \<and> cont b2 \<and> (x = 0xE0 \<longrightarrow> 0xA0 \<le> unat b1) \<and> (x = 0xED \<longrightarrow> unat b1 \<le> 0x9F)
             then ((x - 0xE0) * 4096 + (unat b1 - 0x80) * 64 + (unat b2 - 0x80), 3) else (RuneError, 1)
           | _ \<Rightarrow> (RuneError, 1))
      else if 0xF0 \<le> x \<and> x \<le> 0xF4 then
        (case bs of b1 # b2 # b3 # _ \<Rightarrow>
             if cont b1 \<and> cont b2 \<and> cont b3 \<and> (x = 0xF0 \<longrightarrow> 0x90 \<le> unat b1) \<and> (x = 0xF4 \<longrightarrow> unat b1 \<le> 0x8F)
             then ((x - 0xF0) * 262144 + (unat b1 - 0x80) * 4096 + (unat b2 - 0x80) * 64 + (unat b3 - 0x80), 4)
             else (RuneError, 1)
           | _ \<Rightarrow> (RuneError, 1))
      else (RuneError, 1))"

definition validRune :: "nat \<Rightarrow> bool" where
  "validRune r \<longleftrightarrow> r < 0xD800 \<or> 0xDFFF < r \<and> r \<le> 0x10FFFF"

definition byteN :: "nat \<Rightarrow> byte" where "byteN n = of_nat n"

definition encodeRune :: "nat \<Rightarrow> byte list" where
  "encodeRune r0 =
     (let r = (if validRune r0 then r0 else RuneError) in
      if r < 0x80 then [byteN r]
      else if r < 0x800 then [byteN (0xC0 + r div 64), byteN (0x80 + r mod 64)]
      else if r < 0x10000 then [byteN (0xE0 + r div 4096), byteN (0x80 + r div 64 mod 64), byteN (0x80 + r mod 64)]
      else [byteN (0xF0 + r div 262144), byteN (0x80 + r div 4096 mod 64), byteN (0x80 + r div 64 mod 64),
            byteN (0x80 + r mod 64)])"

lemma decodeRune_size: "bs \<noteq> [] \<Longrightarrow> 0 < snd (decodeRune bs)"
  by (cases bs) (auto simp: Let_def split: list.splits)

lemma unat_byteN: "n < 256 \<Longrightarrow> unat (byteN n) = n"
  by (simp add: byteN_def unat_of_nat)

text \<open>Decoding what was encoded gives the code point back and takes exactly its bytes.\<close>

lemma decode_encodeRune:
  assumes "validRune r"
  shows "decodeRune (encodeRune r @ rest) = (r, length (encodeRune r))"
proof -
  consider "r < 0x80" | "0x80 \<le> r" "r < 0x800" | "0x800 \<le> r" "r < 0x10000" | "0x10000 \<le> r" "r \<le> 0x10FFFF"
    using assms by (fastforce simp: validRune_def)
  then show ?thesis
  proof cases
    case 1
    then show ?thesis using assms by (simp add: encodeRune_def Let_def unat_byteN)
  next
    case 2
    define q m where "q = r div 64" and "m = r mod 64"
    have r: "r = q * 64 + m" "m < 64" by (simp_all add: q_def m_def)
    with 2 assms show ?thesis
      unfolding encodeRune_def Let_def q_def [symmetric] m_def [symmetric]
      by (auto simp: unat_byteN cont_def Let_def)
  next
    case 3
    define q m where "q = r div 64" and "m = r mod 64"
    have r: "r = q * 64 + m" "m < 64" by (simp_all add: q_def m_def)
    define a b where "a = q div 64" and "b = q mod 64"
    have q: "q = a * 64 + b" "b < 64" by (simp_all add: a_def b_def)
    have div: "r div 4096 = a" by (simp add: a_def q_def div_mult2_eq [symmetric])
    have rr: "r = a * 4096 + b * 64 + m" using r(1) q(1) by simp
    have bounds: "a < 16" "a = 0 \<Longrightarrow> 32 \<le> b" using 3 rr r(2) q(2) by linarith+
    have surr: "b \<le> 31" if "a = 13"
      using assms rr r(2) q(2) that unfolding validRune_def by (elim disjE) linarith+
    have enc: "encodeRune r = [byteN (0xE0 + a), byteN (0x80 + b), byteN (0x80 + m)]"
      using 3 assms by (simp add: encodeRune_def div) (simp add: b_def q_def m_def)
    show ?thesis unfolding enc using bounds surr r(2) q(2)
      by (auto simp: unat_byteN cont_def Let_def rr)
  next
    case 4
    define q m where "q = r div 64" and "m = r mod 64"
    have r: "r = q * 64 + m" "m < 64" by (simp_all add: q_def m_def)
    define s b where "s = q div 64" and "b = q mod 64"
    have q: "q = s * 64 + b" "b < 64" by (simp_all add: s_def b_def)
    define a c where "a = s div 64" and "c = s mod 64"
    have s: "s = a * 64 + c" "c < 64" by (simp_all add: a_def c_def)
    have div: "r div 262144 = a" "r div 4096 = s" by (simp_all add: a_def s_def q_def div_mult2_eq [symmetric])
    have rr: "r = a * 262144 + c * 4096 + b * 64 + m" using r(1) q(1) s(1) by simp
    have bounds: "a < 5" "a = 0 \<Longrightarrow> 16 \<le> c" "a = 4 \<Longrightarrow> c \<le> 15" using 4 rr r(2) q(2) s(2) by linarith+
    have enc: "encodeRune r = [byteN (0xF0 + a), byteN (0x80 + c), byteN (0x80 + b), byteN (0x80 + m)]"
      using 4 assms by (simp add: encodeRune_def div) (simp add: c_def b_def q_def m_def)
    show ?thesis unfolding enc using bounds r(2) q(2) s(2)
      by (auto simp: unat_byteN cont_def Let_def rr)
  qed
qed

section \<open>Query escaping\<close>

definition unreserved :: "char \<Rightarrow> bool" where
  "unreserved c \<longleftrightarrow> (let x = of_char c :: nat in
     48 \<le> x \<and> x \<le> 57 \<or> 65 \<le> x \<and> x \<le> 90 \<or> 97 \<le> x \<and> x \<le> 122 \<or> x \<in> {45, 95, 46, 126})"

definition hexC :: "nat \<Rightarrow> char" where
  "hexC d = ''0123456789ABCDEF'' ! d"

definition escapeC :: "char \<Rightarrow> string" where
  "escapeC c =
     (if unreserved c then [c] else if c = CHR '' '' then ''+''
      else [CHR ''%'', hexC (of_char c div 16), hexC (of_char c mod 16)])"

definition QueryEscape :: "string \<Rightarrow> string" where
  "QueryEscape s = concat (map escapeC s)"

definition unhex :: "char \<Rightarrow> nat option" where
  "unhex c = (let x = of_char c :: nat in
     if 48 \<le> x \<and> x \<le> 57 then Some (x - 48)
     else if 65 \<le> x \<and> x \<le> 70 then Some (x - 55)
     else if 97 \<le> x \<and> x \<le> 102 then Some (x - 87) else None)"

fun QueryUnescape :: "string \<Rightarrow> string option" where
  "QueryUnescape [] = Some []"
| "QueryUnescape (c # s) =
     (if c = CHR ''%'' then
        (case s of
           a # b # t \<Rightarrow>
             (case (unhex a, unhex b) of
                (Some x, Some y) \<Rightarrow> map_option ((#) (char_of (x * 16 + y))) (QueryUnescape t)
              | _ \<Rightarrow> None)
         | _ \<Rightarrow> None)
      else map_option ((#) (if c = CHR ''+'' then CHR '' '' else c)) (QueryUnescape s))"

lemma unhex_hexC: "d < 16 \<Longrightarrow> unhex (hexC d) = Some d"
proof -
  have "\<forall>d \<in> set [0..<16]. unhex (hexC d) = Some d" by code_simp
  then show "d < 16 \<Longrightarrow> unhex (hexC d) = Some d" by simp
qed

lemma unescape_escapeC: "QueryUnescape (escapeC c @ s) = map_option ((#) c) (QueryUnescape s)"
proof -
  have "(of_char c :: nat) < 256" by (rule nat_of_char_less_256)
  then have "(of_char c :: nat) div 16 < 16" "(of_char c :: nat) mod 16 < 16" by (simp_all add: less_mult_imp_div_less)
  moreover have "unreserved c \<Longrightarrow> c \<noteq> CHR ''%'' \<and> c \<noteq> CHR ''+''" by (auto simp: unreserved_def)
  moreover have "char_of ((of_char c :: nat) div 16 * 16 + of_char c mod 16) = c" by simp
  ultimately show ?thesis by (auto simp: escapeC_def unhex_hexC)
qed

text \<open>Unescaping inverts escaping, for every string.\<close>

lemma unescape_escape [simp]: "QueryUnescape (QueryEscape s) = Some s"
proof (induction s)
  case (Cons c s)
  then show ?case by (simp add: QueryEscape_def unescape_escapeC)
qed (simp add: QueryEscape_def)

section \<open>Paths of requests\<close>

text \<open>The path of a request line: up to the question mark, with escapes resolved. A plus sign stands
  for itself.\<close>

fun PathUnescape :: "string \<Rightarrow> string option" where
  "PathUnescape [] = Some []"
| "PathUnescape (c # s) =
     (if c = CHR ''%'' then
        (case s of
           a # b # t \<Rightarrow>
             (case (unhex a, unhex b) of
                (Some x, Some y) \<Rightarrow> map_option ((#) (char_of (x * 16 + y))) (PathUnescape t)
              | _ \<Rightarrow> None)
         | _ \<Rightarrow> None)
      else map_option ((#) c) (PathUnescape s))"

definition requestPath :: "string \<Rightarrow> string option" where
  "requestPath url = PathUnescape (takeWhile (\<lambda>c. c \<noteq> CHR ''?'') url)"

definition plusBlank :: "string \<Rightarrow> string" where
  "plusBlank s = map (\<lambda>c. if c = CHR '' '' then CHR ''+'' else c) s"

lemma path_unescape_escapeC:
  "PathUnescape (escapeC c @ s) = map_option ((#) (if c = CHR '' '' then CHR ''+'' else c)) (PathUnescape s)"
proof -
  have "(of_char c :: nat) < 256" by (rule nat_of_char_less_256)
  then have "(of_char c :: nat) div 16 < 16" "(of_char c :: nat) mod 16 < 16" by (simp_all add: less_mult_imp_div_less)
  moreover have "unreserved c \<Longrightarrow> c \<noteq> CHR ''%'' \<and> c \<noteq> CHR '' ''" by (auto simp: unreserved_def)
  moreover have "char_of ((of_char c :: nat) div 16 * 16 + of_char c mod 16) = c" by simp
  ultimately show ?thesis by (auto simp: escapeC_def unhex_hexC)
qed

lemma path_unescape_escape: "PathUnescape (QueryEscape s @ t) = map_option ((@) (plusBlank s)) (PathUnescape t)"
proof (induction s)
  case (Cons c s)
  then show ?case
    by (simp add: QueryEscape_def plusBlank_def path_unescape_escapeC option.map_comp comp_def)
qed (simp add: QueryEscape_def plusBlank_def option.map_ident)

lemma path_unescape_plain: "CHR ''%'' \<notin> set s \<Longrightarrow> PathUnescape (s @ t) = map_option ((@) s) (PathUnescape t)"
  by (cases "PathUnescape t"; induction s) auto

lemma escape_no_question: "CHR ''?'' \<notin> set (QueryEscape s)"
proof -
  have hex: "d < 16 \<Longrightarrow> hexC d \<noteq> CHR ''?''" for d
  proof -
    have "\<forall>d \<in> set [0..<16]. hexC d \<noteq> CHR ''?''" by code_simp
    then show "d < 16 \<Longrightarrow> hexC d \<noteq> CHR ''?''" by simp
  qed
  have "CHR ''?'' \<notin> set (escapeC c)" for c
  proof -
    have "(of_char c :: nat) div 16 < 16" "(of_char c :: nat) mod 16 < 16"
      using nat_of_char_less_256 [of c] by (simp_all add: less_mult_imp_div_less)
    moreover have "unreserved c \<Longrightarrow> c \<noteq> CHR ''?''" by (auto simp: unreserved_def)
    ultimately show ?thesis using hex [of "of_char c div 16"] hex [of "of_char c mod 16"] by (auto simp: escapeC_def)
  qed
  then show ?thesis by (simp add: QueryEscape_def)
qed

lemma showInt_chars: "set (showInt i) \<subseteq> insert CHR ''-'' {digitC d | d. d < 10}" "showInt i \<noteq> []"
  using showNat_digits by (auto simp: showInt_def)

lemma digitC_plain: "d < 10 \<Longrightarrow> digitC d \<notin> {CHR ''%'', CHR ''?'', CHR ''/'', CHR ''.'', CHR '' ''}"
proof -
  have "\<forall>d \<in> set [0..<10]. digitC d \<notin> {CHR ''%'', CHR ''?'', CHR ''/'', CHR ''.'', CHR '' ''}" by code_simp
  then show "d < 10 \<Longrightarrow> digitC d \<notin> {CHR ''%'', CHR ''?'', CHR ''/'', CHR ''.'', CHR '' ''}" by simp
qed

lemma showInt_plain: "c \<in> set (showInt i) \<Longrightarrow> c \<notin> {CHR ''%'', CHR ''?'', CHR ''/'', CHR ''.'', CHR '' ''}"
proof -
  assume "c \<in> set (showInt i)"
  then consider "c = CHR ''-''" | d where "c = digitC d" "d < 10" using showInt_chars(1) [of i] by blast
  then show ?thesis by cases (use digitC_plain in simp_all)
qed

lemma requestPath_escaped:
  assumes "CHR ''%'' \<notin> set pre" and "CHR ''?'' \<notin> set pre"
  shows "requestPath (pre @ QueryEscape s @ ''?'' @ q) = Some (pre @ plusBlank s)"
proof -
  have "takeWhile (\<lambda>c. c \<noteq> CHR ''?'') (pre @ QueryEscape s @ ''?'' @ q) = pre @ QueryEscape s"
    using assms(2) escape_no_question [of s] by (simp add: takeWhile_append)
  then show ?thesis
    using path_unescape_plain [OF assms(1)] path_unescape_escape [of s "[]"] by (simp add: requestPath_def)
qed

end
