(* ===== verification/Pod_File.thy ===== *)
theory Pod_File
  imports Go_Text Docker_Log Project_Quota
begin

text \<open>
  The files of pods, \<open>pod_file/PodFileExporter.go\<close>: the directory of a container on the node, the
  listing of its files with a token for each, and the tailing of a file over a websocket: the last
  2000 lines first, then what is appended, code point by code point, and again from the file that replaces it.
  Kubernetes, Docker, the file system and JSON are arguments.
\<close>

section \<open>The directory of a container\<close>

record podFileEnv =
  listByName :: "string \<Rightarrow> podStatus list option"
  imageGraph :: "string \<Rightarrow> (string, string) gomap option"
  containerGraph :: "string \<Rightarrow> string + (string, string) gomap"
  pfLstat :: "string \<Rightarrow> lstatRes"
  pfStat :: "string \<Rightarrow> oserr option"

datatype 'a fres = FOk 'a | FErr string | FPanic

text \<open>The text of an operating system error is not looked at by any caller.\<close>

definition realPath :: "podFileEnv \<Rightarrow> string \<Rightarrow> string \<Rightarrow> string fres" where
  "realPath env base p =
     (case FindRealPath (pfLstat env) (pfStat env) base p of Inr r \<Rightarrow> FOk r | Inl _ \<Rightarrow> FErr ''os error'')"

text \<open>The container of a pod is its first; a pod without a container status panics.\<close>

definition podContainer :: "podFileEnv \<Rightarrow> string \<Rightarrow> string \<Rightarrow> string option" where
  "podContainer env podName containerId =
     (if podName = [] then Some containerId
      else case listByName env (''metadata.name='' @ podName) of
             Some (pod # _) \<Rightarrow>
               (case ContainerStatuses pod of
                  [] \<Rightarrow> None
                | cs # _ \<Rightarrow> Some (trimPrefix (ContainerID cs) ''docker://''))
           | _ \<Rightarrow> Some containerId)"

definition dirOfGraph :: "string \<Rightarrow> (string, string) gomap \<Rightarrow> string" where
  "dirOfGraph key data = (case gm_get data key of Some v \<Rightarrow> v | None \<Rightarrow> [])"

definition getContainerDiffPath :: "podFileEnv \<Rightarrow> string \<Rightarrow> string \<Rightarrow> string \<Rightarrow> string \<Rightarrow> string fres" where
  "getContainerDiffPath env baseDir podName containerId0 imageName =
     (case podContainer env podName containerId0 of
        None \<Rightarrow> FPanic
      | Some containerId \<Rightarrow>
          (let target = (if containerId = []
                         then Inr (case imageGraph env imageName of None \<Rightarrow> [] | Some d \<Rightarrow> dirOfGraph ''UpperDir'' d)
                         else map_sum id (dirOfGraph ''MergedDir'') (containerGraph env containerId))
           in case target of
                Inl e \<Rightarrow> FErr e
              | Inr targetPath \<Rightarrow>
                  if targetPath = [] then FErr ''container path not found''
                  else realPath env baseDir targetPath))"

section \<open>Listing\<close>

record FileURLParam =
  fHost :: string
  fPath :: string
  fModTime :: int

record FileRes =
  frName :: string
  frModTime :: int
  frURL :: string
  frSize :: int

record dirEntry =
  deName :: string
  deIsDir :: bool
  deInfo :: "(int \<times> int) option"

definition API_FILE :: string where "API_FILE = ''/api/file/''"

text \<open>\<open>getHostIp\<close>: the environment variable, or the first address of the host's name.\<close>

definition getHostIp :: "string \<Rightarrow> string option \<Rightarrow> (string \<Rightarrow> string list option) \<Rightarrow> string option" where
  "getHostIp envIp hostname lookup =
     (if envIp \<noteq> [] then Some envIp
      else case hostname of
             None \<Rightarrow> Some []
           | Some h \<Rightarrow> (case lookup h of None \<Rightarrow> Some [] | Some [] \<Rightarrow> None | Some (a # _) \<Rightarrow> Some a))"

text \<open>\<open>token\<close> is \<open>GeneratorJWTToken\<close> of the marshalled parameter.\<close>

definition fileRes :: "(FileURLParam \<Rightarrow> string) \<Rightarrow> string \<Rightarrow> string \<Rightarrow> dirEntry \<Rightarrow> FileRes option" where
  "fileRes token host path e =
     (if deIsDir e then None
      else case deInfo e of
             None \<Rightarrow> None
           | Some (modTime, sz) \<Rightarrow>
               (let f = \<lparr>fHost = host, fPath = pathJoin [path, deName e], fModTime = modTime\<rparr>
                in Some \<lparr>frName = deName e, frModTime = modTime,
                         frURL = API_FILE @ showInt modTime @ ''/'' @ QueryEscape (deName e) @ ''?token='' @ QueryEscape (token f),
                         frSize = sz\<rparr>))"

definition podPath :: "podFileEnv \<Rightarrow> string \<Rightarrow> string \<Rightarrow> string \<Rightarrow> string \<Rightarrow> string \<Rightarrow> string \<Rightarrow> string fres" where
  "podPath env baseDir podName containerId imageName containerPath hostPath =
     (if hostPath \<noteq> [] then (case realPath env baseDir hostPath of FOk p \<Rightarrow> FOk p | _ \<Rightarrow> FErr [])
      else case getContainerDiffPath env baseDir podName containerId imageName of
             FOk root \<Rightarrow> realPath env root containerPath
           | r \<Rightarrow> r)"

definition GetPodFiles ::
  "podFileEnv \<Rightarrow> (FileURLParam \<Rightarrow> string) \<Rightarrow> string \<Rightarrow> (string \<Rightarrow> dirEntry list) \<Rightarrow>
   string \<Rightarrow> string \<Rightarrow> string \<Rightarrow> string \<Rightarrow> string \<Rightarrow> string \<Rightarrow> FileRes list fres" where
  "GetPodFiles env token host readDir baseDir podName containerId imageName containerPath hostPath =
     (case podPath env baseDir podName containerId imageName containerPath hostPath of
        FErr e \<Rightarrow> FErr e
      | FPanic \<Rightarrow> FPanic
      | FOk path \<Rightarrow> FOk (List.map_filter (fileRes token host path) (readDir path)))"

section \<open>Tailing\<close>

text \<open>\<open>utils.LogMessage\<close>.\<close>

definition LogMessage :: "byte list \<Rightarrow> byte list" where
  "LogMessage m = LOG_MESSAGE @ m"

text \<open>The lines \<open>ReadBytes\<close> gives, the last possibly without its newline.\<close>

function lines :: "byte list \<Rightarrow> byte list list" where
  "lines bs =
     (if bs = [] then []
      else if 10 \<in> set bs
      then (takeWhile (\<lambda>b. b \<noteq> 10) bs @ [10]) # lines (tl (dropWhile (\<lambda>b. b \<noteq> 10) bs))
      else [bs])"
  by pat_completeness auto
termination
proof (relation "measure length", goal_cases)
  case (2 bs)
  then show ?case using length_dropWhile_le [of "\<lambda>b. b \<noteq> 10" bs] by (cases bs) (auto simp: less_Suc_eq_le)
qed simp

text \<open>The loop that keeps the last 2000 of them.\<close>

fun keepLast :: "byte list list \<Rightarrow> byte list list \<Rightarrow> byte list list" where
  "keepLast kept [] = kept"
| "keepLast kept (l # ls) =
     (let kept' = kept @ [l] in keepLast (if length kept' > 2000 then tl kept' else kept') ls)"

definition firstMessage :: "byte list \<Rightarrow> byte list list" where
  "firstMessage content =
     (let kept = keepLast [] (lines content) in if kept \<noteq> [] then [LogMessage (concat kept)] else [])"

text \<open>The runes read until the data runs out, each encoded again.\<close>

function transcode :: "byte list \<Rightarrow> byte list" where
  "transcode bs =
     (if bs = [] then []
      else case decodeRune bs of (r, n) \<Rightarrow> encodeRune r @ transcode (drop n bs))"
  by pat_completeness auto
termination
proof (relation "measure length", goal_cases)
  case (2 bs r n)
  then show ?case using decodeRune_size [of bs] by (simp add: diff_less flip: 2(2))
qed simp

declare lines.simps [simp del] transcode.simps [simp del]

text \<open>A round of following: whether the context is done; what was appended since; what \<open>os.Stat\<close> of
  the path says then. When the file is gone or another one, the loop returns at once.\<close>

fun follow :: "nat \<Rightarrow> (bool \<times> byte list \<times> nat option) list \<Rightarrow> byte list list" where
  "follow ino [] = []"
| "follow ino ((ctxDone, new, st) # rs) =
     (if ctxDone \<or> st = None \<or> st \<noteq> Some ino then []
      else (if new \<noteq> [] then [LogMessage (transcode new)] else []) @ follow ino rs)"

text \<open>Waiting for the file, every two seconds: the content and inode of the opened file, if any. A
  context that is done ends the waiting with nothing opened, and the nil file information is read.\<close>

datatype tailed = TailWaiting | TailPanic | Tailed "byte list list"

fun dotail :: "(bool \<times> (byte list \<times> nat) option) list \<Rightarrow> (bool \<times> byte list \<times> nat option) list \<Rightarrow> tailed" where
  "dotail [] rs = TailWaiting"
| "dotail ((True, _) # ws) rs = TailPanic"
| "dotail ((False, None) # ws) rs = dotail ws rs"
| "dotail ((False, Some (content, ino)) # ws) rs = Tailed (firstMessage content @ follow ino rs)"

text \<open>\<open>TailFile\<close> tails again when \<open>dotail\<close> returns, which it does when the file was removed or replaced,
  until the context is done. The messages sent and how it stands: returned, still waiting for the file,
  still following, or the panic.\<close>

datatype tailStands = TailReturned | TailWaits | TailFollows | TailCrashed

fun TailFile :: "(bool \<times> (bool \<times> (byte list \<times> nat) option) list \<times> (bool \<times> byte list \<times> nat option) list) list \<Rightarrow>
  byte list list \<times> tailStands" where
  "TailFile [] = ([], TailFollows)"
| "TailFile ((ctxDone, ws, rs) # rounds) =
     (if ctxDone then ([], TailReturned)
      else case dotail ws rs of
             TailWaiting \<Rightarrow> ([], TailWaits)
           | TailPanic \<Rightarrow> ([], TailCrashed)
           | Tailed ms \<Rightarrow> (case TailFile rounds of (ms', e) \<Rightarrow> (ms @ ms', e)))"

definition TailContainerFile ::
  "podFileEnv \<Rightarrow> string \<Rightarrow> string \<Rightarrow> string \<Rightarrow> (string \<Rightarrow> byte list list \<times> tailStands) \<Rightarrow> (byte list list \<times> tailStands) fres" where
  "TailContainerFile env baseDir containerId containerFilePath tail =
     (case getContainerDiffPath env baseDir [] containerId [] of
        FOk diffPath \<Rightarrow>
          (case realPath env diffPath containerFilePath of FOk p \<Rightarrow> FOk (tail p) | FErr e \<Rightarrow> FErr e | FPanic \<Rightarrow> FPanic)
      | FErr e \<Rightarrow> FErr e
      | FPanic \<Rightarrow> FPanic)"

section \<open>What a tail shows\<close>

lemma concat_lines [simp]: "concat (lines bs) = bs"
proof (induction bs rule: lines.induct)
  case (1 bs)
  have "takeWhile (\<lambda>b. b \<noteq> 10) bs @ 10 # tl (dropWhile (\<lambda>b. b \<noteq> 10) bs) = bs" if "10 \<in> set bs"
  proof -
    have "dropWhile (\<lambda>b. b \<noteq> 10) bs \<noteq> []" using that by (auto simp: dropWhile_eq_Nil_conv)
    then have "10 # tl (dropWhile (\<lambda>b. b \<noteq> 10) bs) = dropWhile (\<lambda>b. b \<noteq> 10) bs"
      using hd_dropWhile [of "\<lambda>b. b \<noteq> 10" bs] by (metis (mono_tags, lifting) list.collapse)
    then show ?thesis by (metis takeWhile_dropWhile_id)
  qed
  with 1 show ?case by (subst lines.simps) auto
qed

lemma keepLast_last: "length kept \<le> 2000 \<Longrightarrow> keepLast kept ls = drop (length (kept @ ls) - 2000) (kept @ ls)"
proof (induction ls arbitrary: kept)
  case (Cons l ls)
  show ?case
  proof (cases "length kept < 2000")
    case True
    then show ?thesis using Cons.IH [of "kept @ [l]"] by simp
  next
    case False
    then have len: "length kept = 2000" using Cons.prems by simp
    then obtain k ks where k: "kept = k # ks" by (cases kept) auto
    then show ?thesis using Cons.IH [of "ks @ [l]"] len by simp
  qed
qed simp

lemma lines_Nil_iff [simp]: "lines bs = [] \<longleftrightarrow> bs = []"
  by (subst lines.simps) simp

lemma transcode_rune:
  assumes "validRune r"
  shows "transcode (encodeRune r @ rest) = encodeRune r @ transcode rest"
proof -
  have "encodeRune r \<noteq> []" by (auto simp: encodeRune_def Let_def)
  then show ?thesis using decode_encodeRune [OF assms, of rest] by (subst transcode.simps) simp
qed

lemma transcode_valid:
  "\<forall>r \<in> set rs. validRune r \<Longrightarrow> transcode (concat (map encodeRune rs)) = concat (map encodeRune rs)"
proof (induction rs)
  case Nil
  show ?case by (subst transcode.simps) simp
qed (simp add: transcode_rune)

lemma follow_valid:
  assumes "\<forall>(d, new, st) \<in> set rs. \<not> d \<and> st = Some ino \<and> (\<exists>us. new = concat (map encodeRune us) \<and> (\<forall>u \<in> set us. validRune u))"
  shows "concat (map (drop 4) (follow ino rs)) = concat (map (fst \<circ> snd) rs)"
  using assms
proof (induction rs)
  case (Cons r rs)
  obtain d new st where r: "r = (d, new, st)" by (cases r)
  with Cons.prems obtain us where "new = concat (map encodeRune us)" "\<forall>u \<in> set us. validRune u" "\<not> d" "st = Some ino" by auto
  then have "transcode new = new" "\<not> d" "st = Some ino" using transcode_valid by auto
  then show ?case using Cons r by (auto simp: LogMessage_def LOG_MESSAGE_def)
qed simp

text \<open>A tailed file is shown from its last 2000 lines on. If the file can be opened and stays in
  place, and the text appended between two reads is whole UTF-8 characters, then the texts of the
  messages, put together, are exactly the last 2000 lines of the file when it was opened (all of it,
  if it has no more) followed by everything appended, unchanged and in order.\<close>

theorem tail_shows_file:
  assumes "\<forall>(d, new, st) \<in> set rs. \<not> d \<and> st = Some ino \<and> (\<exists>us. new = concat (map encodeRune us) \<and> (\<forall>u \<in> set us. validRune u))"
  shows "\<exists>ms. dotail (replicate k (False, None) @ [(False, Some (content, ino))]) rs = Tailed ms \<and>
     concat (map (drop 4) ms) =
       concat (drop (length (lines content) - 2000) (lines content)) @ concat (map (fst \<circ> snd) rs) \<and>
     (length (lines content) \<le> 2000 \<longrightarrow> concat (map (drop 4) ms) = content @ concat (map (fst \<circ> snd) rs))"
proof -
  have d: "dotail (replicate k (False, None) @ [(False, Some (content, ino))]) rs =
      Tailed (firstMessage content @ follow ino rs)" by (induction k) auto
  have kept: "keepLast [] (lines content) = drop (length (lines content) - 2000) (lines content)"
    using keepLast_last [of "[]" "lines content"] by simp
  have first: "concat (map (drop 4) (firstMessage content)) = concat (drop (length (lines content) - 2000) (lines content))"
    unfolding firstMessage_def Let_def kept by (auto simp: LogMessage_def LOG_MESSAGE_def simp del: drop_eq_Nil)
  show ?thesis using d first follow_valid [OF assms] by simp
qed

theorem tail_shows_file_witness:
  "\<exists>ms. dotail [(False, None), (False, Some ([104, 10], 7))] [(False, [0xC3, 0xA9], Some 7)] = Tailed ms \<and>
     concat (map (drop 4) ms) = [104, 10, 0xC3, 0xA9]"
proof -
  have e: "[0xC3, 0xA9] = concat (map encodeRune [0xE9])" "validRune 0xE9"
    by (simp_all add: encodeRune_def validRune_def byteN_def)
  have l: "lines [104, 10] = [[104, 10]]" by (simp add: lines.simps)
  have "\<forall>(d, new, st) \<in> set [(False, [0xC3, 0xA9], Some 7)].
      \<not> d \<and> st = Some (7::nat) \<and> (\<exists>us. new = concat (map encodeRune us) \<and> (\<forall>u \<in> set us. validRune u))"
    using e by (auto intro!: exI [of _ "[0xE9]"])
  from tail_shows_file [OF this, of 1 "[104, 10]"] l show ?thesis by simp
qed

text \<open>A file over time: its content and inode when it was opened, what was appended between two reads,
  and the read that finds it gone or replaced.\<close>

record tailedFile =
  tfWaits :: nat
  tfContent :: "byte list"
  tfInode :: nat
  tfAppended :: "byte list list"
  tfLast :: "byte list \<times> nat option"

definition tailRound :: "tailedFile \<Rightarrow> bool \<times> (bool \<times> (byte list \<times> nat) option) list \<times> (bool \<times> byte list \<times> nat option) list" where
  "tailRound f =
     (False, replicate (tfWaits f) (False, None) @ [(False, Some (tfContent f, tfInode f))],
      map (\<lambda>a. (False, a, Some (tfInode f))) (tfAppended f) @ [(False, fst (tfLast f), snd (tfLast f))])"

definition wholeRunes :: "byte list \<Rightarrow> bool" where
  "wholeRunes bs \<longleftrightarrow> (\<exists>us. bs = concat (map encodeRune us) \<and> (\<forall>u \<in> set us. validRune u))"

lemma follow_append:
  assumes "\<forall>(d, new, st) \<in> set rs. \<not> d \<and> st = Some ino"
  shows "follow ino (rs @ rs') = follow ino rs @ follow ino rs'"
  using assms by (induction rs) auto

lemma firstMessage_text:
  "concat (map (drop 4) (firstMessage content)) = concat (drop (length (lines content) - 2000) (lines content))"
proof -
  have kept: "keepLast [] (lines content) = drop (length (lines content) - 2000) (lines content)"
    using keepLast_last [of "[]" "lines content"] by simp
  show ?thesis unfolding firstMessage_def Let_def kept by (auto simp: LogMessage_def LOG_MESSAGE_def simp del: drop_eq_Nil)
qed

lemma dotail_round:
  assumes "snd (tfLast f) \<noteq> Some (tfInode f)" and "\<forall>a \<in> set (tfAppended f). wholeRunes a"
  shows "\<exists>ms. (case tailRound f of (_, ws, rs) \<Rightarrow> dotail ws rs) = Tailed ms \<and>
    concat (map (drop 4) ms) = concat (drop (length (lines (tfContent f)) - 2000) (lines (tfContent f))) @ concat (tfAppended f)"
proof -
  let ?rs = "map (\<lambda>a. (False, a, Some (tfInode f))) (tfAppended f)"
  have d: "dotail (replicate k (False, None) @ [(False, Some (content, ino))]) rs = Tailed (firstMessage content @ follow ino rs)"
    for k content ino rs by (induction k) auto
  have "follow (tfInode f) (?rs @ [(False, fst (tfLast f), snd (tfLast f))]) = follow (tfInode f) ?rs"
    using assms(1) by (subst follow_append) (auto simp del: prod.collapse)
  moreover have "concat (map (drop 4) (follow (tfInode f) ?rs)) = concat (tfAppended f)"
    using follow_valid [of ?rs "tfInode f"] assms(2) by (auto simp: wholeRunes_def comp_def)
  ultimately show ?thesis using firstMessage_text by (simp add: tailRound_def d)
qed


definition firstLog :: tailedFile where
  "firstLog = \<lparr>tfWaits = 1, tfContent = [104, 10], tfInode = 7, tfAppended = [[0xC3, 0xA9]], tfLast = ([33], Some 8)\<rparr>"

definition secondLog :: tailedFile where
  "secondLog = \<lparr>tfWaits = 0, tfContent = [105, 10], tfInode = 8, tfAppended = [], tfLast = ([], None)\<rparr>"


text \<open>What following loses. A character whose bytes are appended in two writes is shown as one
  replacement character for each part; and what was appended between the last read of a file and its
  replacement by another one (a rotated log) is read and thrown away, since the loop returns before
  sending it.\<close>

theorem tail_loses_text:
  assumes "ino' \<noteq> ino"
  shows "follow ino [(False, new, Some ino')] = [] \<and>
    follow ino [(False, [0xC3], Some ino), (False, [0xA9], Some ino)] =
      [LogMessage (encodeRune RuneError), LogMessage (encodeRune RuneError)] \<and>
    follow ino [(False, [0xC3, 0xA9], Some ino)] = [LogMessage [0xC3, 0xA9]]"
proof -
  have part: "transcode [0xC3] = encodeRune RuneError" "transcode [0xA9] = encodeRune RuneError"
    by (simp_all add: transcode.simps)
  have "validRune 0xE9" "encodeRune 0xE9 = [0xC3, 0xA9]" by (simp_all add: encodeRune_def validRune_def byteN_def)
  then have "transcode [0xC3, 0xA9] = [0xC3, 0xA9]" using transcode_valid [of "[0xE9]"] by simp
  with part assms show ?thesis by simp
qed

theorem tail_loses_text_witness: "follow 7 [(False, [104, 105], Some 8)] = []"
  using tail_loses_text [of 8 7 "[104, 105]"] by simp

text \<open>A viewer that leaves before the file exists crashes the process: whenever the context is
  done while the goroutine still waits for the file, the nil file information is read, and nothing
  recovers.\<close>

theorem leaving_before_file_exists_panics:
  "dotail (replicate k (False, None) @ (True, f) # ws) rs = TailPanic"
  by (induction k) auto

text \<open>A host path is not confined to the base directory. Components \<open>..\<close> are joined like any
  other, so the files of a directory beside the base directory are listed, with tokens to fetch them.\<close>

theorem host_path_escapes_base:
  assumes "pfLstat env = (\<lambda>_. Plain)"
  shows "podPath env ''/host'' podName containerId imageName containerPath ''/../etc'' = FOk ''/etc''"
proof -
  have "FindRealPath (\<lambda>_. Plain) (\<lambda>_. None) ''/host'' ''/../etc'' = Inr ''/etc''" by code_simp
  moreover have "resolveFrom (\<lambda>_. Plain) stat prefix cs d = resolveFrom (\<lambda>_. Plain) (\<lambda>_. None) prefix cs d" for stat prefix cs d
    by (induction cs arbitrary: d) (simp_all add: Let_def)
  then have "FindRealPath (\<lambda>_. Plain) stat base p = FindRealPath (\<lambda>_. Plain) (\<lambda>_. None) base p" for stat base p
    unfolding FindRealPath_def Let_def by simp
  ultimately have "FindRealPath (\<lambda>_. Plain) (pfStat env) ''/host'' ''/../etc'' = Inr ''/etc''" by metis
  then show ?thesis using assms by (simp add: podPath_def realPath_def)
qed

definition demoFiles :: podFileEnv where
  "demoFiles = \<lparr>listByName = (\<lambda>_. None), imageGraph = (\<lambda>_. None), containerGraph = (\<lambda>_. Inl []),
     pfLstat = (\<lambda>_. Plain), pfStat = (\<lambda>_. None)\<rparr>"

theorem host_path_escapes_base_witness:
  "podPath demoFiles ''/host'' [] [] [] [] ''/../etc'' = FOk ''/etc''"
  using host_path_escapes_base [of demoFiles "[]" "[]" "[]" "[]"] by (simp add: demoFiles_def)

end
