(* ===== verification/File_Service.thy ===== *)
theory File_Service
  imports Pod_File Quota_Service
begin

text \<open>
  The file handlers of \<open>Service/FileService.go\<close>: listing the files of a pod, fetching one by its
  token, and tailing one, here or on the node it lies on. Tokens and the forwarding conventions are
  those of \<open>Quota_Service\<close>; the exporter is \<open>Pod_File\<close>. HTTP and websocket connections to other
  nodes are arguments.
\<close>

section \<open>Requests\<close>

record FilesReq =
  fqToken :: string
  fqPodName :: string
  fqContainerId :: string
  fqImageName :: string
  fqHostPath :: string
  fqContainerPath :: string

definition noFilesReq :: FilesReq where
  "noFilesReq = \<lparr>fqToken = [], fqPodName = [], fqContainerId = [], fqImageName = [], fqHostPath = [], fqContainerPath = []\<rparr>"

text \<open>The surroundings: the crypto and node settings of \<open>svc\<close>, the exporter's, JSON of file
  parameters, whether a URL makes a request, and the answer of the other node.\<close>

record fileSvc =
  fsSvc :: svc
  fsEnv :: podFileEnv
  fsBaseDir :: string
  fsHostIp :: string
  fsReadDir :: "string \<Rightarrow> dirEntry list"
  marshalFile :: "FileURLParam \<Rightarrow> byte list"
  unmarshalFile :: "byte list \<Rightarrow> FileURLParam option"
  urlOk :: "string \<Rightarrow> bool"
  listRemote :: "string \<Rightarrow> FilesReq \<Rightarrow> (nat \<times> string) option"

datatype filesMsg = FilesAuth message | FilesText string

type_synonym filesResponse = "(filesMsg, FileRes list option) response"

record filesEffects =
  fAnswer :: filesResponse
  fSent :: "(string \<times> FilesReq) list"
  fPanic :: bool

definition fileToken :: "fileSvc \<Rightarrow> FileURLParam \<Rightarrow> string" where
  "fileToken s f =
     (case GeneratorJWTToken (Enc (fsSvc s)) (secretKey (fsSvc s)) (nextIV (fsSvc s)) (marshalFile s f) of
        Ret t \<Rightarrow> t | _ \<Rightarrow> [])"

definition API_FILES :: string where "API_FILES = ''/api/listFiles''"

section \<open>Listing and fetching\<close>

text \<open>A request that does not parse is an empty one. The expiration in the claims is not looked at.\<close>

definition PodFilesHandler :: "fileSvc \<Rightarrow> FilesReq option \<Rightarrow> filesEffects" where
  "PodFilesHandler s req =
     (let param = (case req of Some p \<Rightarrow> p | None \<Rightarrow> noFilesReq);
          answered = (\<lambda>a. \<lparr>fAnswer = a, fSent = [], fPanic = False\<rparr>) in
      case authenticate (fsSvc s) (fqToken param) of
        Inl m \<Rightarrow> answered (Http_Reply.Write (ErrorText (FilesAuth m)) (WriteHeader 401 emptyResponse))
      | Inr hostParam \<Rightarrow>
          if AHost hostParam = ''localhost'' then
            (case GetPodFiles (fsEnv s) (fileToken s) (fsHostIp s) (fsReadDir s) (fsBaseDir s) (fqPodName param)
                    (fqContainerId param) (fqImageName param) (fqContainerPath param) (fqHostPath param) of
               FErr e \<Rightarrow> answered (FAIL_RES (FilesText e) None emptyResponse)
             | FOk files \<Rightarrow> answered (SUCCESS_RES [] (Some files) emptyResponse)
             | FPanic \<Rightarrow> \<lparr>fAnswer = emptyResponse, fSent = [], fPanic = True\<rparr>)
          else
            (let claims = \<lparr>AHost = ''localhost'', AExpirationTime = nowMilli (fsSvc s) + 2000\<rparr> in
             case GeneratorJWTToken (Enc (fsSvc s)) (secretKey (fsSvc s)) (nextIV (fsSvc s)) (marshalAuth (fsSvc s) claims) of
               Ret t \<Rightarrow>
                 (let p = param\<lparr>fqToken := t\<rparr>; url = GetURLByHost (fsSvc s) (AHost hostParam) @ API_FILES in
                  if \<not> urlOk s url
                  then \<lparr>fAnswer = Http_Reply.Write (ErrorText (FilesText ''Error creating request'')) (WriteHeader 500 emptyResponse),
                        fSent = [], fPanic = True\<rparr>
                  else \<lparr>fAnswer = (case listRemote s url p of
                                     Some (code, b) \<Rightarrow> Http_Reply.Write (RemoteBody b) (WriteHeader code emptyResponse)
                                   | None \<Rightarrow> FAIL_RES (FilesText ''request failed'') None emptyResponse),
                        fSent = [(url, p)], fPanic = False\<rparr>)
             | _ \<Rightarrow> \<lparr>fAnswer = emptyResponse, fSent = [], fPanic = True\<rparr>))"

text \<open>\<open>PodFileHandler\<close>: the error of the token is overwritten by that of the decoder, which gets no
  bytes then. The path of the request is passed on, not used.\<close>

datatype fileOutcome = FileNotFound | ServeFile string | ForwardTo string string

definition tokenBytes :: "svc \<Rightarrow> string \<Rightarrow> byte list" where
  "tokenBytes s token = (case AuthJWTToken (Dec s) (secretKey s) token of Ret r \<Rightarrow> r | _ \<Rightarrow> [])"

definition PodFileHandler :: "fileSvc \<Rightarrow> string \<Rightarrow> string \<Rightarrow> fileOutcome" where
  "PodFileHandler s urlPath token =
     (case unmarshalFile s (tokenBytes (fsSvc s) token) of
        None \<Rightarrow> FileNotFound
      | Some p \<Rightarrow>
          if fHost p = ''localhost'' then ServeFile (fPath p)
          else let t = fileToken s (p\<lparr>fHost := ''localhost''\<rparr>);
                   url = GetURLByHost (fsSvc s) (fHost p) @ API_FILE @ QueryEscape (trimPrefix urlPath API_FILE) @
                           ''?token='' @ QueryEscape t
               in if \<not> urlOk s url then FileNotFound else ForwardTo url t)"

text \<open>The status of a forwarded request.\<close>

definition relayStatus :: "nat option \<Rightarrow> nat" where
  "relayStatus st = (case st of None \<Rightarrow> 404 | Some c \<Rightarrow> if c = 301 then 404 else c)"

section \<open>Tailing\<close>

text \<open>One round of \<open>TailFileHandler\<close>: the pods found, and how long was waited. A pod without a
  container status is indexed all the same.\<close>

datatype tailRound = RoundPanic | RoundWaits nat "byte list" | RoundTails "byte list list" string string

definition tailHandlerRound :: "podStatus list option \<Rightarrow> nat \<Rightarrow> tailRound" where
  "tailHandlerRound pods waitingtime =
     (let waits = RoundWaits (waitingtime + 5)
            (LogMessage (bytesOf (CR @ ''waiting container start '' @ showNat (waitingtime + 5) @ ''s''))) in
      case pods of
        Some (pod # _) \<Rightarrow>
          (case ContainerStatuses pod of
             [] \<Rightarrow> RoundPanic
           | cs # _ \<Rightarrow>
               (let containerId = trimPrefix (ContainerID cs) ''docker://'' in
                if containerId \<noteq> []
                then RoundTails (if waitingtime > 0 then [LogMessage (bytesOf (CR @ replicate 64 CHR '' ''))] else [])
                       (HostIP pod) containerId
                else waits))
      | _ \<Rightarrow> waits)"

definition INTER_TAIL_FILE :: string where "INTER_TAIL_FILE = ''/inter/tailFile''"

definition remoteTailURL :: "int \<Rightarrow> string \<Rightarrow> string \<Rightarrow> string \<Rightarrow> string" where
  "remoteTailURL port host containerId containerPath =
     ''ws://'' @ host @ '':'' @ showInt port @ INTER_TAIL_FILE @ ''?containerId='' @ QueryEscape containerId @
     ''&containerPath='' @ QueryEscape containerPath"

text \<open>\<open>doRemoteTail\<close> relays the messages of the other node.\<close>

definition doRemoteTail :: "dialRes \<Rightarrow> (bool \<times> string) \<times> byte list list" where
  "doRemoteTail d =
     (case d of
        DialFailed st err \<Rightarrow> if st = Some 204 then ((False, ''not content''), []) else ((True, err), [])
      | Dialled ms err \<Rightarrow> ((True, err), ms))"

text \<open>\<open>TailFileHandler\<close> over the rounds made: \<open>dial\<close> is the connection to a host for a container. The
  messages sent to the viewer; \<open>None\<close> when the goroutine panicked.\<close>

fun tailRounds ::
  "(string \<Rightarrow> string \<Rightarrow> dialRes) \<Rightarrow> nat \<Rightarrow> podStatus list option list \<Rightarrow> byte list list option" where
  "tailRounds dial w [] = Some []"
| "tailRounds dial w (pods # rs) =
     (case tailHandlerRound pods w of
        RoundPanic \<Rightarrow> None
      | RoundWaits w' m \<Rightarrow> map_option ((#) m) (tailRounds dial w' rs)
      | RoundTails clear host cid \<Rightarrow>
          map_option (\<lambda>ms. clear @ snd (doRemoteTail (dial host cid)) @ ms) (tailRounds dial w rs))"

datatype tailAnswer = TailUnauthorized | TailNotUpgraded | TailRan "byte list list option"

definition TailFileHandler ::
  "svc \<Rightarrow> (byte list \<Rightarrow> (string \<times> string \<times> string) option) \<Rightarrow> bool \<Rightarrow>
   (string \<Rightarrow> string \<Rightarrow> string \<Rightarrow> dialRes) \<Rightarrow> (string \<Rightarrow> string \<Rightarrow> podStatus list option list) \<Rightarrow> string \<Rightarrow> tailAnswer" where
  "TailFileHandler s unmarshalTail upgrades dial observe token =
     (case AuthJWTToken (Dec s) (secretKey s) token of
        Ret res \<Rightarrow>
          (case unmarshalTail res of
             None \<Rightarrow> TailUnauthorized
           | Some (containerPath, podLabel, namespace) \<Rightarrow>
               if \<not> upgrades then TailNotUpgraded
               else TailRan (tailRounds (\<lambda>host cid. dial host cid containerPath) 0 (observe namespace (''app='' @ podLabel))))
      | _ \<Rightarrow> TailUnauthorized)"

text \<open>\<open>TailFileInterHandler\<close>, the end of it on the container's node, takes the container and the path
  from the query and checks no token.\<close>

definition TailFileInterHandler ::
  "podFileEnv \<Rightarrow> string \<Rightarrow> (string \<Rightarrow> byte list list \<times> tailStands) \<Rightarrow> bool \<Rightarrow> string \<Rightarrow> string \<Rightarrow>
   (byte list list \<times> tailStands) fres option" where
  "TailFileInterHandler env baseDir tail upgrades containerId containerPath =
     (if \<not> upgrades then None else Some (TailContainerFile env baseDir containerId containerPath tail))"

section \<open>Properties\<close>

text \<open>C17: a listed file can be fetched from any node. For a file of a listing made on a node whose
  address is \<open>h\<close>, the listing's URL carries a token (which unescapes to itself) with which the file
  handler of any node of the cluster forwards the request to \<open>h\<close>, under a new token, and with that
  token the handler there serves exactly the listed file.\<close>

theorem listed_file_served:
  assumes "podPath (fsEnv s1) (fsBaseDir s1) podName cid img cpath hpath = FOk path"
    and "e \<in> set (fsReadDir s1 path)" and "\<not> deIsDir e" and "deInfo e = Some (modTime, sz)"
    and "fsHostIp s1 \<noteq> ''localhost''"
    and "\<And>s. s \<in> {s1, s2} \<Longrightarrow> keySizeOk (secretKey (fsSvc s)) \<and> length (nextIV (fsSvc s)) = blockSize \<and> secretKey (fsSvc s) = key"
    and "\<And>s s'. s \<in> {s1, s2} \<Longrightarrow> s' \<in> {s1, s2} \<Longrightarrow> blockCipher (Enc (fsSvc s) key) (Dec (fsSvc s') key)"
    and "\<And>s s' h f. s \<in> {s1, s2} \<Longrightarrow> s' \<in> {s1, s2} \<Longrightarrow> h \<in> {fsHostIp s1, ''localhost''} \<Longrightarrow>
           f = \<lparr>fHost = h, fPath = pathJoin [path, deName e], fModTime = modTime\<rparr> \<Longrightarrow> unmarshalFile s' (marshalFile s f) = Some f"
    and "\<And>u. urlOk s2 u"
  shows "\<exists>fs r t t' url. GetPodFiles (fsEnv s1) (fileToken s1) (fsHostIp s1) (fsReadDir s1) (fsBaseDir s1) podName cid img cpath hpath = FOk fs \<and>
     r \<in> set fs \<and> frName r = deName e \<and> frSize r = sz \<and>
     frURL r = API_FILE @ showInt modTime @ ''/'' @ QueryEscape (deName e) @ ''?token='' @ QueryEscape t \<and>
     QueryUnescape (QueryEscape t) = Some t \<and>
     PodFileHandler s2 urlPath t = ForwardTo url t' \<and>
     url = GetURLByHost (fsSvc s2) (fsHostIp s1) @ API_FILE @ QueryEscape (trimPrefix urlPath API_FILE) @ ''?token='' @ QueryEscape t' \<and>
     PodFileHandler s1 urlPath' t' = ServeFile (pathJoin [path, deName e])"
proof -
  let ?f = "\<lparr>fHost = fsHostIp s1, fPath = pathJoin [path, deName e], fModTime = modTime\<rparr>"
  have dec: "unmarshalFile s' (tokenBytes (fsSvc s') (fileToken s f)) = Some f"
    if "s \<in> {s1, s2}" "s' \<in> {s1, s2}" "f \<in> {?f, ?f\<lparr>fHost := ''localhost''\<rparr>}" for s s' f
  proof -
    have bc: "blockCipher (Enc (fsSvc s) key) (Dec (fsSvc s') key)" using assms(7) that by blast
    have "unmarshalFile s' (marshalFile s f) = Some f"
      using assms(8) [of s s' "fHost f" f] that by auto
    have k: "keySizeOk key" "length (nextIV (fsSvc s)) = blockSize" "secretKey (fsSvc s) = key" "secretKey (fsSvc s') = key"
      using assms(6) that by blast+
    obtain t where "GeneratorJWTToken (Enc (fsSvc s)) key (nextIV (fsSvc s)) (marshalFile s f) = Ret t"
      "AuthJWTToken (Dec (fsSvc s')) key t = Ret (marshalFile s f)"
      by (rule generated_token_decrypts [of key "nextIV (fsSvc s)" "Enc (fsSvc s)" "Dec (fsSvc s')" "marshalFile s f", OF k(1,2) bc])
    with \<open>unmarshalFile s' (marshalFile s f) = Some f\<close> k show ?thesis by (simp add: fileToken_def tokenBytes_def)
  qed
  obtain r where r: "fileRes (fileToken s1) (fsHostIp s1) path e = Some r" "frName r = deName e" "frSize r = sz"
    "frURL r = API_FILE @ showInt modTime @ ''/'' @ QueryEscape (deName e) @ ''?token='' @ QueryEscape (fileToken s1 ?f)"
    using assms(3,4) by (simp add: fileRes_def Let_def)
  have "r \<in> set (List.map_filter (fileRes (fileToken s1) (fsHostIp s1) path) (fsReadDir s1 path))"
    using assms(2) r(1) by (force simp: List.map_filter_def)
  moreover have "GetPodFiles (fsEnv s1) (fileToken s1) (fsHostIp s1) (fsReadDir s1) (fsBaseDir s1) podName cid img cpath hpath =
      FOk (List.map_filter (fileRes (fileToken s1) (fsHostIp s1) path) (fsReadDir s1 path))"
    using assms(1) by (simp add: GetPodFiles_def)
  moreover have "PodFileHandler s2 urlPath (fileToken s1 ?f) = ForwardTo
      (GetURLByHost (fsSvc s2) (fsHostIp s1) @ API_FILE @ QueryEscape (trimPrefix urlPath API_FILE) @ ''?token='' @
        QueryEscape (fileToken s2 (?f\<lparr>fHost := ''localhost''\<rparr>))) (fileToken s2 (?f\<lparr>fHost := ''localhost''\<rparr>))"
    using dec [of s1 s2 ?f] assms(5,9) by (simp add: PodFileHandler_def Let_def)
  moreover have "PodFileHandler s1 urlPath' (fileToken s2 (?f\<lparr>fHost := ''localhost''\<rparr>)) = ServeFile (pathJoin [path, deName e])"
    using dec [of s2 s1 "?f\<lparr>fHost := ''localhost''\<rparr>"] by (simp add: PodFileHandler_def)
  ultimately show ?thesis using r by auto
qed

definition demoFileSvc :: fileSvc where
  "demoFileSvc =
     \<lparr>fsSvc = exampleSvc, fsEnv = demoFiles, fsBaseDir = ''/host'', fsHostIp = ''10.0.0.7'',
      fsReadDir = (\<lambda>p. [\<lparr>deName = ''a.log'', deIsDir = False, deInfo = Some (5, 9)\<rparr>]),
      marshalFile = (\<lambda>f. if fHost f = ''localhost'' then [1] else [2]),
      unmarshalFile = (\<lambda>bs. if bs = [1] then Some \<lparr>fHost = ''localhost'', fPath = ''/etc/a.log'', fModTime = 5\<rparr>
         else if bs = [2] then Some \<lparr>fHost = ''10.0.0.7'', fPath = ''/etc/a.log'', fModTime = 5\<rparr> else None),
      urlOk = (\<lambda>_. True), listRemote = (\<lambda>_ _. None)\<rparr>"

lemma demo_json:
  "fHost f = ''localhost'' \<Longrightarrow> marshalFile demoFileSvc f = [1]" "fHost f \<noteq> ''localhost'' \<Longrightarrow> marshalFile demoFileSvc f = [2]"
  "unmarshalFile demoFileSvc [1] = Some \<lparr>fHost = ''localhost'', fPath = ''/etc/a.log'', fModTime = 5\<rparr>"
  "unmarshalFile demoFileSvc [2] = Some \<lparr>fHost = ''10.0.0.7'', fPath = ''/etc/a.log'', fModTime = 5\<rparr>"
  "unmarshalFile demoFileSvc [] = None" "fsHostIp demoFileSvc = ''10.0.0.7''" "fsSvc demoFileSvc = exampleSvc"
  by (simp_all add: demoFileSvc_def)

lemma demo_podPath:
  "podPath (fsEnv demoFileSvc) (fsBaseDir demoFileSvc) [] [] [] [] ''/../etc'' = FOk ''/etc''"
  by (simp add: demoFileSvc_def demoFiles_def podPath_def realPath_def) code_simp

theorem listed_file_served_witness:
  "\<exists>t t' url. PodFileHandler demoFileSvc ''/api/file/5/a.log'' t = ForwardTo url t' \<and>
     PodFileHandler demoFileSvc ''/api/file/5/a.log'' t' = ServeFile ''/etc/a.log''"
proof -
  have path: "pathJoin [''/etc'', ''a.log''] = ''/etc/a.log''" by code_simp
  have "\<lparr>deName = ''a.log'', deIsDir = False, deInfo = Some (5, 9)\<rparr> \<in> set (fsReadDir demoFileSvc ''/etc'')"
    by (simp add: demoFileSvc_def)
  note served = listed_file_served [OF demo_podPath this, of 5 9 demoFileSvc "secretKey exampleSvc"
      "''/api/file/5/a.log''" "''/api/file/5/a.log''"]
  have "\<exists>t t' url. PodFileHandler demoFileSvc ''/api/file/5/a.log'' t = ForwardTo url t' \<and>
      PodFileHandler demoFileSvc ''/api/file/5/a.log'' t' = ServeFile (pathJoin [''/etc'', ''a.log''])"
  proof -
    have "unmarshalFile s' (marshalFile s f) = Some f"
      if "s \<in> {demoFileSvc, demoFileSvc}" "s' \<in> {demoFileSvc, demoFileSvc}" "h \<in> {fsHostIp demoFileSvc, ''localhost''}"
        "f = \<lparr>fHost = h, fPath = pathJoin [''/etc'', ''a.log''], fModTime = 5\<rparr>" for s s' h f
      using that by (auto simp: demo_json path)
    moreover have "keySizeOk (secretKey (fsSvc demoFileSvc))" "length (nextIV (fsSvc demoFileSvc)) = blockSize"
      "blockCipher (Enc (fsSvc demoFileSvc) k) (Dec (fsSvc demoFileSvc) k)" "fsSvc demoFileSvc = exampleSvc"
      "fsHostIp demoFileSvc \<noteq> ''localhost''" "urlOk demoFileSvc u" for k u
      using example_cipher example_key by (simp_all add: demoFileSvc_def)
    ultimately show ?thesis using served by simp blast
  qed
  then show ?thesis using path by simp
qed

text \<open>C23: no file is served without a token that was made for it: the handler serves a path only if
  the token decrypts, under the secret key, to a parameter for this node with that path.\<close>

theorem served_file_needs_token:
  assumes "unmarshalFile s [] = None" and "PodFileHandler s urlPath token = ServeFile path"
  shows "\<exists>r p. AuthJWTToken (Dec (fsSvc s)) (secretKey (fsSvc s)) token = Ret r \<and> unmarshalFile s r = Some p \<and>
     fHost p = ''localhost'' \<and> fPath p = path"
  using assms
  by (auto simp: PodFileHandler_def tokenBytes_def Let_def split: option.splits outcome.splits if_splits)

theorem served_file_needs_token_witness:
  "\<exists>r. AuthJWTToken (Dec exampleSvc) (secretKey exampleSvc) (exampleToken 1) = Ret r \<and>
     unmarshalFile demoFileSvc r = Some \<lparr>fHost = ''localhost'', fPath = ''/etc/a.log'', fModTime = 5\<rparr>"
proof -
  have "PodFileHandler demoFileSvc ''/api/file/'' (exampleToken 1) = ServeFile ''/etc/a.log''"
    by (simp add: PodFileHandler_def tokenBytes_def demo_json example_token)
  from served_file_needs_token [OF _ this] show ?thesis
    by (simp add: demo_json example_token)
qed

text \<open>A pod without a container status ends the process: the goroutine that looks for the container
  indexes the empty list, and nothing recovers.\<close>

theorem pending_pod_panics_tail:
  assumes "ContainerStatuses pod = []"
  shows "tailRounds dial w ((Some (pod # pods)) # rs) = None"
  using assms by (simp add: tailHandlerRound_def Let_def)

theorem pending_pod_panics_tail_witness:
  "tailRounds (\<lambda>_ _. DialFailed None []) 0 [None, Some [(demoPod ''Pending'')\<lparr>ContainerStatuses := []\<rparr>]] = None"
  using pending_pod_panics_tail [of "(demoPod ''Pending'')\<lparr>ContainerStatuses := []\<rparr>" "\<lambda>_ _. DialFailed None []" 5 "[]" "[]"]
  by (simp add: tailHandlerRound_def Let_def)

end
