(* ===== verification/Log_Service.thy ===== *)
theory Log_Service
  imports Docker_Log Http_Reply
begin

text \<open>
  The log handlers of \<open>Service/LogService.go\<close>: opening a log connection, downloading a stored log, and
  storing the log of a task when it ends: by the collector when the log is tracked, through
  Kubernetes' log interface otherwise, here or on the node of the pod. Tokens are those of \<open>AES_Auth\<close>;
  the collector, the other node, Kubernetes and the object store are arguments.
\<close>

section \<open>Parameters and surroundings\<close>

record UploadLogParam =
  upToken :: string
  upMessage :: string
  upPodLabel :: string
  upContainerName :: string
  upMinioObjName :: string
  upCallBackUrl :: string
  upAsync :: int

record LocalUploadLogParam =
  luTrackNo :: string
  luMessage :: string
  luContainerName :: string
  luMinioObjName :: string
  luCallBackUrl :: string
  luAsync :: int

definition noUpload :: UploadLogParam where
  "noUpload = \<lparr>upToken = [], upMessage = [], upPodLabel = [], upContainerName = [], upMinioObjName = [],
     upCallBackUrl = [], upAsync = 0\<rparr>"

record UploadByParamRes =
  TrackFlag :: int
  UploadCode :: int

text \<open>A pod as the handler sees it: its status and the names of its containers' variables.\<close>

record upPod =
  podName :: string
  podSt :: podStatus
  envNames :: "string list list"

text \<open>\<open>fileBeat\<close> and \<open>remote\<close> are the attempts, by number, at the collector and at another node; an
  answer of the collector may not parse. \<open>podLogs\<close> is the stream of a pod's log, \<open>putLog\<close> the error of
  storing an object.\<close>

record logSvc =
  lsEnc :: "byte list \<Rightarrow> byte list \<Rightarrow> byte list"
  lsDec :: "byte list \<Rightarrow> byte list \<Rightarrow> byte list"
  lsKey :: "byte list"
  lsIV :: "byte list"
  lsNow :: int
  lsPort :: int
  marshalLog :: "LogParam \<Rightarrow> byte list option"
  unmarshalLog :: "byte list \<Rightarrow> LogParam"
  fileBeat :: "nat \<Rightarrow> LocalUploadLogParam \<Rightarrow> UploadByParamRes option option"
  remote :: "nat \<Rightarrow> string \<Rightarrow> UploadLogParam \<Rightarrow> string option"
  podList :: "string \<Rightarrow> upPod list option"
  podLogs :: "string \<Rightarrow> byte list option"
  putLog :: "string \<Rightarrow> byte list \<Rightarrow> string option"
  getLog :: "string \<Rightarrow> string + byte list"

datatype upMsg = UpAuth auth_error | UpText string | UpRequest
datatype upData = NoUp | UpRes UploadByParamRes | LogBytes "byte list"

type_synonym upBody = "(upMsg, upData) body"

record upEffects =
  upAnswer :: "(upMsg, upData) response"
  upLocal :: "LocalUploadLogParam list"
  upSent :: "(string \<times> UploadLogParam) list"
  upStored :: "(string \<times> byte list) list"
  upCallbacks :: "(string \<times> nat \<times> upBody) list"
  upPanic :: bool

definition noUpEffects :: upEffects where
  "noUpEffects = \<lparr>upAnswer = emptyResponse, upLocal = [], upSent = [], upStored = [], upCallbacks = [], upPanic = False\<rparr>"

definition logAuth :: "logSvc \<Rightarrow> string \<Rightarrow> LogParam outcome" where
  "logAuth s token = Auth (lsDec s) (unmarshalLog s) (lsKey s) (lsNow s) token"

section \<open>Viewing and downloading\<close>

text \<open>\<open>LogHandler\<close>: a new connection for an accepted token, two messages and the end otherwise.\<close>

datatype logOutcome = NotUpgraded | Rejected upMsg | Registered ConnectHub

definition LogHandler :: "logSvc \<Rightarrow> bool \<Rightarrow> string \<Rightarrow> nat \<Rightarrow> ConnectHub \<Rightarrow> string \<Rightarrow> logOutcome" where
  "LogHandler s upgrades ident addr hub token =
     (if \<not> upgrades then NotUpgraded
      else case logAuth s token of
             Ret p \<Rightarrow> Registered (RegistryConnect hub addr ident (Operator p))
           | Fail e \<Rightarrow> Rejected (UpAuth e)
           | Panic \<Rightarrow> Rejected (UpAuth InvalidToken))"

text \<open>\<open>DownloadLogHandler\<close>: after a rejected token the handler goes on to read the nil parameter and
  panics; when the object cannot be read, the text of an error that is nil is asked for, which panics
  too. The second result is the panic.\<close>

definition DownloadLogHandler :: "logSvc \<Rightarrow> string \<Rightarrow> (upMsg, upData) response \<times> bool" where
  "DownloadLogHandler s token =
     (case logAuth s token of
        Ret p \<Rightarrow>
          (case getLog s (MinioObjName p) of
             Inr content \<Rightarrow> (Http_Reply.Write (SuccessRes [] (LogBytes content)) emptyResponse, False)
           | Inl e \<Rightarrow> (emptyResponse, True))
      | Fail e \<Rightarrow> (WriteHeader 401 (Http_Reply.Write (ErrorText (UpAuth e)) emptyResponse), True)
      | Panic \<Rightarrow> (WriteHeader 401 (Http_Reply.Write (ErrorText (UpAuth InvalidToken)) emptyResponse), True))"

section \<open>Storing\<close>

definition saveLogCallback :: "string \<Rightarrow> nat \<Rightarrow> upBody \<Rightarrow> upEffects \<Rightarrow> upEffects" where
  "saveLogCallback url st res eff =
     (if url \<noteq> [] then eff\<lparr>upCallbacks := upCallbacks eff @ [(url, st, res)]\<rparr> else eff)"

text \<open>\<open>retry.Do\<close> with three attempts: how many were made, and the first success.\<close>

fun retry3 :: "(nat \<Rightarrow> 'a option) \<Rightarrow> nat \<Rightarrow> nat \<Rightarrow> nat \<times> 'a option" where
  "retry3 f k 0 = (0, None)"
| "retry3 f k (Suc n) =
     (case f k of Some r \<Rightarrow> (1, Some r) | None \<Rightarrow> (let (m, r) = retry3 f (Suc k) n in (Suc m, r)))"

definition localUpload :: "logSvc \<Rightarrow> LocalUploadLogParam \<Rightarrow> upEffects \<Rightarrow> upEffects" where
  "localUpload s p eff =
     (case retry3 (\<lambda>k. Option.bind (fileBeat s k p) id) 0 3 of
        (n, Some res) \<Rightarrow>
          eff\<lparr>upLocal := upLocal eff @ replicate n p, upAnswer := SUCCESS_RES ''success'' (UpRes res) (upAnswer eff)\<rparr>
      | (n, None) \<Rightarrow>
          eff\<lparr>upLocal := upLocal eff @ replicate n p,
              upAnswer := WriteHeader 400 (FAIL_RES UpRequest NoUp (upAnswer eff))\<rparr>)"

definition uploadURL :: "logSvc \<Rightarrow> string \<Rightarrow> string" where
  "uploadURL s host =
     (if hasPrefix host ''http'' then trimSuffix host ''/'' else ''http://'' @ trimSuffix host ''/'') @
     '':'' @ showInt (lsPort s) @ ''/api/uploadLogByTrackNo''"

definition trackedUpload :: "logSvc \<Rightarrow> string \<Rightarrow> UploadLogParam \<Rightarrow> upEffects \<Rightarrow> upEffects" where
  "trackedUpload s host p eff =
     (let url = uploadURL s host; (n, res) = retry3 (\<lambda>k. remote s k url p) 0 3;
          eff1 = eff\<lparr>upSent := upSent eff @ replicate n (url, p)\<rparr>
      in case res of
           Some r \<Rightarrow>
             saveLogCallback (upCallBackUrl p) 1 (RemoteBody r)
               (if upAsync p = 0 then eff1\<lparr>upAnswer := Http_Reply.Write (RemoteBody r) (upAnswer eff1)\<rparr> else eff1)
         | None \<Rightarrow>
             saveLogCallback (upCallBackUrl p) 0 (FailRes UpRequest NoUp)
               (if upAsync p = 0
                then eff1\<lparr>upAnswer := WriteHeader 400 (FAIL_RES UpRequest NoUp (upAnswer eff1))\<rparr> else eff1))"

text \<open>A log that no collector tracks: the pod's log, or the error of its containers, is stored with the
  message appended. The caller is told through the callback only.\<close>

definition logContent :: "logSvc \<Rightarrow> upPod \<Rightarrow> byte list option" where
  "logContent s pod =
     (case podLogs s (podName pod) of
        Some l \<Rightarrow> Some l
      | None \<Rightarrow> map_option (\<lambda>(_, err). bytesOf err) (GetPodErrorInfo (podSt pod)))"

definition untrackedUpload :: "logSvc \<Rightarrow> upPod \<Rightarrow> UploadLogParam \<Rightarrow> upEffects \<Rightarrow> upEffects" where
  "untrackedUpload s pod p eff =
     (let (stored, code, msg) =
            (case logContent s pod of
               None \<Rightarrow> ([], 0, [])
             | Some l \<Rightarrow>
                 (let c = l @ bytesOf (LF @ upMessage p)
                  in case putLog s (upMinioObjName p) c of
                       None \<Rightarrow> ([(upMinioObjName p, c)], 1, [])
                     | Some e \<Rightarrow> ([], 0, e)));
          res = \<lparr>TrackFlag = 0, UploadCode = code\<rparr>
      in saveLogCallback (upCallBackUrl p) 1
           (if code = 1 then SuccessRes ''success'' (UpRes res) else FailRes (UpText msg) (UpRes res))
           (eff\<lparr>upStored := upStored eff @ stored\<rparr>))"

definition isTracked :: "upPod \<Rightarrow> bool" where
  "isTracked pod \<longleftrightarrow> (\<exists>vars \<in> set (envNames pod). \<exists>n \<in> set vars. contains n ''cvmart_logs_stdout'')"

text \<open>Where the log is: the first pod of the label, the host of the token or else that of the pod, and
  whether a collector tracks the log, which a pod that is gone counts as.\<close>

definition uploadTarget :: "logSvc \<Rightarrow> string \<Rightarrow> string \<Rightarrow> upPod option \<times> string \<times> bool" where
  "uploadTarget s label host =
     (case podList s (''app='' @ label) of
        Some (pod # _) \<Rightarrow>
          (let host1 = (if host = [] then HostIP (podSt pod) else host)
           in (Some pod, if host1 = [] then ''localhost'' else host1, isTracked pod))
      | _ \<Rightarrow> (None, if host = [] then ''localhost'' else host, True))"

text \<open>The whole handler. A request that does not parse is an empty one. The effects of the goroutine
  of an asynchronous request are included.\<close>

definition UploadLogByTrackNo :: "logSvc \<Rightarrow> UploadLogParam option \<Rightarrow> upEffects" where
  "UploadLogByTrackNo s req =
     (let param = (case req of Some p \<Rightarrow> p | None \<Rightarrow> noUpload);
          reject = (\<lambda>e. noUpEffects\<lparr>upAnswer := WriteHeader 401 (Http_Reply.Write (ErrorText (UpAuth e)) emptyResponse)\<rparr>) in
      case logAuth s (upToken param) of
        Fail e \<Rightarrow> reject e
      | Panic \<Rightarrow> reject InvalidToken
      | Ret logParam \<Rightarrow>
          if Host logParam = ''localhost'' then
            localUpload s \<lparr>luTrackNo = TrackNo logParam, luMessage = upMessage param, luContainerName = upContainerName param,
              luMinioObjName = upMinioObjName param, luCallBackUrl = upCallBackUrl param, luAsync = upAsync param\<rparr> noUpEffects
          else
            (case GeneratorToken (lsEnc s) (marshalLog s) (lsKey s) (lsIV s) (logParam\<lparr>Host := ''localhost''\<rparr>) of
               Ret t \<Rightarrow>
                 (let p = param\<lparr>upToken := t\<rparr>;
                      (pod, host, tracked) = uploadTarget s (upPodLabel p) (Host logParam);
                      eff = (if tracked then trackedUpload s host p noUpEffects
                             else (case pod of Some x \<Rightarrow> untrackedUpload s x p noUpEffects | None \<Rightarrow> noUpEffects))
                  in if upAsync p > 0
                     then eff\<lparr>upAnswer := SUCCESS_RES ''request success''
                                (UpRes \<lparr>TrackFlag = (if tracked then 1 else 0), UploadCode = 0\<rparr>) emptyResponse\<rparr>
                     else eff)
             | _ \<Rightarrow> noUpEffects\<lparr>upPanic := True\<rparr>))"

section \<open>Properties\<close>

declare uploadTarget_def [simp]

lemmas upload_defs = UploadLogByTrackNo_def localUpload_def trackedUpload_def untrackedUpload_def saveLogCallback_def noUpEffects_def

text \<open>C21: nothing is stored, sent or called back for a request without an accepted token: the only
  effect is the text of the error. (The status stays 200: it is set after the text.)\<close>

theorem upload_needs_valid_token:
  assumes "\<And>p. logAuth s (upToken param) \<noteq> Ret p"
  shows "\<exists>e. UploadLogByTrackNo s (Some param) = noUpEffects\<lparr>upAnswer := Http_Reply.Write (ErrorText (UpAuth e)) emptyResponse\<rparr> \<and>
     status (upAnswer (UploadLogByTrackNo s (Some param))) = Some 200"
  using assms
  by (cases "logAuth s (upToken param)") (auto simp: UploadLogByTrackNo_def Let_def late_status_ignored)

text \<open>C22: the log of an untracked task is stored with its message. For an accepted token that names
  another node, a pod whose containers declare no tracked output and an object store that takes the
  object, the log Kubernetes gives for the pod (or else the error of its containers) is stored under
  the object name of the request with the message on a line of its own, and the callback is told of
  the success. The caller of a synchronous request, however, is sent an empty answer.\<close>

theorem untracked_log_stored:
  assumes "logAuth s (upToken param) = Ret lp" and "Host lp \<noteq> ''localhost''" and "keySizeOk (lsKey s)"
    and "podList s (''app='' @ upPodLabel param) = Some (pod # pods)" and "\<not> isTracked pod"
    and "logContent s pod = Some l" and "putLog s (upMinioObjName param) (l @ bytesOf (LF @ upMessage param)) = None"
    and "upCallBackUrl param \<noteq> []"
  shows "upStored (UploadLogByTrackNo s (Some param)) = [(upMinioObjName param, l @ bytesOf (LF @ upMessage param))] \<and>
     upCallbacks (UploadLogByTrackNo s (Some param)) =
       [(upCallBackUrl param, 1, SuccessRes ''success'' (UpRes \<lparr>TrackFlag = 0, UploadCode = 1\<rparr>))] \<and>
     (upAsync param = 0 \<longrightarrow> upAnswer (UploadLogByTrackNo s (Some param)) = emptyResponse)"
proof -
  obtain t where "GeneratorToken (lsEnc s) (marshalLog s) (lsKey s) (lsIV s) (lp\<lparr>Host := ''localhost''\<rparr>) = Ret t"
    using assms(3) by (cases "marshalLog s (lp\<lparr>Host := ''localhost''\<rparr>)") (simp_all add: GeneratorToken_def Let_def)
  then show ?thesis
    using assms by (simp add: UploadLogByTrackNo_def Let_def untrackedUpload_def saveLogCallback_def noUpEffects_def)
qed

lemma Auth_of_JWT:
  "AuthJWTToken D key t = Ret j \<Longrightarrow> Auth D unmarshal key now t =
     (if isExpiration now (unmarshal j) then Fail TokenExpired else Ret (unmarshal j))"
  by (auto simp: AuthJWTToken_def Auth_def Let_def split: option.splits if_splits outcome.splits elim: recovering.elims)

lemma GeneratorToken_JWT: "marshal p = Some j \<Longrightarrow> GeneratorToken E marshal key iv p = GeneratorJWTToken E key iv j"
  by (simp add: GeneratorToken_def GeneratorJWTToken_def)

lemma trackedUpload_sent:
  assumes "remote s 0 (uploadURL s host) p \<noteq> None"
  shows "upSent (trackedUpload s host p eff) = upSent eff @ [(uploadURL s host, p)]"
  using assms by (auto simp: trackedUpload_def saveLogCallback_def Let_def numeral_3_eq_3)


text \<open>A rejected download is answered with status 200, and panics. The text of the error is written
  before the status, and the handler goes on with a parameter that is not there; and when the stored
  log cannot be read, nothing at all is answered.\<close>

theorem rejected_download_status:
  assumes "\<And>p. logAuth s token \<noteq> Ret p"
  shows "status (fst (DownloadLogHandler s token)) = Some 200 \<and> snd (DownloadLogHandler s token) \<and>
    (logAuth s other = Ret lp \<longrightarrow> getLog s (MinioObjName lp) = Inl e \<longrightarrow> DownloadLogHandler s other = (emptyResponse, True))"
  using assms by (cases "logAuth s token") (auto simp: DownloadLogHandler_def)

section \<open>An example\<close>

definition exampleLogParam :: "string \<Rightarrow> LogParam" where
  "exampleLogParam h = \<lparr>Host = h, ContainerId = [], Operator = ''log'', Tail = [], TrackNo = ''t7'', PodLabel = ''t7'',
     PodName = [], MinioObjName = [], ExpirationTime = 9\<rparr>"

definition exampleLogSvc :: logSvc where
  "exampleLogSvc =
     \<lparr>lsEnc = (\<lambda>k. map (\<lambda>b. b XOR 5)), lsDec = (\<lambda>k. map (\<lambda>b. b XOR 5)), lsKey = replicate 16 7, lsIV = replicate 16 1,
      lsNow = 5, lsPort = 80, marshalLog = (\<lambda>p. Some (if Host p = ''localhost'' then [1] else [2])),
      unmarshalLog = (\<lambda>bs. exampleLogParam (if bs = [1] then ''localhost'' else ''node2'')),
      fileBeat = (\<lambda>_ _. Some (Some \<lparr>TrackFlag = 1, UploadCode = 1\<rparr>)), remote = (\<lambda>_ _ _. Some ''ok''),
      podList = (\<lambda>sel. if sel = ''app=u'' then Some [\<lparr>podName = ''p'', podSt = demoPod ''Running'', envNames = [[''PATH'']]\<rparr>] else None),
      podLogs = (\<lambda>_. Some [104, 105]), putLog = (\<lambda>_ _. None), getLog = (\<lambda>_. Inl ''gone'')\<rparr>"

definition exampleLogToken :: string where
  "exampleLogToken =
     (case GeneratorToken (lsEnc exampleLogSvc) (marshalLog exampleLogSvc) (lsKey exampleLogSvc) (lsIV exampleLogSvc)
        (exampleLogParam ''node2'') of Ret t \<Rightarrow> t | _ \<Rightarrow> [])"

definition exampleUpload :: "string \<Rightarrow> UploadLogParam" where
  "exampleUpload label = noUpload\<lparr>upToken := exampleLogToken, upMessage := ''end'', upPodLabel := label,
     upMinioObjName := ''o'', upCallBackUrl := ''http://cb''\<rparr>"

lemma exampleLog_key:
  "keySizeOk (lsKey exampleLogSvc)" "length (lsIV exampleLogSvc) = blockSize"
  "blockCipher (lsEnc exampleLogSvc k) (lsDec exampleLogSvc k)"
  by (simp_all add: exampleLogSvc_def keySizeOk_def blockSize_def blockCipher_def comp_def xor.assoc)

lemma exampleLog_auth: "logAuth exampleLogSvc exampleLogToken = Ret (exampleLogParam ''node2'')"
proof -
  obtain t where t: "GeneratorJWTToken (lsEnc exampleLogSvc) (lsKey exampleLogSvc) (lsIV exampleLogSvc) [2] = Ret t"
    "AuthJWTToken (lsDec exampleLogSvc) (lsKey exampleLogSvc) t = Ret [2]"
    by (rule generated_token_decrypts [where E = "lsEnc exampleLogSvc" and D = "lsDec exampleLogSvc", OF exampleLog_key])
  moreover have "marshalLog exampleLogSvc (exampleLogParam ''node2'') = Some [2]"
    by (simp add: exampleLogSvc_def exampleLogParam_def)
  ultimately have "exampleLogToken = t" by (simp add: exampleLogToken_def GeneratorToken_JWT)
  moreover have "unmarshalLog exampleLogSvc [2] = exampleLogParam ''node2''" "lsNow exampleLogSvc = 5"
    by (simp_all add: exampleLogSvc_def)
  ultimately show ?thesis
    using Auth_of_JWT [OF t(2), of "unmarshalLog exampleLogSvc" 5]
    by (simp add: logAuth_def isExpiration_def exampleLogParam_def)
qed

lemma exampleLog_rejected: "logAuth exampleLogSvc ''!'' \<noteq> Ret p"
proof -
  have "logAuth exampleLogSvc ''!'' = Fail BadBase64" by code_simp
  then show ?thesis by simp
qed

theorem upload_needs_valid_token_witness:
  "status (upAnswer (UploadLogByTrackNo exampleLogSvc (Some (noUpload\<lparr>upToken := ''!''\<rparr>)))) = Some 200"
  using upload_needs_valid_token [of exampleLogSvc "noUpload\<lparr>upToken := ''!''\<rparr>"] exampleLog_rejected by auto

theorem untracked_log_stored_witness:
  "upStored (UploadLogByTrackNo exampleLogSvc (Some (exampleUpload ''u''))) = [(''o'', [104, 105, 10, 101, 110, 100])] \<and>
   upAnswer (UploadLogByTrackNo exampleLogSvc (Some (exampleUpload ''u''))) = emptyResponse"
proof -
  have pod: "podList exampleLogSvc ''app=u'' = Some [\<lparr>podName = ''p'', podSt = demoPod ''Running'', envNames = [[''PATH'']]\<rparr>]"
    "podLogs exampleLogSvc x = Some [104, 105]" "putLog exampleLogSvc o' c = None" for x o' c
    by (simp_all add: exampleLogSvc_def)
  have "\<not> contains ''PATH'' ''cvmart_logs_stdout''" by code_simp
  then have "\<not> isTracked \<lparr>podName = ''p'', podSt = demoPod ''Running'', envNames = [[''PATH'']]\<rparr>" by (simp add: isTracked_def)
  then show ?thesis
    using untracked_log_stored [of exampleLogSvc "exampleUpload ''u''" "exampleLogParam ''node2''"] exampleLog_auth exampleLog_key(1) pod
    by (simp add: exampleUpload_def noUpload_def exampleLogParam_def logContent_def LF_def)
qed


theorem rejected_download_status_witness:
  "status (fst (DownloadLogHandler exampleLogSvc ''!'')) = Some 200"
  using rejected_download_status [of exampleLogSvc "''!''" "[]"] exampleLog_rejected by blast

end
