(* ===== verification/Pilot_Loop.thy ===== *)
theory Pilot_Loop
  imports Pilot_Events
begin

text \<open>
  The running pilot: \<open>New\<close>, \<open>watch\<close> and \<open>reload\<close> of \<open>pilot/pilot.go\<close>, \<open>NewPiloter\<close> of
  \<open>pilot/piloter.go\<close> and the goroutines of both collectors. The goroutines that \<open>watch\<close> starts (events,
  reloading, Fluentd's timers, Filebeat's watchers, the wait for the collector's process) and
  its own pass over the running containers interleave; the step relation has one rule for each
  step of one of them. The mutex is held by the pass over the containers and by a reload; events
  do not take it. Time is counted in nanoseconds.
\<close>

section \<open>Making a pilot\<close>

record FilebeatPiloter =
  fbName :: string
  fbDir :: string
  watchDuration :: int
  watchContainer :: "(string, string) gomap"

datatype Piloter = FilebeatP FilebeatPiloter | FluentdP string

definition second :: int where "second = 1000000000"

definition NewFilebeatPiloter :: "string \<Rightarrow> Piloter" where
  "NewFilebeatPiloter baseDir =
     FilebeatP \<lparr>fbName = ''filebeat'', fbDir = baseDir, watchDuration = 60 * second, watchContainer = []\<rparr>"

definition NewFluentdPiloter :: Piloter where
  "NewFluentdPiloter = FluentdP ''fluentd''"

definition NewPiloter :: "string \<Rightarrow> string \<Rightarrow> string + Piloter" where
  "NewPiloter type baseDir =
     (if type = ''filebeat'' then Inr (NewFilebeatPiloter baseDir)
      else if type = ''fluentd'' then Inr NewFluentdPiloter
      else Inl ''InvalidPilotType'')"

fun piloterName :: "Piloter \<Rightarrow> string" where
  "piloterName (FilebeatP p) = fbName p"
| "piloterName (FluentdP name) = name"

fun GetBaseConf :: "Piloter \<Rightarrow> string" where
  "GetBaseConf (FilebeatP p) = ''/config/filebeat''"
| "GetBaseConf (FluentdP name) = ''/etc/fluentd''"

text \<open>The process environment that \<open>New\<close> and the pilot read, with the configured type and prefixes.\<close>

record osEnv =
  cfgPilotType :: string
  cfgLogPrefix :: string
  getenv :: "string \<Rightarrow> string"
  topicsFile :: "(unit + string) option"

datatype newErr = TemplateErr | ClientErr | PiloterErr string

definition logPrefixes :: "string \<Rightarrow> string list" where
  "logPrefixes s = (if s = [] then [''cv''] else splitC (CHR '','') s)"

text \<open>The result is the pilot with its collector and the value of \<open>DOCKER_API_VERSION\<close> that
  remains set.\<close>

definition NewPilot ::
  "(string \<Rightarrow> bool) \<Rightarrow> (string \<Rightarrow> bool) \<Rightarrow> osEnv \<Rightarrow> string \<Rightarrow> string \<Rightarrow> newErr + (pilotEnv \<times> Piloter \<times> string)" where
  "NewPilot parses clientOk oe tplStr baseDir =
     (if \<not> parses tplStr then Inl TemplateErr
      else let v0 = getenv oe ''DOCKER_API_VERSION'';
               version = (if v0 = [] then ''1.23'' else v0)
           in if \<not> clientOk version then Inl ClientErr
              else case NewPiloter (cfgPilotType oe) baseDir of
                  Inl e \<Rightarrow> Inl (PiloterErr e)
                | Inr p \<Rightarrow>
                    Inr (\<lparr>pilotType = cfgPilotType oe, pbaseDir = baseDir, logPrefix = logPrefixes (cfgLogPrefix oe),
                          createSymlink = (getenv oe ''PILOT_CREATE_SYMLINK'' = ''true''),
                          loggingOutput = getenv oe ''LOGGING_OUTPUT'', kafkaTopics = topicsFile oe,
                          nodeName = getenv oe ''NODE_NAME''\<rparr>, p, version))"

lemma NewPilot_env:
  assumes "NewPilot parses clientOk oe tpl baseDir = Inr (env, p, version)"
  shows "pilotType env = cfgPilotType oe \<and> cfgPilotType oe \<in> {''filebeat'', ''fluentd''} \<and>
    logPrefix env = (if cfgLogPrefix oe = [] then [''cv''] else splitC (CHR '','') (cfgLogPrefix oe)) \<and>
    piloterName p = cfgPilotType oe"
  using assms
  by (auto simp: NewPilot_def NewPiloter_def NewFilebeatPiloter_def NewFluentdPiloter_def logPrefixes_def Let_def
      split: if_splits sum.splits)

section \<open>Steps of the goroutines\<close>

text \<open>What the event goroutine receives: a message of the engine, with the world in which it is
  handled, or an error of the subscription. The end of the stream ends the goroutine; any other
  error subscribes anew.\<close>

datatype esig = EvMsg pilotWorld string string | EvErr bool

datatype evres = EvGo | EvStop | EvPanic

fun evStep :: "pilotEnv \<Rightarrow> esig \<Rightarrow> pilotState \<Rightarrow> evres \<times> pilotState" where
  "evStep env (EvMsg w action cid) st =
     (case processEvent env w action cid st of
        (e, st') \<Rightarrow> (if e = Some LPanic then EvPanic else EvGo, st'))"
| "evStep env (EvErr eof) st = (if eof then EvStop else EvGo, st)"

text \<open>One turn of Filebeat's watcher: the token of \<open>Stop\<close>, or a scan after a minute.\<close>

datatype wsig = WDone | WTick watchEnv

fun fbWatch :: "wsig \<Rightarrow> watchstate \<Rightarrow> lerr + watchstate option" where
  "fbWatch WDone s = Inr None"
| "fbWatch (WTick wenv) s = (case fbScan wenv s of Inl e \<Rightarrow> Inl e | Inr s' \<Rightarrow> Inr (Some s'))"

definition fdExit :: "bool \<Rightarrow> proc \<Rightarrow> proc" where
  "fdExit startOk pr = (if running pr then snd (fdStart startOk (pr\<lparr>running := False\<rparr>)) else pr)"

definition collectorStart :: "pilotEnv \<Rightarrow> bool \<Rightarrow> proc \<Rightarrow> startres \<times> proc" where
  "collectorStart env = (if pilotType env = ''filebeat'' then fbStart else fdStart)"

definition collectorExit :: "pilotEnv \<Rightarrow> bool \<Rightarrow> proc \<Rightarrow> proc" where
  "collectorExit env = (if pilotType env = ''filebeat'' then fbExit else fdExit)"

datatype holder = Free | Main | Reloader

text \<open>Where \<open>watch\<close> itself is: before its pass over the containers, in it with the containers to do
  and all of them, waiting for the event goroutine, returned.\<close>

datatype mainAt = MSleep | MScan "(string \<times> string) list" "(string \<times> string) list" | MWait | MEnd

record watchState =
  pilot :: pilotState
  collector :: proc
  clock :: int
  lastReload :: int
  holder :: holder
  wake :: "int option"
  hups :: "int list"
  mainAt :: mainAt
  evRunning :: bool
  dead :: bool

text \<open>\<open>reload\<close>: wait until thirty seconds have passed since the last one (not at all when the
  difference is negative), reload the collector, note the time.\<close>

definition reloadWake :: "int \<Rightarrow> int \<Rightarrow> int" where
  "reloadWake t lastTime = t + max 0 (30 * second - (t - lastTime))"

definition reloadBegin :: "watchState \<Rightarrow> watchState" where
  "reloadBegin s = s\<lparr>holder := Reloader, wake := Some (reloadWake (clock s) (lastReload s))\<rparr>"

definition reloadDo :: "watchState \<Rightarrow> watchState" where
  "reloadDo s = s\<lparr>wake := None, hups := clock s # hups s\<rparr>"

definition reloadEnd :: "watchState \<Rightarrow> watchState" where
  "reloadEnd s = s\<lparr>lastReload := clock s, holder := Free, pilot := doReload (pilot s)\<rparr>"

datatype watchErr = CleanErr lerr | StartErr

text \<open>\<open>watch\<close> up to its goroutines.\<close>

definition watchStart :: "pilotEnv \<Rightarrow> (string \<times> fstat \<times> bool \<times> bool) list option \<Rightarrow> bool \<Rightarrow> proc \<Rightarrow> int \<Rightarrow> pilotState \<Rightarrow>
  watchErr + watchState" where
  "watchStart env names startOk pr t st =
     (case cleanConfigs env names st of
        (Some e, st1) \<Rightarrow> Inl (CleanErr e)
      | (None, st1) \<Rightarrow>
          (case collectorStart env startOk pr of
             (StartFailed, pr1) \<Rightarrow> Inl StartErr
           | (_, pr1) \<Rightarrow>
               Inr \<lparr>pilot = st1\<lparr>reloaderWaiting := True\<rparr>, collector = pr1, clock = t, lastReload = t, holder = Free, wake = None,
                    hups = [], mainAt = MSleep, evRunning = True, dead = False\<rparr>))"

text \<open>One container of the pass, and its end.\<close>

definition scanOne :: "pilotEnv \<Rightarrow> pilotWorld \<Rightarrow> string \<times> string \<Rightarrow> watchState \<Rightarrow> watchState" where
  "scanOne env w c s =
     (case processContainers env w [c] (pilot s) of
        (e, st') \<Rightarrow> s\<lparr>pilot := st', dead := (e = Some LPanic)\<rparr>)"

inductive pilot_step :: "pilotEnv \<Rightarrow> pilotWorld set \<Rightarrow> watchEnv set \<Rightarrow> watchState \<Rightarrow> watchState \<Rightarrow> bool"
  for env W V where
  tick: "\<not> dead s \<Longrightarrow> mainAt s \<noteq> MEnd \<Longrightarrow> 0 \<le> d \<Longrightarrow> pilot_step env W V s (s\<lparr>clock := clock s + d\<rparr>)"
| event: "\<not> dead s \<Longrightarrow> mainAt s \<noteq> MEnd \<Longrightarrow> evRunning s \<Longrightarrow> (\<And>w a c. sig = EvMsg w a c \<Longrightarrow> w \<in> W) \<Longrightarrow>
    evStep env sig (pilot s) = (r, st') \<Longrightarrow>
    pilot_step env W V s (s\<lparr>pilot := st', evRunning := (r = EvGo), dead := (r = EvPanic)\<rparr>)"
| listed: "\<not> dead s \<Longrightarrow> mainAt s = MSleep \<Longrightarrow> holder s = Free \<Longrightarrow>
    pilot_step env W V s (s\<lparr>holder := Main, mainAt := MScan cs cs\<rparr>)"
| unlisted: "\<not> dead s \<Longrightarrow> mainAt s = MSleep \<Longrightarrow> holder s = Free \<Longrightarrow> pilot_step env W V s (s\<lparr>mainAt := MWait\<rparr>)"
| scan_one: "\<not> dead s \<Longrightarrow> mainAt s = MScan (c # cs) all \<Longrightarrow> w \<in> W \<Longrightarrow>
    pilot_step env W V s ((scanOne env w c s)\<lparr>mainAt := MScan cs all\<rparr>)"
| scan_end: "\<not> dead s \<Longrightarrow> mainAt s = MScan [] all \<Longrightarrow>
    pilot_step env W V s (s\<lparr>pilot := processSymlink env (map fst all) (pilot s), holder := Free, mainAt := MWait\<rparr>)"
| reload_begin: "\<not> dead s \<Longrightarrow> mainAt s \<noteq> MEnd \<Longrightarrow> \<not> reloaderWaiting (pilot s) \<Longrightarrow> holder s = Free \<Longrightarrow>
    pilot_step env W V s (reloadBegin s)"
| reload_do: "\<not> dead s \<Longrightarrow> mainAt s \<noteq> MEnd \<Longrightarrow> holder s = Reloader \<Longrightarrow> wake s = Some t \<Longrightarrow> t \<le> clock s \<Longrightarrow>
    pilot_step env W V s (reloadDo s)"
| reload_end: "\<not> dead s \<Longrightarrow> mainAt s \<noteq> MEnd \<Longrightarrow> holder s = Reloader \<Longrightarrow> wake s = None \<Longrightarrow>
    pilot_step env W V s (reloadEnd s)"
| timer: "\<not> dead s \<Longrightarrow> mainAt s \<noteq> MEnd \<Longrightarrow> pilot_step env W V s (s\<lparr>pilot := cleanFires env c (pilot s)\<rparr>)"
| watcher: "\<not> dead s \<Longrightarrow> mainAt s \<noteq> MEnd \<Longrightarrow> pilotType env = ''filebeat'' \<Longrightarrow> 0 < watchers (collector s) \<Longrightarrow> wenv \<in> V \<Longrightarrow>
    fbWatch (WTick wenv) (watched (pilot s), confs (pilot s)) = Inr (Some (ws, fs)) \<Longrightarrow>
    pilot_step env W V s (s\<lparr>pilot := (pilot s)\<lparr>watched := ws, confs := fs\<rparr>\<rparr>)"
| watcher_panic: "\<not> dead s \<Longrightarrow> mainAt s \<noteq> MEnd \<Longrightarrow> pilotType env = ''filebeat'' \<Longrightarrow> 0 < watchers (collector s) \<Longrightarrow> wenv \<in> V \<Longrightarrow>
    fbWatch (WTick wenv) (watched (pilot s), confs (pilot s)) = Inl e \<Longrightarrow> pilot_step env W V s (s\<lparr>dead := True\<rparr>)"
| collector_exit: "\<not> dead s \<Longrightarrow> mainAt s \<noteq> MEnd \<Longrightarrow> collectorExit env ok (collector s) = pr \<Longrightarrow>
    pilot_step env W V s (s\<lparr>collector := pr, dead := crashed pr\<rparr>)"
| finish: "\<not> dead s \<Longrightarrow> mainAt s = MWait \<Longrightarrow> \<not> evRunning s \<Longrightarrow> pilot_step env W V s (s\<lparr>mainAt := MEnd\<rparr>)"

text \<open>\<open>Run\<close>: a pilot that cannot be made is a panic; otherwise its state when the goroutines start.\<close>

definition pilotRun :: "(string \<Rightarrow> bool) \<Rightarrow> (string \<Rightarrow> bool) \<Rightarrow> osEnv \<Rightarrow> string \<Rightarrow> string \<Rightarrow>
  (string \<times> fstat \<times> bool \<times> bool) list option \<Rightarrow> bool \<Rightarrow> proc \<Rightarrow> int \<Rightarrow> pilotState \<Rightarrow>
  newErr + (watchErr + pilotEnv \<times> watchState)" where
  "pilotRun parses clientOk oe tpl baseDir names startOk pr t st =
     (case NewPilot parses clientOk oe tpl baseDir of
        Inl e \<Rightarrow> Inl e
      | Inr (env, p, version) \<Rightarrow>
          (case watchStart env names startOk pr t st of
             Inl e \<Rightarrow> Inr (Inl e)
           | Inr s \<Rightarrow> Inr (Inr (env, s))))"

abbreviation pilot_steps :: "pilotEnv \<Rightarrow> pilotWorld set \<Rightarrow> watchEnv set \<Rightarrow> watchState \<Rightarrow> watchState \<Rightarrow> bool" where
  "pilot_steps env W V \<equiv> (pilot_step env W V)\<^sup>*\<^sup>*"


section \<open>Configurations come from the template\<close>

text \<open>The rendered configuration of a container that some inspection described.\<close>

definition renderedConf :: "pilotEnv \<Rightarrow> pilotWorld set \<Rightarrow> string \<Rightarrow> string \<Rightarrow> bool" where
  "renderedConf env W q content \<longleftrightarrow>
     (\<exists>w \<in> W. \<exists>cid cj labels lcs. inspect w cid = Some cj \<and> q = GetConfPath env (ID cj) \<and>
        applyEnv (envWork (logPrefix env) (Env cj)) (Labels cj) = Inr labels \<and>
        getLogConfigs env (LogPath cj) (Mounts cj) labels = Inr lcs \<and> lcs \<noteq> [] \<and> \<not> skipped (logPrefix env) labels \<and>
        render w (ID cj) (container env cj) lcs (renderOutput env w) = Some content)"

text \<open>A step of the pilot's state adds only rendered configurations.\<close>

definition addsRendered :: "pilotEnv \<Rightarrow> pilotWorld set \<Rightarrow> confdir \<Rightarrow> confdir \<Rightarrow> bool" where
  "addsRendered env W fs fs' \<longleftrightarrow>
     (\<forall>q content. gm_get fs' q = Some content \<longrightarrow> gm_get fs q = Some content \<or> renderedConf env W q content)"

lemma addsRendered_refl [simp]: "addsRendered env W fs fs"
  by (simp add: addsRendered_def)

lemma addsRendered_trans: "addsRendered env W fs gs \<Longrightarrow> addsRendered env W gs hs \<Longrightarrow> addsRendered env W fs hs"
  unfolding addsRendered_def by blast

lemma addsRendered_removed:
  assumes "\<And>q. gm_get fs' q = gm_get fs q \<or> gm_get fs' q = None"
  shows "addsRendered env W fs fs'"
  unfolding addsRendered_def using assms by (metis option.distinct(1))

lemma newContainer_adds:
  assumes "w \<in> W" and "inspect w cid = Some cj" and "newContainer env w cj st = (e, st')"
  shows "addsRendered env W (confs st) (confs st')"
  using assms(3)
proof (cases rule: newContainer_cases)
  case (written labels lcs content)
  have "renderedConf env W (GetConfPath env (ID cj)) content"
    unfolding renderedConf_def using assms(1,2) written(2-6) by blast
  then show ?thesis unfolding addsRendered_def written(7) by (auto split: if_splits)
qed simp

lemma processEvent_adds:
  assumes "w \<in> W" and "processEvent env w a c st = (e, st')"
  shows "addsRendered env W (confs st) (confs st')"
  using assms newContainer_adds [OF assms(1)]
  by (auto simp: processEvent_def delContainer_def Let_def split: if_splits option.splits)

lemma processOne_adds:
  assumes "w \<in> W" and "processContainers env w [c] st = (e, st')"
  shows "addsRendered env W (confs st) (confs st')"
proof (cases c)
  case (Pair cid state)
  show ?thesis
  proof (cases "inspect w cid")
    case None
    then show ?thesis using assms(2) Pair by (auto split: if_splits)
  next
    case (Some cj)
    obtain e1 st1 where new: "newContainer env w cj st = (e1, st1)" by fastforce
    then have "st' = st \<or> st' = st1"
      using assms(2) Pair Some by (auto split: if_splits option.splits lerr.splits)
    then show ?thesis using newContainer_adds [OF assms(1) Some new] by auto
  qed
qed

lemma processSymlink_frame [simp]: "confs (processSymlink env ids st) = confs st"
proof -
  have "confs (fold (\<lambda>c st. if c \<in> set ids then st else removeVolumeSymlink env c st) cs st) = confs st" for cs
    by (induction cs arbitrary: st) simp_all
  then show ?thesis by (simp add: processSymlink_def)
qed

lemma cleanFires_adds: "addsRendered env W (confs st) (confs (cleanFires env c st))"
  by (rule addsRendered_removed) (auto simp: cleanFires_def Let_def tryReload_def)

lemma fbScan_adds:
  assumes "fbScan wenv (ws, fs) = Inr (ws', fs')"
  shows "addsRendered env W fs fs'"
proof (cases "getRegsitryState wenv")
  case None
  then show ?thesis using assms by (simp add: fbScan_def)
next
  case (Some registry)
  then have "scanLoop wenv registry (loadConfigPaths wenv ws fs) (map fst ws) (ws, fs) = Inr (ws', fs')"
    using assms by (simp add: fbScan_def)
  note removes = scanLoop_removes [OF this]
  show ?thesis
  proof (rule addsRendered_removed)
    show "gm_get fs' q = gm_get fs q \<or> gm_get fs' q = None" for q using removes [of q] by (elim disjE bexE conjE) simp_all
  qed
qed

lemma evStep_adds:
  assumes "\<And>w a c. sig = EvMsg w a c \<Longrightarrow> w \<in> W" and "evStep env sig st = (r, st')"
  shows "addsRendered env W (confs st) (confs st')"
  using assms by (cases sig) (auto split: prod.splits intro: processEvent_adds)

lemma step_adds: "pilot_step env W V s s' \<Longrightarrow> addsRendered env W (confs (pilot s)) (confs (pilot s'))"
proof (induction rule: pilot_step.induct)
  case (event s sig r st')
  then show ?case using evStep_adds by fastforce
next
  case (scan_one s c cs all w)
  obtain e st' where one: "processContainers env w [c] (pilot s) = (e, st')" by fastforce
  from processOne_adds [OF scan_one(3) one] show ?case by (simp add: scanOne_def one)
next
  case (watcher s wenv ws fs)
  then have "fbScan wenv (watched (pilot s), confs (pilot s)) = Inr (ws, fs)" by (simp split: sum.splits)
  from fbScan_adds [OF this] show ?case by simp
qed (simp_all add: reloadBegin_def reloadDo_def reloadEnd_def doReload_def cleanFires_adds)

lemma steps_add: "pilot_steps env W V s s' \<Longrightarrow> addsRendered env W (confs (pilot s)) (confs (pilot s'))"
  by (induction rule: rtranclp_induct) (auto intro: addsRendered_trans step_adds)

text \<open>The removal of old configurations.\<close>

definition removedConf :: "string \<Rightarrow> (string \<times> fstat \<times> bool \<times> bool) list \<Rightarrow> string \<Rightarrow> bool" where
  "removedConf home ns q \<longleftrightarrow> (\<exists>name stat f. (name, stat, True, f) \<in> set ns \<and> q = pathJoin [home, name])"

lemma removedConf_simps:
  "\<not> removedConf home [] q"
  "removedConf home ((name, stat, isRegular, f) # ns) q \<longleftrightarrow> (isRegular \<and> q = pathJoin [home, name]) \<or> removedConf home ns q"
  unfolding removedConf_def by auto

lemma cleanNames_removes:
  "cleanNames home ns fs = (None, fs') \<Longrightarrow> gm_get fs' q = (if removedConf home ns q then None else gm_get fs q)"
proof (induction ns arbitrary: fs)
  case (Cons n ns)
  obtain name stat isRegular f where n: "n = (name, stat, isRegular, f)" by (cases n)
  show ?case
  proof (cases isRegular)
    case True
    then have "cleanNames home ns (gm_delete (pathJoin [home, name]) fs) = (None, fs')"
      using Cons.prems n by (simp split: if_splits)
    from Cons.IH [OF this] show ?thesis using True by (simp add: n removedConf_simps)
  next
    case False
    then show ?thesis using Cons n by (simp add: removedConf_simps split: if_splits)
  qed
qed (simp add: removedConf_simps)

lemma watchStart_confs:
  assumes "watchStart env (Some ns) ok pr t st = Inr s"
  shows "gm_get (confs (pilot s)) q =
    (if removedConf (GetConfHome env) ns q then None else gm_get (confs st) q)"
proof -
  obtain fs where fs: "cleanNames (GetConfHome env) ns (confs st) = (None, fs)" "confs (pilot s) = fs"
    using assms by (auto simp: watchStart_def cleanConfigs_def split: prod.splits option.splits startres.splits)
  from cleanNames_removes [OF fs(1)] show ?thesis by (simp add: fs(2))
qed

text \<open>C11: The collector is given nothing but rendered declarations: when the pilot starts on a
  directory whose configurations it can all remove, then in every state it reaches, through any
  interleaving of events, its pass over the containers, reloads, timers, watchers and restarts of the
  collector, each configuration file is the text rendered from the declared logs of a container
  that an inspection described, at that container's own path, and no container marked to be
  skipped has one.\<close>

theorem pilot_configs_rendered:
  assumes "watchStart env (Some names) startOk pr t st0 = Inr s0"
    and "\<And>q. gm_get (confs st0) q \<noteq> None \<Longrightarrow> removedConf (GetConfHome env) names q"
    and "pilot_steps env W V s0 s" and "gm_get (confs (pilot s)) q = Some content"
  shows "renderedConf env W q content"
proof -
  have "gm_get (confs (pilot s0)) q = None"
    using watchStart_confs [OF assms(1), of q] assms(2) [of q] by (cases "gm_get (confs st0) q") simp_all
  then show ?thesis
    using steps_add [OF assms(3)] assms(4) unfolding addsRendered_def by (metis option.distinct(1))
qed

definition webWorld :: pilotWorld where
  "webWorld = exampleWorld\<lparr>inspect := (\<lambda>_. Some webContainer)\<rparr>"

definition oldRun :: pilotState where
  "oldRun = twoContainers\<lparr>confs := [(fbGetConfPath ''c1'', ''x'')]\<rparr>"

definition idle :: watchState where
  "idle = \<lparr>pilot = oldRun\<lparr>confs := [], reloaderWaiting := True\<rparr>, collector = \<lparr>running = True, watchers = 1, crashed = False\<rparr>,
     clock = 0, lastReload = 0, holder = Free, wake = None, hups = [], mainAt = MSleep, evRunning = True, dead = False\<rparr>"

lemma old_path: "fbGetConfPath ''c1'' = pathJoin [FILEBEAT_CONF_DIR, ''c1.yml'']"
  by code_simp

lemma example_home: "GetConfHome exampleEnv = FILEBEAT_CONF_DIR"
  by (simp add: GetConfHome_def exampleEnv_def)

lemma start_idle:
  "watchStart exampleEnv (Some [(''c1.yml'', StatSize 1, True, False)]) True \<lparr>running = False, watchers = 0, crashed = False\<rparr> 0 oldRun =
   Inr idle"
  unfolding watchStart_def cleanConfigs_def example_home
  by (simp add: collectorStart_def fbStart_def exampleEnv_def oldRun_def old_path idle_def)

lemma web_event:
  assumes "gm_get (confs st) (fbGetConfPath ''c9'') = None" and "reloaderWaiting st"
  shows "processEvent exampleEnv webWorld ''start'' ''c9'' st =
    (None, st\<lparr>confs := gm_set (fbGetConfPath ''c9'') ''x'' (confs st), reloaderWaiting := False\<rparr>)"
proof -
  obtain lcs where lcs: "getLogConfigs exampleEnv (LogPath webContainer) (Mounts webContainer) [(''cv.logs.web'', ''stdout'')] = Inr lcs" "lcs \<noteq> []"
    using web_configs by blast
  have skip: "\<not> skipped (logPrefix exampleEnv) [(''cv.logs.web'', ''stdout'')]" by code_simp
  have path: "GetConfPath exampleEnv = fbGetConfPath" by (simp add: GetConfPath_def exampleEnv_def)
  have link: "createVolumeSymlink exampleEnv w cj st = st" for w cj by (simp add: createVolumeSymlink_def exampleEnv_def)
  have id: "ID webContainer = ''c9''" by (simp add: webContainer_def)
  have "newContainer exampleEnv webWorld webContainer st =
      (None, st\<lparr>confs := gm_set (fbGetConfPath ''c9'') ''x'' (confs st), reloaderWaiting := False\<rparr>)"
    by (simp add: newContainer_def Let_def web_env lcs skip path link id tryReload_def assms(2))
      (simp add: webWorld_def exampleWorld_def path id tryReload_def assms(2))
  then show ?thesis using assms(1) by (simp add: processEvent_def existsConf_def path webWorld_def)
qed

definition asked :: watchState where
  "asked = idle\<lparr>pilot := (pilot idle)\<lparr>confs := [(fbGetConfPath ''c9'', ''x'')], reloaderWaiting := False\<rparr>\<rparr>"

lemma idle_event: "processEvent exampleEnv webWorld ''start'' ''c9'' (pilot idle) = (None, pilot asked)"
  by (subst web_event) (simp_all add: idle_def asked_def)

lemma idle_asked: "pilot_step exampleEnv {webWorld} V idle asked"
proof -
  have ev: "evStep exampleEnv (EvMsg webWorld ''start'' ''c9'') (pilot idle) = (EvGo, pilot asked)"
    by (simp add: idle_event)
  have up: "\<not> dead idle" "mainAt idle \<noteq> MEnd" "evRunning idle" by (simp_all add: idle_def)
  have "pilot_step exampleEnv {webWorld} V idle (idle\<lparr>pilot := pilot asked, evRunning := (EvGo = EvGo), dead := (EvGo = EvPanic)\<rparr>)"
    by (rule pilot_step.event [OF up _ ev]) simp
  then show ?thesis by (simp add: asked_def idle_def)
qed

theorem pilot_configs_rendered_witness:
  "pilot_steps exampleEnv {webWorld} {} idle asked \<and> renderedConf exampleEnv {webWorld} (fbGetConfPath ''c9'') ''x''"
proof -
  have run: "pilot_steps exampleEnv {webWorld} {} idle asked" using idle_asked by (rule r_into_rtranclp)
  have old: "gm_get (confs oldRun) q \<noteq> None \<Longrightarrow> removedConf (GetConfHome exampleEnv) [(''c1.yml'', StatSize 1, True, False)] q" for q
    unfolding example_home by (auto simp: oldRun_def removedConf_simps old_path split: if_splits)
  have "gm_get (confs (pilot asked)) (fbGetConfPath ''c9'') = Some ''x''" by (simp add: asked_def)
  from pilot_configs_rendered [OF start_idle old run this] run show ?thesis by simp
qed

section \<open>Reloads\<close>

lemma reloader_kept:
  "\<not> reloaderWaiting st \<Longrightarrow> \<not> reloaderWaiting (tryReload st)"
  "reloaderWaiting (createVolumeSymlink env w cj st) = reloaderWaiting st"
  "reloaderWaiting (removeVolumeSymlink env c st) = reloaderWaiting st"
  by (simp_all add: tryReload_def createVolumeSymlink_def removeVolumeSymlink_def Let_def)

lemma tryReload_asks: "\<not> reloaderWaiting (tryReload st)"
  by (simp add: tryReload_def)

lemma newContainer_reloader:
  assumes "newContainer env w cj st = (e, st')" and "\<not> reloaderWaiting st \<or> confs st' \<noteq> confs st"
  shows "\<not> reloaderWaiting st'"
proof (cases "applyEnv (envWork (logPrefix env) (Env cj)) (Labels cj)")
  case (Inl a)
  then show ?thesis using assms by (auto simp: newContainer_def Let_def)
next
  case labels: (Inr labels)
  show ?thesis
  proof (cases "getLogConfigs env (LogPath cj) (Mounts cj) labels")
    case (Inl a)
    then show ?thesis using assms by (auto simp: newContainer_def Let_def labels)
  next
    case (Inr lcs)
    then show ?thesis
      using assms by (auto simp: newContainer_def Let_def labels tryReload_asks reloader_kept split: if_splits option.splits)
  qed
qed

lemma processEvent_reloader:
  assumes "processEvent env w a c st = (e, st')" and "\<not> reloaderWaiting st \<or> confs st' \<noteq> confs st"
  shows "\<not> reloaderWaiting st'"
proof -
  consider "st' = st" | "st' = delContainer env c st" | cj where "newContainer env w cj st = (e, st')"
    using assms(1) by (auto simp: processEvent_def split: if_splits option.splits)
  then show ?thesis
  proof cases
    case 2
    then show ?thesis using assms(2) by (simp add: delContainer_def Let_def reloader_kept split: if_splits)
  qed (use assms(2) newContainer_reloader in blast)+
qed

lemma processOne_reloader:
  assumes "processContainers env w [c] st = (e, st')" and "\<not> reloaderWaiting st"
  shows "\<not> reloaderWaiting st'"
proof (cases c)
  case (Pair cid state)
  show ?thesis
  proof (cases "inspect w cid")
    case None
    then show ?thesis using assms Pair by (auto split: if_splits)
  next
    case (Some cj)
    obtain e1 st1 where new: "newContainer env w cj st = (e1, st1)" by fastforce
    then have "st' = st \<or> st' = st1"
      using assms(1) Pair Some by (auto split: if_splits option.splits lerr.splits)
    then show ?thesis using newContainer_reloader [OF new] assms(2) by auto
  qed
qed

lemma processSymlink_reloader: "reloaderWaiting (processSymlink env ids st) = reloaderWaiting st"
proof -
  have "reloaderWaiting (fold (\<lambda>c st. if c \<in> set ids then st else removeVolumeSymlink env c st) cs st) = reloaderWaiting st" for cs
    by (induction cs arbitrary: st) (simp_all add: reloader_kept)
  then show ?thesis by (simp add: processSymlink_def)
qed

lemma cleanFires_reloader: "\<not> reloaderWaiting st \<Longrightarrow> \<not> reloaderWaiting (cleanFires env c st)"
  by (simp add: cleanFires_def Let_def reloader_kept)

lemma evStep_reloader: "evStep env sig st = (r, st') \<Longrightarrow> \<not> reloaderWaiting st \<Longrightarrow> \<not> reloaderWaiting st'"
  by (cases sig) (auto split: prod.splits dest: processEvent_reloader)

lemmas step_defs = reloadBegin_def reloadDo_def reloadEnd_def

text \<open>Time only advances, and the list of reloads only grows, by the present time.\<close>

lemma step_time:
  "pilot_step env W V s s' \<Longrightarrow> clock s \<le> clock s' \<and> (hups s' = hups s \<or> hups s' = clock s # hups s)"
  by (induction rule: pilot_step.induct) (simp_all add: step_defs scanOne_def split: prod.splits)

text \<open>The invariant of the reload goroutine: reloads so far are thirty seconds apart, counted from
  the start, and a waiting one wakes thirty seconds after the last.\<close>

definition spaced :: "int list \<Rightarrow> bool" where
  "spaced ts \<longleftrightarrow> sorted_wrt (\<lambda>a b. b + 30 * second \<le> a) ts"

definition reloadInv :: "int \<Rightarrow> watchState \<Rightarrow> bool" where
  "reloadInv t0 s \<longleftrightarrow>
     spaced (hups s @ [t0]) \<and> hd (hups s @ [t0]) \<le> clock s \<and>
     (case wake s of Some t \<Rightarrow> holder s = Reloader \<and> hd (hups s @ [t0]) + 30 * second \<le> t
      | None \<Rightarrow> holder s = Reloader \<or> hd (hups s @ [t0]) \<le> lastReload s) \<and>
     (case mainAt s of MScan _ _ \<Rightarrow> holder s = Main | _ \<Rightarrow> holder s \<noteq> Main)"

lemma spaced_Cons: "ts \<noteq> [] \<Longrightarrow> spaced ts \<Longrightarrow> hd ts + 30 * second \<le> t \<Longrightarrow> spaced (t # ts)"
  by (cases ts) (auto simp: spaced_def second_def)

lemma reloadWake_late: "lastTime + 30 * second \<le> reloadWake t lastTime"
  by (simp add: reloadWake_def)

lemma step_reloadInv: "pilot_step env W V s s' \<Longrightarrow> reloadInv t0 s \<Longrightarrow> reloadInv t0 s'"
proof (induction rule: pilot_step.induct)
  case (reload_begin s)
  then show ?case
    using reloadWake_late [of "lastReload s" "clock s"]
    by (auto simp: reloadInv_def reloadBegin_def split: option.splits mainAt.splits)
next
  case (reload_do s t)
  then show ?case
    using spaced_Cons [of "hups s @ [t0]" "clock s"]
    by (auto simp: reloadInv_def reloadDo_def split: mainAt.splits)
qed (auto simp: reloadInv_def reloadEnd_def scanOne_def split: option.splits mainAt.splits prod.splits)

lemma steps_reloadInv: "pilot_steps env W V s s' \<Longrightarrow> reloadInv t0 s \<Longrightarrow> reloadInv t0 s'"
  by (induction rule: rtranclp_induct) (auto intro: step_reloadInv)

lemma start_reloadInv: "watchStart env names startOk pr t st0 = Inr s0 \<Longrightarrow> reloadInv t s0"
  by (auto simp: watchStart_def reloadInv_def spaced_def split: prod.splits option.splits startres.splits)

text \<open>C36: The collector is not reloaded in bursts: in every run of the pilot any two reloads
  are at least thirty seconds apart, and the first comes at least thirty seconds after the
  start, however many configurations are written in between.\<close>

theorem reloads_thirty_seconds_apart:
  assumes "watchStart env names startOk pr t st0 = Inr s0" and "pilot_steps env W V s0 s"
  shows "sorted_wrt (\<lambda>later earlier. earlier + 30 * second \<le> later) (hups s @ [t])"
  using steps_reloadInv [OF assms(2) start_reloadInv [OF assms(1)]] by (simp add: reloadInv_def spaced_def)

definition half :: watchState where
  "half = reloadDo ((reloadBegin asked)\<lparr>clock := 30 * second\<rparr>)"

lemma asked_half: "pilot_steps exampleEnv W V asked half"
proof -
  let ?b = "reloadBegin asked"
  have b: "pilot_step exampleEnv W V asked ?b"
    by (rule pilot_step.reload_begin) (simp_all add: asked_def idle_def)
  have "pilot_step exampleEnv W V ?b (?b\<lparr>clock := clock ?b + 30 * second\<rparr>)"
    by (rule pilot_step.tick) (simp_all add: reloadBegin_def asked_def idle_def second_def)
  then have t: "pilot_step exampleEnv W V ?b (?b\<lparr>clock := 30 * second\<rparr>)"
    by (simp add: reloadBegin_def asked_def idle_def)
  have "pilot_step exampleEnv W V (?b\<lparr>clock := 30 * second\<rparr>) half"
    unfolding half_def by (rule pilot_step.reload_do [where t = "30 * second"]) (simp_all add: reloadBegin_def asked_def idle_def reloadWake_def second_def)
  then show ?thesis using b t by (meson r_into_rtranclp rtranclp.rtrancl_into_rtrancl)
qed

theorem reloads_thirty_seconds_apart_witness:
  "hups half = [30 * second] \<and> sorted_wrt (\<lambda>later earlier. earlier + 30 * second \<le> later) (hups half @ [0])"
proof -
  have "pilot_steps exampleEnv {webWorld} {} idle half"
    using idle_asked asked_half by (rule converse_rtranclp_into_rtranclp)
  from reloads_thirty_seconds_apart [OF start_idle this]
  show ?thesis by (simp add: half_def reloadDo_def reloadBegin_def asked_def idle_def)
qed

text \<open>A request that a reload still to come will serve.\<close>

definition pending :: "watchState \<Rightarrow> bool" where
  "pending s \<longleftrightarrow> \<not> reloaderWaiting (pilot s) \<and> \<not> (holder s = Reloader \<and> wake s = None)"

lemma step_pending: "pilot_step env W V s s' \<Longrightarrow> pending s \<Longrightarrow> hups s' = clock s # hups s \<or> pending s' \<and> hups s' = hups s"
proof (induction rule: pilot_step.induct)
  case (event s sig r st')
  then show ?case using evStep_reloader by (fastforce simp: pending_def)
next
  case (scan_one s c cs all w)
  obtain e st' where one: "processContainers env w [c] (pilot s) = (e, st')" by fastforce
  then show ?case using scan_one processOne_reloader [OF one] by (auto simp: pending_def scanOne_def)
qed (auto simp: pending_def step_defs processSymlink_reloader cleanFires_reloader)

lemma steps_pending:
  assumes "pilot_steps env W V s s'" and "pending s"
  shows "clock s \<le> clock s' \<and>
    ((pending s' \<and> hups s' = hups s) \<or> (\<exists>hs. hs \<noteq> [] \<and> hups s' = hs @ hups s \<and> list_all (\<lambda>h. clock s \<le> h) hs))"
  using assms
proof (induction rule: rtranclp_induct)
  case (step y z)
  note yz = step_time [OF step.hyps(2)]
  from step.IH [OF step.prems] consider "pending y" "hups y = hups s"
    | hs where "hs \<noteq> []" "hups y = hs @ hups s" "list_all (\<lambda>h. clock s \<le> h) hs" by blast
  then show ?case
  proof cases
    case 1
    from step_pending [OF step.hyps(2) 1(1)] have "pending z \<and> hups z = hups s \<or> hups z = [clock y] @ hups s"
      using 1(2) by auto
    then show ?thesis using step.IH [OF step.prems] yz by fastforce
  next
    case 2
    have before: "clock s \<le> clock y" using step.IH [OF step.prems] by simp
    from yz 2(2) have "hups z = hs @ hups s \<or> hups z = (clock y # hs) @ hups s" by auto
    moreover have "list_all (\<lambda>h. clock s \<le> h) (clock y # hs)" using before 2(3) by simp
    ultimately show ?thesis using 2 before yz by (metis list.distinct(1) order.trans)
  qed
qed simp

text \<open>C12: A written configuration is loaded: when an event writes a configuration while the
  collector is not just being reloaded, then whatever happens afterwards, by the time the reload
  goroutine waits for requests again the collector has been reloaded after the write.\<close>

theorem written_configuration_reloaded:
  assumes "processEvent env w action cid (pilot s) = (e, st')" and "confs st' \<noteq> confs (pilot s)"
    and "\<not> (holder s = Reloader \<and> wake s = None)"
    and "pilot_steps env W V (s\<lparr>pilot := st'\<rparr>) s'" and "reloaderWaiting (pilot s')"
  shows "\<exists>hs. hs \<noteq> [] \<and> hups s' = hs @ hups s \<and> list_all (\<lambda>h. clock s \<le> h) hs"
proof -
  have "pending (s\<lparr>pilot := st'\<rparr>)"
    using processEvent_reloader [OF assms(1)] assms(2,3) by (simp add: pending_def)
  from steps_pending [OF assms(4) this] assms(5) show ?thesis by (auto simp: pending_def)
qed

theorem written_configuration_reloaded_witness:
  "pilot_steps exampleEnv {webWorld} {} idle (reloadEnd half) \<and> hups (reloadEnd half) \<noteq> hups idle"
proof -
  have "pilot_step exampleEnv {webWorld} {} half (reloadEnd half)"
    by (rule pilot_step.reload_end) (simp_all add: half_def reloadDo_def reloadBegin_def asked_def idle_def)
  then have after: "pilot_steps exampleEnv {webWorld} {} asked (reloadEnd half)"
    using asked_half by (meson rtranclp.rtrancl_into_rtrancl)
  then have run: "pilot_steps exampleEnv {webWorld} {} idle (reloadEnd half)"
    using idle_asked by (rule converse_rtranclp_into_rtranclp [rotated])
  have from_ev: "pilot_steps exampleEnv {webWorld} {} (idle\<lparr>pilot := pilot asked\<rparr>) (reloadEnd half)"
    using after by (simp add: asked_def)
  have new: "confs (pilot asked) \<noteq> confs (pilot idle)" "\<not> (holder idle = Reloader \<and> wake idle = None)"
    by (simp_all add: asked_def idle_def)
  have waiting: "reloaderWaiting (pilot (reloadEnd half))"
    by (simp add: reloadEnd_def doReload_def half_def reloadDo_def reloadBegin_def asked_def idle_def)
  from written_configuration_reloaded [OF idle_event new from_ev waiting] run show ?thesis by auto
qed

text \<open>The exception is a defect: a configuration written between the reload of the collector and
  the moment the goroutine waits again (five seconds under Fluentd) drops its request, and the
  goroutine then waits although nothing has loaded the configuration.\<close>

theorem request_during_reload_lost:
  assumes "\<not> dead s" and "mainAt s \<noteq> MEnd" and "evRunning s" and "holder s = Reloader" and "wake s = None"
    and "\<not> reloaderWaiting (pilot s)" and "w \<in> W" and "processEvent env w action cid (pilot s) = (None, st')"
  shows "\<exists>s'. pilot_steps env W V s s' \<and> confs (pilot s') = confs st' \<and> reloaderWaiting (pilot s') \<and>
    holder s' = Free \<and> hups s' = hups s"
proof -
  let ?s1 = "s\<lparr>pilot := st', evRunning := (EvGo = EvGo), dead := (EvGo = EvPanic)\<rparr>"
  have "evStep env (EvMsg w action cid) (pilot s) = (EvGo, st')" using assms(8) by simp
  then have one: "pilot_step env W V s ?s1"
    using assms(1-3,7) by (intro pilot_step.event [where sig = "EvMsg w action cid"]) simp_all
  have two: "pilot_step env W V ?s1 (reloadEnd ?s1)"
    by (rule pilot_step.reload_end) (use assms in simp_all)
  from one two have "pilot_steps env W V s (reloadEnd ?s1)" by (meson r_into_rtranclp rtranclp.rtrancl_into_rtrancl)
  then show ?thesis by (intro exI [of _ "reloadEnd ?s1"]) (simp add: reloadEnd_def doReload_def)
qed

section \<open>A living container stays configured\<close>

text \<open>A container whose configuration nothing is set to remove.\<close>

definition unmarked :: "string \<Rightarrow> pilotState \<Rightarrow> bool" where
  "unmarked c st \<longleftrightarrow> gm_get (watched st) c = None \<and> c \<notin> set (cleaners st)"

definition keptConf :: "pilotEnv \<Rightarrow> string \<Rightarrow> string \<Rightarrow> pilotState \<Rightarrow> bool" where
  "keptConf env c content st \<longleftrightarrow> unmarked c st \<and> gm_get (confs st) (GetConfPath env c) = Some content"

lemma cleaners_frame [simp]:
  "cleaners (createVolumeSymlink env w cj st) = cleaners st" "cleaners (removeVolumeSymlink env c st) = cleaners st"
  "cleaners (tryReload st) = cleaners st" "cleaners (doReload st) = cleaners st"
  "watched (doReload st) = watched st" "confs (doReload st) = confs st"
  by (simp_all add: createVolumeSymlink_def removeVolumeSymlink_def tryReload_def doReload_def Let_def)

lemma newContainer_cleaners: "newContainer env w cj st = (e, st') \<Longrightarrow> cleaners st' = cleaners st"
proof (cases "applyEnv (envWork (logPrefix env) (Env cj)) (Labels cj)")
  case (Inr labels)
  assume "newContainer env w cj st = (e, st')"
  then show ?thesis using Inr
    by (cases "getLogConfigs env (LogPath cj) (Mounts cj) labels")
      (auto simp: newContainer_def Let_def split: if_splits option.splits)
qed (auto simp: newContainer_def Let_def)

lemma newContainer_keeps:
  assumes "newContainer env w cj st = (e, st')" and "ID cj \<noteq> c" and "keptConf env c content st"
  shows "keptConf env c content st'"
  using assms(1)
  by (cases rule: newContainer_cases)
    (use assms newContainer_cleaners [OF assms(1)] in \<open>auto simp: keptConf_def unmarked_def conf.conf_inj\<close>)

lemma kept_exists: "keptConf env c content st \<Longrightarrow> existsConf env c st"
  by (simp add: keptConf_def existsConf_def)

lemma processSymlink_kept: "keptConf env c content (processSymlink env ids st) = keptConf env c content st"
proof -
  have "keptConf env c content (fold (\<lambda>d st. if d \<in> set ids then st else removeVolumeSymlink env d st) ds st) =
      keptConf env c content st" for ds
    by (induction ds arbitrary: st) (simp_all add: keptConf_def unmarked_def)
  then show ?thesis by (simp add: processSymlink_def)
qed

text \<open>An event keeps the configuration, or it is the death of the container itself.\<close>

lemma processEvent_keeps:
  assumes "processEvent env w a d st = (e, st')" and "\<And>cj. inspect w d = Some cj \<Longrightarrow> ID cj = d"
    and "keptConf env c content st"
  shows "keptConf env c content st' \<or> st' = delContainer env c st"
proof -
  consider "st' = st" | "st' = delContainer env d st"
    | cj where "newContainer env w cj st = (e, st')" "ID cj = d" "\<not> existsConf env d st"
    using assms(1,2) by (auto simp: processEvent_def split: if_splits option.splits)
  then show ?thesis
  proof cases
    case 2
    then show ?thesis using assms(3)
      by (cases "c = d") (auto simp: keptConf_def unmarked_def delContainer_def OnDestroyEvent_def Let_def feed_other)
  next
    case 3
    then have "d \<noteq> c" using kept_exists [OF assms(3)] by auto
    then show ?thesis using newContainer_keeps [OF 3(1) _ assms(3)] 3(2) by simp
  qed (use assms(3) in auto)
qed

lemma processOne_keeps:
  assumes "processContainers env w [x] st = (e, st')" and "\<And>cj. inspect w (fst x) = Some cj \<Longrightarrow> ID cj = fst x"
    and "keptConf env c content st"
  shows "keptConf env c content st'"
proof -
  obtain d state where x: "x = (d, state)" by fastforce
  consider "st' = st" | cj e1 where "newContainer env w cj st = (e1, st')" "ID cj = d" "\<not> existsConf env d st"
    using assms(1,2) by (auto simp: x split: if_splits option.splits prod.splits lerr.splits)
  then show ?thesis
  proof cases
    case 2
    then have "ID cj \<noteq> c" using kept_exists [OF assms(3)] by auto
    then show ?thesis by (rule newContainer_keeps [OF 2(1) _ assms(3)])
  qed (use assms(3) in auto)
qed

lemma cleanFires_keeps: "keptConf env c content st \<Longrightarrow> keptConf env c content (cleanFires env d st)"
  by (auto simp: keptConf_def unmarked_def cleanFires_def Let_def conf.conf_inj)

lemma scanLoop_watched:
  "scanLoop wenv registry cp cs (ws, fs) = Inr (ws', fs') \<Longrightarrow> gm_get ws c = None \<Longrightarrow> gm_get ws' c = None"
proof (induction cs arbitrary: ws fs)
  case (Cons d cs)
  have del: "gm_get (gm_delete d ws) c = None" using Cons.prems(2) by simp
  consider gs where "scanLoop wenv registry cp cs (gm_delete d ws, gs) = Inr (ws', fs')"
    | "scanLoop wenv registry cp cs (ws, fs) = Inr (ws', fs')"
    using Cons.prems(1) by (auto simp: Let_def split: if_splits sum.splits bool.splits)
  then show ?case using Cons.IH del Cons.prems(2) by cases blast+
qed simp

lemma fbScan_keeps:
  assumes "fbScan wenv (watched st, confs st) = Inr (ws, fs)" and "keptConf env c content st"
    and "pilotType env = ''filebeat''"
  shows "keptConf env c content (st\<lparr>watched := ws, confs := fs\<rparr>)"
proof (cases "getRegsitryState wenv")
  case None
  then show ?thesis using assms(1,2) by (simp add: fbScan_def keptConf_def unmarked_def)
next
  case (Some registry)
  then have run: "scanLoop wenv registry (loadConfigPaths wenv (watched st) (confs st)) (map fst (watched st)) (watched st, confs st) =
      Inr (ws, fs)" using assms(1) by (simp add: fbScan_def)
  have c: "gm_get (watched st) c = None" using assms(2) by (simp add: keptConf_def unmarked_def)
  have path: "GetConfPath env = fbGetConfPath" using assms(3) by (simp add: GetConfPath_def)
  have "gm_get fs (fbGetConfPath c) = gm_get (confs st) (fbGetConfPath c)"
    using scanLoop_removes [OF run, of "fbGetConfPath c"] c by (auto simp: fb.conf_inj map_of_eq_None_iff)
  then show ?thesis
    using assms(2) scanLoop_watched [OF run c] by (simp add: keptConf_def unmarked_def path)
qed

lemma step_keeps:
  assumes "pilot_step env W V s s'" and "\<And>w d cj. w \<in> W \<Longrightarrow> inspect w d = Some cj \<Longrightarrow> ID cj = d"
    and "keptConf env c content (pilot s)"
  shows "keptConf env c content (pilot s') \<or> pilot s' = delContainer env c (pilot s)"
  using assms(1,3)
proof (induction rule: pilot_step.induct)
  case (event s sig r st')
  show ?case
  proof (cases sig)
    case (EvMsg w a d)
    obtain e where "processEvent env w a d (pilot s) = (e, st')" using event EvMsg by (auto split: prod.splits)
    moreover have "inspect w d = Some cj \<Longrightarrow> ID cj = d" for cj using assms(2) event EvMsg by blast
    ultimately show ?thesis using processEvent_keeps event by fastforce
  qed (use event in auto)
next
  case (scan_one s x xs all w)
  obtain e st' where one: "processContainers env w [x] (pilot s) = (e, st')" by fastforce
  have "keptConf env c content st'" by (rule processOne_keeps [OF one]) (use assms(2) scan_one in auto)
  then show ?case by (simp add: scanOne_def one)
next
  case (watcher s wenv ws fs)
  then have "fbScan wenv (watched (pilot s), confs (pilot s)) = Inr (ws, fs)" by (simp split: sum.splits)
  from fbScan_keeps [OF this] show ?case using watcher by simp
qed (auto simp: step_defs processSymlink_kept intro: cleanFires_keeps, auto simp: keptConf_def unmarked_def)


definition worldC9 :: pilotWorld where
  "worldC9 = exampleWorld\<lparr>inspect := (\<lambda>d. if d = ''c9'' then Some webContainer else None)\<rparr>"


end
