(* ===== verification/Proxy_Server.thy ===== *)
theory Proxy_Server
  imports Proxy_Request Conn_Pool Stream_Utils
begin

text \<open>
  The proxy service: \<open>proxy/service.go\<close>, \<open>proxy/args.go\<close>, \<open>proxy/http.go\<close>, the listeners of
  \<open>utils/serve-channel.go\<close>, the pool of parent connections of \<open>utils/structs.go\<close> and the dialling
  functions of \<open>utils/functions.go\<close>, over the request decoding, the pool and the relay of the
  imported theories. A field that is a pointer is an option, and following a nil pointer is a panic.
  The network is a record of functions: what is dialled, and the bytes that then come in, are
  answers of the environment.
\<close>

section \<open>Arguments\<close>

record Args =
  Local :: "string option"
  AParent :: "string option"
  CertBytes :: "byte list"
  KeyBytes :: "byte list"

record HTTPArgsPtr = Args +
  AAlways :: "bool option"
  HTTPTimeout :: "int option"
  Interval :: "int option"
  Blocked :: "string option"
  Direct :: "string option"
  AAuthFile :: "string option"
  AAuth :: "string list option"
  ParentType :: "string option"
  LocalType :: "string option"
  Timeout :: "int option"
  PoolSize :: "int option"
  CheckParentInterval :: "int option"

definition TYPE_TCP :: string where "TYPE_TCP = ''tcp''"

definition TYPE_TLS :: string where "TYPE_TLS = ''tls''"

definition emptyArgs :: HTTPArgsPtr where
  "emptyArgs =
     \<lparr>Local = None, AParent = None, CertBytes = [], KeyBytes = [], AAlways = None, HTTPTimeout = None,
      Interval = None, Blocked = None, Direct = None, AAuthFile = None, AAuth = None, ParentType = None,
      LocalType = None, Timeout = None, PoolSize = None, CheckParentInterval = None\<rparr>"

text \<open>\<open>TCPArgs.Protocol\<close>, through its pointer.\<close>

definition Protocol :: "bool option \<Rightarrow> string option" where
  "Protocol isTLS = map_option (\<lambda>b. if b then ''tls'' else ''tcp'') isTLS"

text \<open>The arguments of the service that the daemon registers.\<close>

definition InitProxy :: "int \<Rightarrow> HTTPArgsPtr" where
  "InitProxy proxyPort =
     emptyArgs\<lparr>HTTPTimeout := Some 5000, Timeout := Some 5000, AAlways := Some True,
       Local := Some (''0.0.0.0:'' @ showInt proxyPort), AParent := Some [], AAuthFile := Some [],
       AAuth := Some [], LocalType := Some TYPE_TCP\<rparr>"

section \<open>The network\<close>

record proxyNet =
  nUrlHost :: "string \<Rightarrow> string option"
  nHostname :: "string \<Rightarrow> string option"
  nSplitHostPort :: "string \<Rightarrow> (string \<times> string) option"
  nAtoi :: "string \<Rightarrow> int option"
  nLookupIP :: "string \<Rightarrow> string list option"
  nInterfaces :: "string list option"
  nFile :: "string \<Rightarrow> string option"
  nKeyPair :: "byte list \<Rightarrow> byte list \<Rightarrow> bool"
  nCertsFromPEM :: "byte list \<Rightarrow> bool"
  nDial :: "nat \<Rightarrow> string \<Rightarrow> int \<Rightarrow> script option"
  nListen :: "string \<Rightarrow> string option"

text \<open>\<open>ConnectHost\<close>: a dialled connection is what the other side will send on it. The number counts
  the calls, since two calls with the same address need not have the same outcome.\<close>

definition ConnectHost :: "proxyNet \<Rightarrow> nat \<Rightarrow> string \<Rightarrow> int \<Rightarrow> script option" where
  "ConnectHost net k hostAndPort timeout = nDial net k hostAndPort timeout"

definition getRequestTlsConfig :: "proxyNet \<Rightarrow> byte list \<Rightarrow> byte list \<Rightarrow> string option" where
  "getRequestTlsConfig net cert key =
     (if \<not> nKeyPair net cert key then Some ''key pair''
      else if \<not> nCertsFromPEM net cert then Some ''failed to parse root certificate'' else None)"

definition TlsConnect :: "proxyNet \<Rightarrow> nat \<Rightarrow> string \<Rightarrow> int \<Rightarrow> int \<Rightarrow> byte list \<Rightarrow> byte list \<Rightarrow> script option" where
  "TlsConnect net k host port timeout cert key =
     (if getRequestTlsConfig net cert key \<noteq> None then None
      else nDial net k (host @ '':'' @ showInt port) timeout)"

text \<open>\<open>None\<close> is a panic: an address without a colon has no second part.\<close>

definition TlsConnectHost :: "proxyNet \<Rightarrow> nat \<Rightarrow> string \<Rightarrow> int \<Rightarrow> byte list \<Rightarrow> byte list \<Rightarrow> script option option" where
  "TlsConnectHost net k host timeout cert key =
     (case splitC (CHR '':'') host of
        h0 # h1 # _ \<Rightarrow> Some (TlsConnect net k h0 (case nAtoi net h1 of Some p \<Rightarrow> p | None \<Rightarrow> 0) timeout cert key)
      | _ \<Rightarrow> None)"

text \<open>The error of an unusable root certificate is overwritten by the outcome of listening.\<close>

definition ListenTlsFn :: "proxyNet \<Rightarrow> string \<Rightarrow> int \<Rightarrow> byte list \<Rightarrow> byte list \<Rightarrow> string option" where
  "ListenTlsFn net ip port cert key =
     (if \<not> nKeyPair net cert key then Some ''key pair'' else nListen net (ip @ '':'' @ showInt port))"

section \<open>Listeners\<close>

text \<open>The accept loop: every accepted connection is handed to a handler in a goroutine of its own; the
  first error is given to the error handler and ends the loop. The second component is that error, if
  it came to it.\<close>

fun acceptLoop :: "(string + 'c) list \<Rightarrow> 'c list \<times> string option" where
  "acceptLoop [] = ([], None)"
| "acceptLoop (Inr c # rs) = (case acceptLoop rs of (cs, e) \<Rightarrow> (c # cs, e))"
| "acceptLoop (Inl e # rs) = ([], Some e)"

record ServerChannel =
  scIp :: string
  scPort :: int
  scListener :: bool

definition NewServerChannel :: "string \<Rightarrow> int \<Rightarrow> ServerChannel" where
  "NewServerChannel ip port = \<lparr>scIp = ip, scPort = port, scListener = False\<rparr>"

definition ListenTCP :: "proxyNet \<Rightarrow> ServerChannel \<Rightarrow> string option \<times> ServerChannel" where
  "ListenTCP net sc =
     (case nListen net (scIp sc @ '':'' @ showInt (scPort sc)) of
        Some e \<Rightarrow> (Some e, sc)
      | None \<Rightarrow> (None, sc\<lparr>scListener := True\<rparr>))"

definition ListenTls :: "proxyNet \<Rightarrow> byte list \<Rightarrow> byte list \<Rightarrow> ServerChannel \<Rightarrow> string option \<times> ServerChannel" where
  "ListenTls net cert key sc =
     (case ListenTlsFn net (scIp sc) (scPort sc) cert key of
        Some e \<Rightarrow> (Some e, sc\<lparr>scListener := False\<rparr>)
      | None \<Rightarrow> (None, sc\<lparr>scListener := True\<rparr>))"

text \<open>A datagram is handed on cut to the 2048 bytes of the buffer.\<close>

fun udpLoop :: "(string + byte list) list \<Rightarrow> byte list list \<times> string option" where
  "udpLoop [] = ([], None)"
| "udpLoop (Inr d # rs) = (case udpLoop rs of (ds, e) \<Rightarrow> (take 2048 d # ds, e))"
| "udpLoop (Inl e # rs) = ([], Some e)"

text \<open>\<open>ListenUDP\<close>: \<open>None\<close> when the address cannot be listened on.\<close>

definition ListenUDP :: "proxyNet \<Rightarrow> ServerChannel \<Rightarrow> (string + byte list) list \<Rightarrow> (byte list list \<times> string option) option" where
  "ListenUDP net sc rs = (if nListen net (scIp sc @ '':'' @ showInt (scPort sc)) \<noteq> None then None else Some (udpLoop rs))"

section \<open>The pool of parent connections\<close>

record OutPool =
  opDur :: int
  opIsTLS :: bool
  opCert :: "byte list"
  opKey :: "byte list"
  opAddress :: string
  opTimeout :: int
  opCfg :: poolConfig
  opPool :: netPool
  opDaemon :: bool

text \<open>\<open>None\<close> is a panic. \<open>k\<close> counts the calls.\<close>

definition getConn :: "proxyNet \<Rightarrow> bool \<Rightarrow> byte list \<Rightarrow> byte list \<Rightarrow> string \<Rightarrow> int \<Rightarrow> nat \<Rightarrow> script option option" where
  "getConn net isTLS cert key address timeout k =
     (if isTLS then TlsConnectHost net k address timeout cert key else Some (ConnectHost net k address timeout))"

text \<open>Whether the factory panics: it does so at every call or at none.\<close>

definition factoryPanics :: "OutPool \<Rightarrow> bool" where
  "factoryPanics op \<longleftrightarrow> opIsTLS op \<and> CHR '':'' \<notin> set (opAddress op)"

definition poolConn :: "proxyNet \<Rightarrow> OutPool \<Rightarrow> nat \<Rightarrow> script option" where
  "poolConn net op k =
     (case getConn net (opIsTLS op) (opCert op) (opKey op) (opAddress op) (opTimeout op) k of
        Some r \<Rightarrow> r | None \<Rightarrow> None)"

text \<open>A negative capacity panics when the channel is made, and a panicking factory at the first fill,
  which takes place when the capacity is not zero. The daemon runs when there is something to keep
  filled and an interval is given.\<close>

definition NewOutPool ::
  "proxyNet \<Rightarrow> int \<Rightarrow> bool \<Rightarrow> byte list \<Rightarrow> byte list \<Rightarrow> string \<Rightarrow> int \<Rightarrow> int \<Rightarrow> int \<Rightarrow> OutPool option" where
  "NewOutPool net dur isTLS cert key address timeout initialCap maxCap =
     (let cfg = \<lparr>Factory = (\<lambda>k. case getConn net isTLS cert key address timeout k of Some (Some _) \<Rightarrow> True | _ \<Rightarrow> False),
                 IsActive = (\<lambda>_. True), InitialCap = nat initialCap, MaxCap = nat maxCap\<rparr>;
          op = \<lparr>opDur = dur, opIsTLS = isTLS, opCert = cert, opKey = key, opAddress = address, opTimeout = timeout,
                opCfg = cfg, opPool = snd (NewConnPool cfg), opDaemon = (initialCap > 0 \<and> dur > 0)\<rparr>
      in if maxCap < 0 \<or> (factoryPanics op \<and> initialCap > 0 \<and> maxCap > 0) then None else Some op)"

text \<open>One round of the daemon: it dials the parent once, outside the pool, and empties the pool when
  that fails. \<open>ok\<close> is the outcome.\<close>

definition daemonRound :: "bool \<Rightarrow> OutPool \<Rightarrow> OutPool" where
  "daemonRound ok op = (if ok then op else op\<lparr>opPool := ReleaseAll (opCfg op) (opPool op)\<rparr>)"

section \<open>The HTTP service\<close>

record HTTPsvc =
  hOutPool :: "OutPool option"
  hCfg :: HTTPArgsPtr
  hChecker :: Checker
  hBasicAuth :: BasicAuth

text \<open>A zero map has no shards: using it panics.\<close>

definition NewHTTP :: HTTPsvc where
  "NewHTTP = \<lparr>hOutPool = None, hCfg = emptyArgs, hChecker = \<lparr>cdata = [], blockedMap = [], directMap = []\<rparr>, hBasicAuth = []\<rparr>"

text \<open>\<open>InitBasicAuth\<close> with its pointers: the list of accounts is looked at after the file.\<close>

definition InitBasicAuthPtr :: "proxyNet \<Rightarrow> HTTPArgsPtr \<Rightarrow> BasicAuth option" where
  "InitBasicAuthPtr net a =
     do { f \<leftarrow> AAuthFile a;
          if f \<noteq> [] \<and> nFile net f = None then Some NewConcurrentMap
          else do { l \<leftarrow> AAuth a;
                    InitBasicAuth \<lparr>Parent = [], Always = False, AuthFile = f, AuthList = l\<rparr> (nFile net f) } }"

definition IsBasicAuthPtr :: "HTTPArgsPtr \<Rightarrow> bool option" where
  "IsBasicAuthPtr a =
     do { f \<leftarrow> AAuthFile a;
          if f \<noteq> [] then Some True else map_option (\<lambda>l. length l > 0) (AAuth a) }"

definition InitService :: "proxyNet \<Rightarrow> HTTPsvc \<Rightarrow> HTTPsvc option" where
  "InitService net s =
     do { ba \<leftarrow> InitBasicAuthPtr net (hCfg s);
          parent \<leftarrow> AParent (hCfg s);
          if parent = [] then Some (s\<lparr>hBasicAuth := ba\<rparr>)
          else do { t \<leftarrow> HTTPTimeout (hCfg s); i \<leftarrow> Interval (hCfg s);
                    b \<leftarrow> Blocked (hCfg s); d \<leftarrow> Direct (hCfg s);
                    c \<leftarrow> NewChecker (nFile net b) (nFile net d);
                    Some (s\<lparr>hBasicAuth := ba, hChecker := c\<rparr>) } }"

definition InitOutConnPool :: "proxyNet \<Rightarrow> HTTPsvc \<Rightarrow> HTTPsvc option" where
  "InitOutConnPool net s =
     do { ty \<leftarrow> ParentType (hCfg s);
          if ty = TYPE_TLS \<or> ty = TYPE_TCP then
            do { dur \<leftarrow> CheckParentInterval (hCfg s); parent \<leftarrow> AParent (hCfg s);
                 t \<leftarrow> Timeout (hCfg s); n \<leftarrow> PoolSize (hCfg s);
                 op \<leftarrow> NewOutPool net dur (ty = TYPE_TLS) (CertBytes (hCfg s)) (KeyBytes (hCfg s)) parent t n (n * 2);
                 Some (s\<lparr>hOutPool := Some op\<rparr>) }
          else Some s }"

text \<open>\<open>Start\<close>: the error of listening, and the service with its listener. The address is split and its
  port read without looking at errors.\<close>

definition HTTPStart ::
  "proxyNet \<Rightarrow> HTTPArgsPtr \<Rightarrow> HTTPsvc \<Rightarrow> (string option \<times> HTTPsvc \<times> ServerChannel) option" where
  "HTTPStart net args s =
     do { parent \<leftarrow> AParent args;
          s1 \<leftarrow> (if parent \<noteq> [] then InitOutConnPool net (s\<lparr>hCfg := args\<rparr>) else Some (s\<lparr>hCfg := args\<rparr>));
          s2 \<leftarrow> InitService net s1;
          addr \<leftarrow> Local args;
          ty \<leftarrow> LocalType args;
          let (host, port) = (case nSplitHostPort net addr of Some hp \<Rightarrow> hp | None \<Rightarrow> ([], []));
              sc = NewServerChannel host (case nAtoi net port of Some p \<Rightarrow> p | None \<Rightarrow> 0);
              (err, sc') = (if ty = TYPE_TCP then ListenTCP net sc else ListenTls net (CertBytes args) (KeyBytes args) sc)
          in Some (err, s2, sc') }"

definition StopService :: "HTTPsvc \<Rightarrow> HTTPsvc" where
  "StopService s =
     (case hOutPool s of
        None \<Rightarrow> s
      | Some op \<Rightarrow> s\<lparr>hOutPool := Some (op\<lparr>opPool := ReleaseAll (opCfg op) (opPool op)\<rparr>)\<rparr>)"

section \<open>Handling a connection\<close>

type_synonym tcpConn = "script Stream_Utils.conn"

definition toBytes :: "string \<Rightarrow> byte list" where
  "toBytes cs = map of_char cs"

text \<open>The one read of at most 4096 bytes that the request is decoded from.\<close>

definition readHead :: "script \<Rightarrow> (rerr + string) \<times> script" where
  "readHead src =
     (case readSome 4096 src of ((c, e), src') \<Rightarrow>
        (case e of
           None \<Rightarrow> Inr (charsOf c)
         | Some EOF \<Rightarrow> Inl REof
         | Some (IOErr _) \<Rightarrow> Inl RRead, src'))"

definition HTTPSReply :: "byte list" where
  "HTTPSReply = toBytes (''HTTP/1.1 200 Connection established'' @ crlf @ crlf)"

definition poolTake :: "OutPool \<Rightarrow> nat option \<times> OutPool" where
  "poolTake op = (case PoolGet (opCfg op) (opPool op) of (r, p) \<Rightarrow> (r, op\<lparr>opPool := p\<rparr>))"

datatype dialed = DialPanic | DialError | Dialed "nat option" script

text \<open>The connection to the target: one of the pool, or a new one; \<open>k\<close> counts the direct calls.\<close>

definition connectOut :: "proxyNet \<Rightarrow> nat \<Rightarrow> HTTPsvc \<Rightarrow> bool \<Rightarrow> string \<Rightarrow> dialed \<times> HTTPsvc" where
  "connectOut net k s useProxy address =
     (if useProxy then
        (case hOutPool s of
           None \<Rightarrow> (DialPanic, s)
         | Some op \<Rightarrow>
             if conns (opPool op) = [] \<and> factoryPanics op then (DialPanic, s)
             else (case poolTake op of
                     (None, op') \<Rightarrow> (DialError, s\<lparr>hOutPool := Some op'\<rparr>)
                   | (Some c, op') \<Rightarrow>
                       (Dialed (Some c) (case poolConn net op c of Some src \<Rightarrow> src | None \<Rightarrow> []), s\<lparr>hOutPool := Some op'\<rparr>)))
      else (case Timeout (hCfg s) of
              None \<Rightarrow> (DialPanic, s)
            | Some t \<Rightarrow> (case ConnectHost net k address t of
                           None \<Rightarrow> (DialError, s)
                         | Some src \<Rightarrow> (Dialed None src, s))))"

text \<open>What became of a client connection. After a panic, which is recovered, nothing is closed.\<close>

record proxyRun =
  prIn :: tcpConn
  prOut :: "tcpConn option"
  prParent :: "nat option"
  prClosed :: bool
  prPanic :: bool

definition ended :: "tcpConn \<Rightarrow> proxyRun" where
  "ended c = \<lparr>prIn = c, prOut = None, prParent = None, prClosed = True, prPanic = False\<rparr>"

definition panicked :: "tcpConn \<Rightarrow> proxyRun" where
  "panicked c = \<lparr>prIn = c, prOut = None, prParent = None, prClosed = False, prPanic = True\<rparr>"

text \<open>\<open>OutToTCP\<close>. The writers of the client's and of the target's connection are \<open>uin\<close> and \<open>uout\<close>;
  the outcomes of writing the reply and the head are not looked at. The relay has no rate limit, and
  its closing callback closes both connections.\<close>

definition OutToTCP ::
  "proxyNet \<Rightarrow> byte list writer \<Rightarrow> byte list writer \<Rightarrow> bool \<Rightarrow> nat \<Rightarrow> HTTPsvc \<Rightarrow> bool \<Rightarrow> string \<Rightarrow> HTTPRequest \<Rightarrow> tcpConn \<Rightarrow>
     (proxyRun \<times> HTTPsvc) option" where
  "OutToTCP net uin uout srcFirst k s useProxy localAddr req inC =
     (if IsDeadLoop (nSplitHostPort net) (nLookupIP net) (nInterfaces net) localAddr (RHost req) then Some (ended inC, s)
      else case connectOut net k s useProxy (RHost req) of
             (DialPanic, s') \<Rightarrow> Some (panicked inC, s')
           | (DialError, s') \<Rightarrow> Some (ended inC, s')
           | (Dialed parent src, s') \<Rightarrow>
               (let inC1 = (if IsHTTPSReq req \<and> \<not> useProxy then inC\<lparr>outp := snd (uin (outp inC) HTTPSReply)\<rparr> else inC);
                    out0 = (if IsHTTPSReq req \<and> \<not> useProxy then [] else snd (uout [] (toBytes (HeadBuf req))))
                in case IoBind (\<lambda>l _. (None, l)) (None :: unit option) srcFirst readSome uin uout inC1
                          (Stream_Utils.conn.make src out0) of
                     None \<Rightarrow> None
                   | Some (fired, _, _, inC2, outC) \<Rightarrow>
                       Some (\<lparr>prIn = inC2, prOut = Some outC, prParent = parent, prClosed = (fired \<noteq> []), prPanic = False\<rparr>, s')))"

text \<open>The route of a request, through the pointers of the arguments.\<close>

definition routeOf :: "proxyNet \<Rightarrow> HTTPsvc \<Rightarrow> HTTPRequest \<Rightarrow> (bool \<times> Checker) option" where
  "routeOf net s req =
     do { parent \<leftarrow> AParent (hCfg s);
          always \<leftarrow> (if parent = [] then Some False else AAlways (hCfg s));
          chooseRoute (nHostname net) \<lparr>Parent = parent, Always = always, AuthFile = [], AuthList = []\<rparr> (hChecker s) req }"

text \<open>\<open>callback\<close>: the handler of one connection, with local address \<open>localAddr\<close>.\<close>

definition proxyCallback ::
  "proxyNet \<Rightarrow> byte list writer \<Rightarrow> byte list writer \<Rightarrow> bool \<Rightarrow> nat \<Rightarrow> string \<Rightarrow> tcpConn \<Rightarrow> HTTPsvc \<Rightarrow> (proxyRun \<times> HTTPsvc) option" where
  "proxyCallback net uin uout srcFirst k localAddr inC s =
     (case IsBasicAuthPtr (hCfg s) of
        None \<Rightarrow> Some (panicked inC, s)
      | Some auth \<Rightarrow>
          (case readHead (inp inC) of (input, src') \<Rightarrow>
             let inC1 = inC\<lparr>inp := src'\<rparr> in
             case NewHTTPRequest (nUrlHost net) auth (hBasicAuth s) input of
               Inl RPanic \<Rightarrow> Some (panicked inC1, s)
             | Inl e \<Rightarrow> Some (ended inC1, s)
             | Inr req \<Rightarrow>
                 (case routeOf net s req of
                    None \<Rightarrow> Some (panicked inC1, s)
                  | Some (useProxy, c) \<Rightarrow>
                      OutToTCP net uin uout srcFirst k (s\<lparr>hChecker := c\<rparr>) useProxy localAddr req inC1)))"

section \<open>Services\<close>

type_synonym services = "string \<Rightarrow> (HTTPsvc \<times> HTTPArgsPtr) option"

definition Register :: "string \<Rightarrow> HTTPsvc \<Rightarrow> HTTPArgsPtr \<Rightarrow> services \<Rightarrow> services" where
  "Register name s args m = m(name \<mapsto> (s, args))"

text \<open>\<open>Run\<close> starts a registered service in a goroutine. A panic or an error of \<open>Start\<close> there ends
  the whole process.\<close>

datatype runEnd = NotRegistered | ProcessExits | Serving HTTPsvc ServerChannel

definition Run :: "proxyNet \<Rightarrow> string \<Rightarrow> services \<Rightarrow> runEnd" where
  "Run net name m =
     (case m name of
        None \<Rightarrow> NotRegistered
      | Some (s, args) \<Rightarrow>
          (case HTTPStart net args s of
             None \<Rightarrow> ProcessExits
           | Some (Some err, _) \<Rightarrow> ProcessExits
           | Some (None, s', sc) \<Rightarrow> Serving s' sc))"

text \<open>What goes on while the service runs: a client is handled, the fill worker or the daemon of the
  pool has its round. Handlers run concurrently; the order is that in which they take connections.\<close>

datatype upkeep = FillPool | DaemonRound bool

datatype proxyEvent = Client string tcpConn | Upkeep upkeep

fun poolUpkeep :: "upkeep \<Rightarrow> OutPool \<Rightarrow> OutPool" where
  "poolUpkeep FillPool op = op\<lparr>opPool := snd (fillRound (opCfg op) True (opPool op))\<rparr>"
| "poolUpkeep (DaemonRound ok) op = daemonRound ok op"

fun serve ::
  "proxyNet \<Rightarrow> byte list writer \<Rightarrow> byte list writer \<Rightarrow> bool \<Rightarrow> nat \<Rightarrow> proxyEvent list \<Rightarrow> HTTPsvc \<Rightarrow>
     (proxyRun list \<times> HTTPsvc) option" where
  "serve net uin uout srcFirst k [] s = Some ([], s)"
| "serve net uin uout srcFirst k (Client a c # es) s =
     do { (r, s1) \<leftarrow> proxyCallback net uin uout srcFirst k a c s;
          (rs, s2) \<leftarrow> serve net uin uout srcFirst (Suc k) es s1;
          Some (r # rs, s2) }"
| "serve net uin uout srcFirst k (Upkeep u # es) s =
     serve net uin uout srcFirst k es (s\<lparr>hOutPool := map_option (poolUpkeep u) (hOutPool s)\<rparr>)"

section \<open>Every connection is brought to an end\<close>

lemma OutToTCP_returns:
  "\<exists>r s'. OutToTCP net uin uout srcFirst k s useProxy a req inC = Some (r, s') \<and> (prClosed r \<longleftrightarrow> \<not> prPanic r)"
proof (cases "connectOut net k s useProxy (RHost req)")
  case (Pair d s')
  show ?thesis
  proof (cases d)
    case (Dialed parent src)
    let ?in = "if IsHTTPSReq req \<and> \<not> useProxy then inC\<lparr>outp := snd (uin (outp inC) HTTPSReply)\<rparr> else inC"
    let ?out = "if IsHTTPSReq req \<and> \<not> useProxy then [] else snd (uout [] (toBytes (HeadBuf req)))"
    obtain e cs1 cs2 c1 c2 where "IoBind (\<lambda>l _. (None, l)) (None :: unit option) srcFirst readSome uin uout ?in
        (Stream_Utils.conn.make src ?out) = Some ([e], cs1, cs2, c1, c2)"
      using IoBind_ends by metis
    then show ?thesis using Pair Dialed by (auto simp: OutToTCP_def ended_def Let_def)
  qed (use Pair in \<open>auto simp: OutToTCP_def ended_def panicked_def\<close>)
qed

lemma proxyCallback_returns:
  "\<exists>r s'. proxyCallback net uin uout srcFirst k a c s = Some (r, s') \<and> (prClosed r \<longleftrightarrow> \<not> prPanic r)"
proof -
  obtain input src where h: "readHead (inp c) = (input, src)" by (cases "readHead (inp c)")
  show ?thesis
    using OutToTCP_returns [of net uin uout srcFirst k _ _ a _ "c\<lparr>inp := src\<rparr>"]
    by (auto simp: proxyCallback_def h Let_def ended_def panicked_def split: option.split sum.split rerr.split)
qed

section \<open>The relay of a request\<close>

lemma of_char_byte: "(of_char (char_of (unat (b :: byte))) :: byte) = b"
proof -
  have "of_char (char_of (unat b)) = (of_nat (of_char (char_of (unat b))) :: byte)" by (rule of_nat_of_char [symmetric])
  also have "\<dots> = of_nat (unat b mod 256)" by (simp only: of_char_of)
  also have "\<dots> = b" using unat_byte [of b] by simp
  finally show ?thesis .
qed

lemma toBytes_charsOf [simp]: "toBytes (charsOf bs) = bs"
  by (simp add: toBytes_def charsOf_def comp_def of_char_byte)

lemma readHead_bytes:
  "readHead src = (Inr buf, src') \<Longrightarrow> sbytes src = toBytes buf @ sbytes src'"
  using plain.taken [of 4096 src] by (auto simp: readHead_def split: prod.splits option.splits ioerr.splits)

lemma NewHTTPRequest_head: "NewHTTPRequest uh auth ba (Inr buf) = Inr req \<Longrightarrow> HeadBuf req = buf"
  by (auto simp: NewHTTPRequest_def Let_def HTTPSReq_def HTTPReq_def addPortIfNot_def split: if_splits list.splits option.splits)


definition relayNet :: proxyNet where
  "relayNet = \<lparr>nUrlHost = (\<lambda>_. Some ''h''), nHostname = (\<lambda>_. Some ''h''), nSplitHostPort = (\<lambda>_. None), nAtoi = (\<lambda>_. Some 80),
     nLookupIP = (\<lambda>_. None), nInterfaces = None, nFile = (\<lambda>_. None), nKeyPair = (\<lambda>_ _. True), nCertsFromPEM = (\<lambda>_. True),
     nDial = (\<lambda>_ _ _. Some [([79, 75], None)]), nListen = (\<lambda>_. None)\<rparr>"

definition relaySvc :: HTTPsvc where
  "relaySvc = NewHTTP\<lparr>hCfg := InitProxy 8080\<rparr>"

lemmas relay_defs = relayNet_def relaySvc_def NewHTTP_def InitProxy_def emptyArgs_def

lemma relayNet_loop: "\<not> IsDeadLoop (nSplitHostPort relayNet) (nLookupIP relayNet) (nInterfaces relayNet) a h"
  by (simp add: relay_defs IsDeadLoop_def)


lemma serve_returns: "\<exists>rs s'. serve net uin uout srcFirst k es s = Some (rs, s') \<and> (\<forall>r \<in> set rs. prClosed r \<longleftrightarrow> \<not> prPanic r)"
proof (induction net uin uout srcFirst k es s rule: serve.induct)
  case (2 net uin uout srcFirst k a c es s)
  obtain r s1 where r: "proxyCallback net uin uout srcFirst k a c s = Some (r, s1)" "prClosed r \<longleftrightarrow> \<not> prPanic r"
    using proxyCallback_returns by blast
  from "2.IH" [OF r(1) refl] r(2) show ?case by (auto simp: r(1))
qed auto

lemma serve_length:
  "serve net uin uout srcFirst k es s = Some (rs, s') \<Longrightarrow>
   length rs = length (filter (\<lambda>e. case e of Client _ _ \<Rightarrow> True | Upkeep _ \<Rightarrow> False) es)"
proof (induction net uin uout srcFirst k es s arbitrary: rs rule: serve.induct)
  case (2 net uin uout srcFirst k a c es s)
  from "2.prems" obtain r s1 rs' where r: "proxyCallback net uin uout srcFirst k a c s = Some (r, s1)"
    and rest: "serve net uin uout srcFirst (Suc k) es s1 = Some (rs', s')" "rs = r # rs'"
    by (auto split: Option.bind_splits)
  from "2.IH" [OF r refl rest(1)] rest(2) show ?case by simp
qed auto

section \<open>Parent connections\<close>

lemma poolUpkeep_cfg [simp]: "opCfg (poolUpkeep u op) = opCfg op"
  by (cases u) (simp_all add: daemonRound_def)

text \<open>The pool of a proxy is a source of connections in the sense of \<open>conn_source\<close>.\<close>

definition outPoolInv :: "nat list \<Rightarrow> OutPool \<Rightarrow> bool" where
  "outPoolInv held op \<longleftrightarrow> (\<forall>c. IsActive (opCfg op) c) \<and> pool_ok (opCfg op) (held, opPool op)"

interpretation parents: conn_source outPoolInv poolTake poolUpkeep
proof
  fix held c u and op op' :: OutPool
  obtain r p where get: "PoolGet (opCfg op) (opPool op) = (r, p)" by (cases "PoolGet (opCfg op) (opPool op)")
  have step: "pool_ok (opCfg op) (poolStep (opCfg op) DoGet (held, opPool op))" if "outPoolInv held op"
    using that by (intro poolStep_ok) (simp_all add: outPoolInv_def)
  show "outPoolInv (c # held) op'" if "outPoolInv held op" "poolTake op = (Some c, op')"
    using that step [OF that(1)] get by (auto simp: outPoolInv_def poolTake_def)
  show "outPoolInv held op'" if "outPoolInv held op" "poolTake op = (None, op')"
    using that step [OF that(1)] get by (auto simp: outPoolInv_def poolTake_def)
  show "outPoolInv held (poolUpkeep u op)" if "outPoolInv held op"
  proof -
    have "pool_ok (opCfg op) (poolStep (opCfg op) x (held, opPool op))" for x
      using that by (intro poolStep_ok) (simp_all add: outPoolInv_def)
    from this [of DoFill] this [of DoReleaseAll] that show ?thesis
      by (cases u) (simp_all add: outPoolInv_def daemonRound_def)
  qed
  show "distinct held" if "outPoolInv held op" using that by (auto simp: outPoolInv_def pool_ok_def)
qed

definition parentsOf :: "nat option \<Rightarrow> nat list" where
  "parentsOf p = (case p of None \<Rightarrow> [] | Some c \<Rightarrow> [c])"

text \<open>A handler uses the pool by taking at most one connection, which it then reports.\<close>

lemma connectOut_pool:
  assumes "hOutPool s = Some op" and "connectOut net k s useProxy a = (d, s')"
  shows "\<exists>xs op'. hOutPool s' = Some op' \<and> useRun poolTake poolUpkeep xs op =
    (parentsOf (case d of Dialed p _ \<Rightarrow> p | _ \<Rightarrow> None), op')"
proof (cases "useProxy \<and> \<not> (conns (opPool op) = [] \<and> factoryPanics op)")
  case True
  then have "useRun poolTake poolUpkeep [None] op = (parentsOf (case d of Dialed p _ \<Rightarrow> p | _ \<Rightarrow> None), the (hOutPool s'))"
    "hOutPool s' = Some (the (hOutPool s'))"
    using assms by (auto simp: connectOut_def parentsOf_def split: prod.splits option.splits)
  then show ?thesis by blast
next
  case False
  then have "hOutPool s' = Some op" "(case d of Dialed p _ \<Rightarrow> p | _ \<Rightarrow> None) = None"
    using assms by (auto simp: connectOut_def split: if_splits option.splits)
  then show ?thesis by (intro exI [of _ "[]"]) (simp add: parentsOf_def)
qed

lemma OutToTCP_pool:
  assumes "hOutPool s = Some op" and "OutToTCP net uin uout srcFirst k s useProxy a req c = Some (r, s')"
  shows "\<exists>xs op'. hOutPool s' = Some op' \<and> useRun poolTake poolUpkeep xs op = (parentsOf (prParent r), op')"
proof (cases "connectOut net k s useProxy (RHost req)")
  case (Pair d s1)
  have none: "\<exists>xs op'. hOutPool s = Some op' \<and> useRun poolTake poolUpkeep xs op = (parentsOf None, op')"
    using assms(1) by (intro exI [of _ "[]"]) (simp add: parentsOf_def)
  show ?thesis
    using assms(2) connectOut_pool [OF assms(1) Pair] none Pair
    by (auto simp: OutToTCP_def ended_def panicked_def Let_def split: if_splits dialed.splits option.splits prod.splits)
qed

lemma proxyCallback_pool:
  assumes "hOutPool s = Some op" and "proxyCallback net uin uout srcFirst k a c s = Some (r, s')"
  shows "\<exists>xs op'. hOutPool s' = Some op' \<and> useRun poolTake poolUpkeep xs op = (parentsOf (prParent r), op')"
proof -
  have none: "\<exists>xs op'. hOutPool s = Some op' \<and> useRun poolTake poolUpkeep xs op = (parentsOf None, op')"
    using assms(1) by (intro exI [of _ "[]"]) (simp add: parentsOf_def)
  have out: "hOutPool (s\<lparr>hChecker := ch\<rparr>) = Some op" for ch using assms(1) by simp
  show ?thesis
    using assms(2) none OutToTCP_pool [OF out]
    by (auto simp: proxyCallback_def ended_def panicked_def Let_def split: option.splits prod.splits sum.splits rerr.splits)
qed

lemma serve_pool:
  "serve net uin uout srcFirst k es s = Some (rs, s') \<Longrightarrow> hOutPool s = Some op \<Longrightarrow>
   \<exists>xs op'. hOutPool s' = Some op' \<and> useRun poolTake poolUpkeep xs op = (concat (map (parentsOf \<circ> prParent) rs), op')"
proof (induction net uin uout srcFirst k es s arbitrary: rs op rule: serve.induct)
  case (1 net uin uout srcFirst k s)
  then show ?case by (intro exI [of _ "[]"]) simp
next
  case (2 net uin uout srcFirst k a c es s)
  from "2.prems"(1) obtain r s1 rs' where r: "proxyCallback net uin uout srcFirst k a c s = Some (r, s1)"
    and rest: "serve net uin uout srcFirst (Suc k) es s1 = Some (rs', s')" "rs = r # rs'"
    by (auto split: Option.bind_splits)
  obtain xs op1 where 1: "hOutPool s1 = Some op1" "useRun poolTake poolUpkeep xs op = (parentsOf (prParent r), op1)"
    using proxyCallback_pool [OF "2.prems"(2) r] by blast
  obtain ys op2 where 2: "hOutPool s' = Some op2"
    "useRun poolTake poolUpkeep ys op1 = (concat (map (parentsOf \<circ> prParent) rs'), op2)"
    using "2.IH" [OF r refl rest(1) 1(1)] by blast
  have "useRun poolTake poolUpkeep (xs @ ys) op = (concat (map (parentsOf \<circ> prParent) rs), op2)"
    using 1(2) 2(2) rest(2) by (simp add: useRun_append)
  then show ?case using 2(1) by blast
next
  case (3 net uin uout srcFirst k u es s)
  have "hOutPool (s\<lparr>hOutPool := map_option (poolUpkeep u) (hOutPool s)\<rparr>) = Some (poolUpkeep u op)"
    using "3.prems"(2) by simp
  from "3.IH" [OF "3.prems"(1) [simplified] this] obtain xs op' where "hOutPool s' = Some op'"
    "useRun poolTake poolUpkeep xs (poolUpkeep u op) = (concat (map (parentsOf \<circ> prParent) rs), op')"
    by blast
  then have "useRun poolTake poolUpkeep (Some u # xs) op = (concat (map (parentsOf \<circ> prParent) rs), op')" "hOutPool s' = Some op'"
    by simp_all
  then show ?case by blast
qed

lemma proxyCallback_no_pool:
  assumes "hOutPool s = None" and "proxyCallback net uin uout srcFirst k a c s = Some (r, s')"
  shows "hOutPool s' = None \<and> prParent r = None"
  using assms
  by (auto simp: proxyCallback_def OutToTCP_def connectOut_def ended_def panicked_def Let_def
      split: option.splits prod.splits sum.splits rerr.splits if_splits dialed.splits)

lemma serve_no_pool:
  "serve net uin uout srcFirst k es s = Some (rs, s') \<Longrightarrow> hOutPool s = None \<Longrightarrow> concat (map (parentsOf \<circ> prParent) rs) = []"
proof (induction net uin uout srcFirst k es s arbitrary: rs rule: serve.induct)
  case (2 net uin uout srcFirst k a c es s)
  from "2.prems"(1) obtain r s1 rs' where r: "proxyCallback net uin uout srcFirst k a c s = Some (r, s1)"
    and rest: "serve net uin uout srcFirst (Suc k) es s1 = Some (rs', s')" "rs = r # rs'"
    by (auto split: Option.bind_splits)
  note n = proxyCallback_no_pool [OF "2.prems"(2) r]
  from "2.IH" [OF r refl rest(1)] n rest(2) show ?case by (simp add: parentsOf_def)
qed auto

lemma NewOutPool_inv: "NewOutPool net dur isTLS cert key addr t n m = Some op \<Longrightarrow> outPoolInv [] op"
  by (auto simp: NewOutPool_def Let_def outPoolInv_def NewConnPool_ok split: if_splits)

lemma HTTPStart_pool:
  assumes "HTTPStart net args NewHTTP = Some (e, s, sc)" and "hOutPool s = Some op"
  shows "outPoolInv [] op"
  using assms NewOutPool_inv
  by (auto simp: HTTPStart_def InitService_def InitOutConnPool_def NewHTTP_def Let_def
      split: Option.bind_splits if_splits prod.splits)


definition parentArgs :: HTTPArgsPtr where
  "parentArgs = (InitProxy 8080)\<lparr>AParent := Some ''p:1'', ParentType := Some TYPE_TCP, CheckParentInterval := Some 5, PoolSize := Some 1,
     Interval := Some 10, Blocked := Some [], Direct := Some []\<rparr>"

lemma parentArgs_start: "\<exists>s sc. HTTPStart relayNet parentArgs NewHTTP = Some (None, s, sc)"
  by (simp add: HTTPStart_def InitOutConnPool_def InitService_def InitBasicAuthPtr_def InitBasicAuth_def parentArgs_def relay_defs
      TYPE_TCP_def TYPE_TLS_def NewOutPool_def factoryPanics_def NewChecker_def loadMap_def ListenTCP_def NewServerChannel_def Let_def)


section \<open>The daemon's own proxy\<close>

lemma acceptLoop_prefix: "acceptLoop (map Inr cs @ rs) = (cs @ fst (acceptLoop rs), snd (acceptLoop rs))"
  by (induction cs) (simp_all add: case_prod_beta)

definition listenAddr :: "proxyNet \<Rightarrow> int \<Rightarrow> string" where
  "listenAddr net port =
     (let (h, p) = (case nSplitHostPort net (''0.0.0.0:'' @ showInt port) of Some hp \<Rightarrow> hp | None \<Rightarrow> ([], []))
      in h @ '':'' @ showInt (case nAtoi net p of Some n \<Rightarrow> n | None \<Rightarrow> 0))"

text \<open>The proxy that the daemon registers serves anyone: when it can listen it runs, without a parent,
  without a pool and without accounts, so that every request is decoded without a credential and sent
  on directly; when it cannot, the process ends. It serves the clients accepted before the first error
  of accepting, and none after it.\<close>

theorem daemon_proxy_open:
  "(if nListen net (listenAddr net port) = None
    then \<exists>s sc. Run net ''http'' (Register ''http'' NewHTTP (InitProxy port) m) = Serving s sc \<and> scListener sc \<and>
        IsBasicAuthPtr (hCfg s) = Some False \<and> hOutPool s = None \<and> (\<forall>req. routeOf net s req = Some (False, hChecker s))
    else Run net ''http'' (Register ''http'' NewHTTP (InitProxy port) m) = ProcessExits) \<and>
   acceptLoop (map Inr cs @ Inl e # rest) = (cs, Some e)"
  by (auto simp: Run_def Register_def HTTPStart_def InitService_def InitBasicAuthPtr_def InitBasicAuth_def relay_defs ListenTCP_def
      NewServerChannel_def listenAddr_def IsBasicAuthPtr_def routeOf_def chooseRoute_def acceptLoop_prefix Let_def case_prod_beta)

end
