(* ===== verification/Node_Config.thy ===== *)
theory Node_Config
  imports Project_Quota
begin

text \<open>
  The configuration of a node and the clients made from it: \<open>config/config.go\<close> and the
  initialisation part of \<open>utils/Common.go\<close>. The package variables are the record \<open>globals\<close>. Of an
  HTTP client only its transport matters, and of the transport the proxy its requests go through.
  Reading files, JSON, URLs and regular expressions, and the constructors of third-party clients, are
  parameters.
\<close>

section \<open>Configuration\<close>

record AuthConfig =
  cUserName :: string
  cPassWord :: string
  cToken :: string

record Config =
  ServerPort :: int
  SecretKey :: string
  DockerServerPort :: int
  DockerAuth :: AuthConfig
  KubeApiUrl :: string
  KubeAuth :: AuthConfig
  RemoteProxyHost :: string
  EnableProxy :: bool
  ProxyGlobal :: bool
  ProxyHostPattern :: string
  MinioUrl :: string
  Bucket :: string
  MinioAuth :: AuthConfig
  PilotType :: string
  PilotLogPrefix :: string
  LineMaxSize :: int
  ProxyPort :: int
  HostTempDataPath :: string

text \<open>\<open>unmarshal\<close> writes what it can of the text into the configuration; its error is dropped. \<open>None\<close>
  is the panic on a file that cannot be read.\<close>

definition ParseFromFile ::
  "(string \<Rightarrow> string option) \<Rightarrow> (string \<Rightarrow> Config \<Rightarrow> Config) \<Rightarrow> string \<Rightarrow> Config \<Rightarrow> Config option" where
  "ParseFromFile readFile unmarshal filePath glob =
     (case readFile filePath of
        None \<Rightarrow> None
      | Some data \<Rightarrow>
          (let c = unmarshal data glob;
               c1 = (if LineMaxSize c = 0 then c\<lparr>LineMaxSize := 4 * 1024\<rparr> else c)
           in Some (if HostTempDataPath c1 \<noteq> []
                    then c1\<lparr>HostTempDataPath := trimSuffix (HostTempDataPath c1) ''/''\<rparr> else c1)))"

section \<open>Clients\<close>

text \<open>A client of a host through a proxy, or directly. A proxy function made of a nil URL means no
  proxy.\<close>

record httpCl =
  clProxy :: "string option"

datatype dockerRes = NilClient | DockerClient string "string option" | DockerPanic

record globals =
  remoteProxyUrl :: "string option"
  proxyHttpClient :: "httpCl option"
  httpClient :: "httpCl option"
  fileBeatClient :: "string option"
  minioClient :: "(string \<times> string \<times> string) option"
  k8sClient :: "(string \<times> string) option"
  retryMax :: "nat option"
  quotaController :: "Control option"
  localDockerClient :: bool

definition noGlobals :: globals where
  "noGlobals = \<lparr>remoteProxyUrl = None, proxyHttpClient = None, httpClient = None, fileBeatClient = None, minioClient = None,
     k8sClient = None, retryMax = None, quotaController = None, localDockerClient = False\<rparr>"

text \<open>The library around the clients. \<open>regex\<close> compiles a pattern to a test, or fails.\<close>

record clientLib =
  urlParse :: "string \<Rightarrow> string option"
  regex :: "string \<Rightarrow> (string \<Rightarrow> bool) option"
  parseHostURL :: "string \<Rightarrow> bool"
  newDocker :: "string \<Rightarrow> bool"
  newMinio :: "string \<Rightarrow> bool"
  inCluster :: "(string \<times> string) option"
  newForConfig :: "string \<times> string \<Rightarrow> bool"
  newEnvDocker :: bool

definition InitConfig :: "clientLib \<Rightarrow> Config \<Rightarrow> globals \<Rightarrow> globals" where
  "InitConfig lib cfg g =
     (if RemoteProxyHost cfg \<noteq> [] \<and> EnableProxy cfg then
        (case urlParse lib (RemoteProxyHost cfg) of
           Some u \<Rightarrow> g\<lparr>remoteProxyUrl := Some u\<rparr>
         | None \<Rightarrow> g)
      else g)"

definition UseProxy :: "clientLib \<Rightarrow> Config \<Rightarrow> string \<Rightarrow> bool" where
  "UseProxy lib cfg host =
     (if EnableProxy cfg \<and> \<not> ProxyGlobal cfg \<and> ProxyHostPattern cfg \<noteq> [] then
        (case regex lib (ProxyHostPattern cfg) of
           None \<Rightarrow> True
         | Some m \<Rightarrow> m host)
      else if RemoteProxyHost cfg \<noteq> [] \<and> ProxyGlobal cfg then True
      else False)"

definition GetProxy :: "clientLib \<Rightarrow> Config \<Rightarrow> globals \<Rightarrow> string \<Rightarrow> string option" where
  "GetProxy lib cfg g host = (if UseProxy lib cfg host then remoteProxyUrl g else None)"

text \<open>Both clients are built around the first transport.\<close>

definition InitProxyHttpClient :: "globals \<Rightarrow> globals" where
  "InitProxyHttpClient g =
     (let transport = \<lparr>clProxy = remoteProxyUrl g\<rparr>
      in g\<lparr>proxyHttpClient := Some transport, httpClient := Some transport\<rparr>)"

definition GetHttpClient :: "clientLib \<Rightarrow> Config \<Rightarrow> globals \<Rightarrow> string \<Rightarrow> httpCl option" where
  "GetHttpClient lib cfg g host = (if UseProxy lib cfg host then proxyHttpClient g else httpClient g)"

text \<open>When the client cannot be made, the message is taken from the error of the address, which is nil
  there.\<close>

definition NewDockerClient :: "clientLib \<Rightarrow> Config \<Rightarrow> globals \<Rightarrow> string \<Rightarrow> dockerRes" where
  "NewDockerClient lib cfg g host0 =
     (if host0 = [] then NilClient
      else let host = (if hasPrefix host0 ''http://'' then host0 else ''http://'' @ host0)
           in if parseHostURL lib host then
                (let proxy = (if UseProxy lib cfg (trimPrefix host ''http://'') then remoteProxyUrl g else None)
                 in if newDocker lib host then DockerClient host proxy else DockerPanic)
              else NilClient)"

definition InitFileBeatClient :: "globals \<Rightarrow> globals" where
  "InitFileBeatClient g = g\<lparr>fileBeatClient := Some ''/run/filebeat_minio.sock''\<rparr>"

definition InitMinioClient :: "clientLib \<Rightarrow> Config \<Rightarrow> globals \<Rightarrow> globals" where
  "InitMinioClient lib cfg g =
     (if cUserName (MinioAuth cfg) \<noteq> [] \<and> cPassWord (MinioAuth cfg) \<noteq> [] \<and> MinioUrl cfg \<noteq> [] \<and> Bucket cfg \<noteq> []
      then if newMinio lib (MinioUrl cfg)
           then g\<lparr>minioClient := Some (MinioUrl cfg, cUserName (MinioAuth cfg), cPassWord (MinioAuth cfg))\<rparr> else g
      else g)"

text \<open>\<open>None\<close> is a panic.\<close>

definition InitK8sClient :: "clientLib \<Rightarrow> Config \<Rightarrow> globals \<Rightarrow> globals option" where
  "InitK8sClient lib cfg g =
     (let c = (case inCluster lib of Some c \<Rightarrow> c | None \<Rightarrow> (KubeApiUrl cfg, cToken (KubeAuth cfg)))
      in if newForConfig lib c then Some (g\<lparr>k8sClient := Some c\<rparr>) else None)"

definition InitRetryHttpClient :: "globals \<Rightarrow> globals" where
  "InitRetryHttpClient g = g\<lparr>retryMax := Some 8\<rparr>"

text \<open>The controller of \<open>Project_Quota\<close>; an error leaves none.\<close>

definition InitQuotaController ::
  "faults \<Rightarrow> sys \<Rightarrow> u32 \<times> xfs \<Rightarrow> Config \<Rightarrow> string \<Rightarrow> globals \<Rightarrow> globals \<times> u32 \<times> xfs" where
  "InitQuotaController flt sy st cfg baseDir g =
     (case NewControl flt sy (fst st) (snd st) baseDir (HostTempDataPath cfg) of
        (e, c, nxt, d) \<Rightarrow> (g\<lparr>quotaController := c\<rparr>, nxt, d))"

definition GetQuotaControl :: "globals \<Rightarrow> string + Control" where
  "GetQuotaControl g = (case quotaController g of None \<Rightarrow> Inl ''Quota not support'' | Some c \<Rightarrow> Inr c)"

definition InitEnvDockerClient :: "clientLib \<Rightarrow> globals \<Rightarrow> globals" where
  "InitEnvDockerClient lib g = (if newEnvDocker lib then g\<lparr>localDockerClient := True\<rparr> else g)"

text \<open>\<open>configInit\<close> of \<open>main.go\<close>, in its order; \<open>None\<close> is a panic.\<close>

definition configInit ::
  "clientLib \<Rightarrow> faults \<Rightarrow> sys \<Rightarrow> u32 \<times> xfs \<Rightarrow> Config \<Rightarrow> string \<Rightarrow> (globals \<times> u32 \<times> xfs) option" where
  "configInit lib flt sy st cfg baseDir =
     (let g1 = InitFileBeatClient (InitMinioClient lib cfg (InitProxyHttpClient (InitConfig lib cfg noGlobals)))
      in case InitK8sClient lib cfg g1 of
           None \<Rightarrow> None
         | Some g2 \<Rightarrow>
             (case InitQuotaController flt sy st cfg baseDir (InitRetryHttpClient g2) of
                (g3, st') \<Rightarrow> Some (InitEnvDockerClient lib g3, st')))"

section \<open>What the clients do\<close>

text \<open>What the later steps of \<open>configInit\<close> keep of the fields set before.\<close>

lemma kept_fields [simp]:
  "remoteProxyUrl (InitEnvDockerClient lib g) = remoteProxyUrl g" "proxyHttpClient (InitEnvDockerClient lib g) = proxyHttpClient g"
  "httpClient (InitEnvDockerClient lib g) = httpClient g" "quotaController (InitEnvDockerClient lib g) = quotaController g"
  "remoteProxyUrl (InitRetryHttpClient g) = remoteProxyUrl g" "proxyHttpClient (InitRetryHttpClient g) = proxyHttpClient g"
  "httpClient (InitRetryHttpClient g) = httpClient g"
  "remoteProxyUrl (InitFileBeatClient g) = remoteProxyUrl g" "proxyHttpClient (InitFileBeatClient g) = proxyHttpClient g"
  "httpClient (InitFileBeatClient g) = httpClient g"
  "remoteProxyUrl (InitMinioClient lib cfg g) = remoteProxyUrl g" "proxyHttpClient (InitMinioClient lib cfg g) = proxyHttpClient g"
  "httpClient (InitMinioClient lib cfg g) = httpClient g"
  "remoteProxyUrl (InitProxyHttpClient g) = remoteProxyUrl g"
  "proxyHttpClient (InitProxyHttpClient g) = Some \<lparr>clProxy = remoteProxyUrl g\<rparr>"
  "httpClient (InitProxyHttpClient g) = Some \<lparr>clProxy = remoteProxyUrl g\<rparr>"
  "remoteProxyUrl (InitConfig lib cfg noGlobals) =
     (if RemoteProxyHost cfg \<noteq> [] \<and> EnableProxy cfg then urlParse lib (RemoteProxyHost cfg) else None)"
  by (simp_all add: InitEnvDockerClient_def InitRetryHttpClient_def InitFileBeatClient_def InitMinioClient_def
      InitProxyHttpClient_def InitConfig_def noGlobals_def Let_def split: option.split)

lemma InitQuotaController_fst:
  "fst (InitQuotaController flt sy st cfg base g) =
     g\<lparr>quotaController := fst (snd (NewControl flt sy (fst st) (snd st) base (HostTempDataPath cfg)))\<rparr>"
  by (simp add: InitQuotaController_def case_prod_beta)

lemma configInit_clients:
  assumes "configInit lib flt sy st cfg base = Some (g, st')"
  shows "remoteProxyUrl g = (if RemoteProxyHost cfg \<noteq> [] \<and> EnableProxy cfg then urlParse lib (RemoteProxyHost cfg) else None)"
    and "proxyHttpClient g = Some \<lparr>clProxy = remoteProxyUrl g\<rparr>" and "httpClient g = Some \<lparr>clProxy = remoteProxyUrl g\<rparr>"
    and "quotaController g = fst (snd (NewControl flt sy (fst st) (snd st) base (HostTempDataPath cfg)))"
proof -
  let ?g = "InitFileBeatClient (InitMinioClient lib cfg (InitProxyHttpClient (InitConfig lib cfg noGlobals)))"
  let ?c = "case inCluster lib of Some c \<Rightarrow> c | None \<Rightarrow> (KubeApiUrl cfg, cToken (KubeAuth cfg))"
  have g: "g = InitEnvDockerClient lib (fst (InitQuotaController flt sy st cfg base (InitRetryHttpClient (?g\<lparr>k8sClient := Some ?c\<rparr>))))"
    using assms by (auto simp: configInit_def InitK8sClient_def Let_def case_prod_beta split: if_splits)
  show "remoteProxyUrl g = (if RemoteProxyHost cfg \<noteq> [] \<and> EnableProxy cfg then urlParse lib (RemoteProxyHost cfg) else None)"
    and "proxyHttpClient g = Some \<lparr>clProxy = remoteProxyUrl g\<rparr>" and "httpClient g = Some \<lparr>clProxy = remoteProxyUrl g\<rparr>"
    and "quotaController g = fst (snd (NewControl flt sy (fst st) (snd st) base (HostTempDataPath cfg)))"
    by (simp_all add: g InitQuotaController_fst)
qed


definition demoClients :: clientLib where
  "demoClients = \<lparr>urlParse = Some, regex = (\<lambda>p. Some (\<lambda>h. h = p)), parseHostURL = (\<lambda>_. True), newDocker = (\<lambda>_. True),
     newMinio = (\<lambda>_. True), inCluster = None, newForConfig = (\<lambda>_. True), newEnvDocker = True\<rparr>"

definition noAuth :: AuthConfig where
  "noAuth = \<lparr>cUserName = [], cPassWord = [], cToken = []\<rparr>"

definition demoConfig :: Config where
  "demoConfig = \<lparr>ServerPort = 888, SecretKey = [], DockerServerPort = 2375, DockerAuth = noAuth, KubeApiUrl = [], KubeAuth = noAuth,
     RemoteProxyHost = ''http://p'', EnableProxy = True, ProxyGlobal = False, ProxyHostPattern = ''far'', MinioUrl = [], Bucket = [],
     MinioAuth = noAuth, PilotType = [], PilotLogPrefix = [], LineMaxSize = 0, ProxyPort = 8080, HostTempDataPath = []\<rparr>"

lemma configInit_up:
  "(\<And>c. newForConfig lib c) \<Longrightarrow> \<exists>g st'. configInit lib flt sy st cfg base = Some (g, st')"
  by (auto simp: configInit_def InitK8sClient_def Let_def case_prod_beta)


end
