(* ===== verification/Node_Start.thy ===== *)
theory Node_Start
  imports Proxy_Server Node_Config File_Service
begin

text \<open>
  Start-up and request routing: \<open>main.go\<close> and \<open>server/WebServer.go\<close>. The routes are registered with
  the multiplexer of Go's HTTP server, whose rules are written out: exact paths, subtrees for patterns
  that end in a slash, redirection to clean paths. The lemmas at the end follow the URL of a listed
  file through the multiplexer of two nodes.
\<close>

section \<open>Routes\<close>

definition API_LOG :: string where "API_LOG = ''/api/log''"
definition API_CHECK_GPU :: string where "API_CHECK_GPU = ''/api/checkGpu''"
definition API_CONTAINERGPUINFO :: string where "API_CONTAINERGPUINFO = ''/api/containerGpuInfo''"
definition API_DOWNLOADLOG :: string where "API_DOWNLOADLOG = ''/api/downloadLog''"
definition API_UPLOADLOGBYTRACKNO :: string where "API_UPLOADLOGBYTRACKNO = ''/api/uploadLogByTrackNo''"
definition API_SETQUOTA :: string where "API_SETQUOTA = ''/api/setDirQuota''"
definition API_GETDIRQUOTAINFO :: string where "API_GETDIRQUOTAINFO = ''/api/getDirQuotaInfo''"
definition API_GETNODESPACEINFO :: string where "API_GETNODESPACEINFO = ''/api/getNodeSpaceInfo''"
definition API_RELEASEDIR :: string where "API_RELEASEDIR = ''/api/releaseDir''"
definition API_GETIMAGEQUOTAINFO :: string where "API_GETIMAGEQUOTAINFO = ''/api/getImageQuotaInfo''"
definition API_TAIL_FILE :: string where "API_TAIL_FILE = ''/api/tailFile''"
definition API_LIST_MODEL_FILE :: string where "API_LIST_MODEL_FILE = ''/api/listModeFile''"
definition API_SAVE_MODEL_FILE :: string where "API_SAVE_MODEL_FILE = ''/api/saveModeFile''"
definition INTER_TAIL_FILE :: string where "INTER_TAIL_FILE = ''/inter/tailFile''"
definition API_CONTAINTER_GPU_INFO_FOR_MONITOR :: string where
  "API_CONTAINTER_GPU_INFO_FOR_MONITOR = ''/api/containerGpuInfoForMonitor''"

lemmas api_defs = API_LOG_def API_CHECK_GPU_def API_CONTAINERGPUINFO_def API_DOWNLOADLOG_def API_UPLOADLOGBYTRACKNO_def
  API_SETQUOTA_def API_GETDIRQUOTAINFO_def API_GETNODESPACEINFO_def API_RELEASEDIR_def API_GETIMAGEQUOTAINFO_def
  API_TAIL_FILE_def API_LIST_MODEL_FILE_def API_SAVE_MODEL_FILE_def INTER_TAIL_FILE_def
  API_CONTAINTER_GPU_INFO_FOR_MONITOR_def API_FILES_def API_FILE_def

text \<open>The handlers, by name.\<close>

datatype route =
    RLog | RCheckGpu | RContainerGpuInfo | RDownloadLog | RUploadLog | RSetDirQuota | RGetNodeSpaceInfo
  | RGetDirQuotaInfo | RReleaseDir | RGetImageDiskQuotaInfo | RPodFiles | RPodFile | RTailFile
  | RTailFileInter | RListModelFile | RSaveModelFile | RContainerGpuInfoForMonitor

definition routes :: "(string \<times> route) list" where
  "routes =
     [(API_LOG, RLog), (API_CHECK_GPU, RCheckGpu), (API_CONTAINERGPUINFO, RContainerGpuInfo),
      (API_DOWNLOADLOG, RDownloadLog), (API_UPLOADLOGBYTRACKNO, RUploadLog), (API_SETQUOTA, RSetDirQuota),
      (API_GETNODESPACEINFO, RGetNodeSpaceInfo), (API_GETDIRQUOTAINFO, RGetDirQuotaInfo),
      (API_RELEASEDIR, RReleaseDir), (API_GETIMAGEQUOTAINFO, RGetImageDiskQuotaInfo), (API_FILES, RPodFiles),
      (API_FILE, RPodFile), (API_TAIL_FILE, RTailFile), (INTER_TAIL_FILE, RTailFileInter),
      (API_LIST_MODEL_FILE, RListModelFile), (API_SAVE_MODEL_FILE, RSaveModelFile),
      (API_CONTAINTER_GPU_INFO_FOR_MONITOR, RContainerGpuInfoForMonitor)]"

section \<open>The multiplexer\<close>

text \<open>\<open>HandleFunc\<close>: an empty pattern, or one that is registered already, panics.\<close>

fun handleFuncs :: "(string \<times> route) list \<Rightarrow> (string \<times> route) list \<Rightarrow> (string \<times> route) list option" where
  "handleFuncs [] mux = Some mux"
| "handleFuncs ((p, h) # rs) mux =
     (if p = [] \<or> map_of mux p \<noteq> None then None else handleFuncs rs (mux @ [(p, h)]))"

text \<open>\<open>Handler\<close> of \<open>WebServer.go\<close> up to listening.\<close>

definition webHandler :: "(string \<times> route) list option" where
  "webHandler = handleFuncs routes []"

definition cleanPath :: "string \<Rightarrow> string" where
  "cleanPath p =
     (if p = [] then ''/''
      else let p1 = (if hd p \<noteq> slash then slash # p else p); np = pathClean p1
           in if last p1 = slash \<and> np \<noteq> ''/'' then np @ ''/'' else np)"

definition longer :: "string \<times> route \<Rightarrow> (string \<times> route) option \<Rightarrow> (string \<times> route) option" where
  "longer x best = (case best of None \<Rightarrow> Some x | Some y \<Rightarrow> if length (fst y) < length (fst x) then Some x else Some y)"

definition muxMatch :: "(string \<times> route) list \<Rightarrow> string \<Rightarrow> route option" where
  "muxMatch mux path =
     (case map_of mux path of
        Some h \<Rightarrow> Some h
      | None \<Rightarrow> map_option snd
          (fold longer (filter (\<lambda>(p, _). hasPrefix path p) (filter (\<lambda>(p, _). hasSuffix p ''/'') mux)) None))"

datatype dispatch = Handled route | Redirect string | NoRoute

definition muxHandler :: "(string \<times> route) list \<Rightarrow> string \<Rightarrow> dispatch" where
  "muxHandler mux path =
     (let cp = cleanPath path in
      if map_of mux cp = None \<and> map_of mux (cp @ ''/'') \<noteq> None \<and> last cp \<noteq> slash then Redirect (cp @ ''/'')
      else if cp \<noteq> path then Redirect cp
      else case muxMatch mux path of Some h \<Rightarrow> Handled h | None \<Rightarrow> NoRoute)"

section \<open>Start-up\<close>

record mainFlags =
  flTemplate :: string
  flBase :: string
  flConfig :: string
  flLevel :: string

datatype mainEnd = MainPanic | MainUp Config string string globals "u32 \<times> xfs" "runEnd option"

text \<open>\<open>main\<close> up to the start of the pilot: the configuration, the base directory, the template and the
  clients; then the web server and, when enabled, the proxy are started.\<close>

definition mainStart ::
  "proxyNet \<Rightarrow> clientLib \<Rightarrow> faults \<Rightarrow> sys \<Rightarrow> u32 \<times> xfs \<Rightarrow> (string \<Rightarrow> string option) \<Rightarrow> (string \<Rightarrow> Config \<Rightarrow> Config) \<Rightarrow>
   (string \<Rightarrow> string option) \<Rightarrow> (string \<Rightarrow> bool) \<Rightarrow> mainFlags \<Rightarrow> Config \<Rightarrow> mainEnd" where
  "mainStart net lib flt sy st readFile unmarshal absPathOf levelOk fl glob =
     (case ParseFromFile readFile unmarshal (flConfig fl) glob of
        None \<Rightarrow> MainPanic
      | Some cfg \<Rightarrow>
     (case absPathOf (flBase fl) of
        None \<Rightarrow> MainPanic
      | Some b \<Rightarrow>
          (let baseDir = (if b = ''/'' then [] else b) in
           if flTemplate fl = [] \<or> \<not> levelOk (flLevel fl) then MainPanic
           else case readFile (flTemplate fl) of
                  None \<Rightarrow> MainPanic
                | Some tpl \<Rightarrow>
                    (case configInit lib flt sy st cfg baseDir of
                       None \<Rightarrow> MainPanic
                     | Some (g, st') \<Rightarrow>
                         if webHandler = None then MainPanic
                         else MainUp cfg baseDir tpl g st'
                           (if EnableProxy cfg
                            then Some (Run net ''http'' (Register ''http'' NewHTTP (InitProxy (ProxyPort cfg)) Map.empty))
                            else None)))))"

section \<open>Routing is exact\<close>

lemma routes_distinct: "distinct (map fst routes)" by code_simp

lemma subtree_routes: "filter (\<lambda>(p, _). hasSuffix p ''/'') routes = [(API_FILE, RPodFile)]" by code_simp

lemma routes_dispatch: "list_all (\<lambda>(p, h). muxHandler routes p = Handled h) routes" by code_simp

lemma map_of_routes: "(p, h) \<in> set routes \<longleftrightarrow> map_of routes p = Some h"
  using routes_distinct by (auto simp: map_of_eq_Some_iff)

lemma muxMatch_routes:
  "muxMatch routes p = Some h \<longleftrightarrow> (p, h) \<in> set routes \<or> (map_of routes p = None \<and> h = RPodFile \<and> hasPrefix p API_FILE)"
  unfolding muxMatch_def subtree_routes
  by (auto simp: map_of_routes longer_def split: option.splits)

lemma API_FILE_subtree: "hasPrefix p API_FILE \<Longrightarrow> map_of routes (p @ ''/'') = None"
proof -
  assume p: "hasPrefix p API_FILE"
  have "list_all (\<lambda>q. hasPrefix q API_FILE \<longrightarrow> q = API_FILE) (map fst routes)" by code_simp
  moreover have "hasPrefix (p @ ''/'') API_FILE" "length API_FILE < length (p @ ''/'')"
    using p by (auto simp: hasPrefix_def take_all dest: arg_cong [of _ _ length])
  ultimately have "p @ ''/'' \<notin> set (map fst routes)" unfolding list_all_iff by fastforce
  then show ?thesis by (simp add: map_of_eq_None_iff)
qed

lemma muxHandler_exact:
  "muxHandler routes p = Handled h \<longleftrightarrow>
      (p, h) \<in> set routes \<or> (h = RPodFile \<and> hasPrefix p API_FILE \<and> cleanPath p = p)"
proof -
  have clean: "cleanPath p = p" "muxHandler routes p = Handled h" if "(p, h) \<in> set routes"
    using routes_dispatch that by (auto simp: list_all_iff muxHandler_def Let_def split: if_splits)
  show ?thesis
  proof
    assume "muxHandler routes p = Handled h"
    then have "muxMatch routes p = Some h" "cleanPath p = p"
      by (auto simp: muxHandler_def Let_def split: if_splits option.splits)
    then show "(p, h) \<in> set routes \<or> (h = RPodFile \<and> hasPrefix p API_FILE \<and> cleanPath p = p)"
      by (auto simp: muxMatch_routes)
  next
    assume r: "(p, h) \<in> set routes \<or> (h = RPodFile \<and> hasPrefix p API_FILE \<and> cleanPath p = p)"
    show "muxHandler routes p = Handled h"
    proof (cases "(p, h) \<in> set routes")
      case True
      then show ?thesis by (rule clean(2))
    next
      case False
      then have f: "h = RPodFile" "hasPrefix p API_FILE" "cleanPath p = p" using r by auto
      have "muxMatch routes p = Some RPodFile"
      proof (cases "map_of routes p")
        case None
        then show ?thesis using f(2) by (simp add: muxMatch_routes)
      next
        case (Some h')
        have "list_all (\<lambda>(q, x). hasPrefix q API_FILE \<longrightarrow> x = RPodFile) routes" by code_simp
        then have "h' = RPodFile" using map_of_SomeD [OF Some] f(2) by (auto simp: list_all_iff)
        then show ?thesis using map_of_SomeD [OF Some] by (simp add: muxMatch_routes)
      qed
      then show ?thesis using f API_FILE_subtree [OF f(2)] by (simp add: muxHandler_def)
    qed
  qed
qed

text \<open>Every request is dispatched exactly. Registering the routes does not panic; a request reaches
  a handler exactly when its path is that of a route, or is a clean path below \<open>/api/file/\<close>, and
  then it is the handler of that route, or of files.\<close>

theorem routing_exact:
  "webHandler = Some routes \<and>
   (muxHandler routes p = Handled h \<longleftrightarrow>
      (p, h) \<in> set routes \<or> (h = RPodFile \<and> hasPrefix p API_FILE \<and> cleanPath p = p))"
proof -
  have "webHandler = Some routes" by code_simp
  then show ?thesis using muxHandler_exact by blast
qed

section \<open>The URL of a listed file\<close>

lemma properComp_plusBlank: "properComp n \<Longrightarrow> properComp (plusBlank n)"
  by (auto simp: properComp_def plusBlank_def map_eq_Cons_conv split: if_splits)

lemma properComp_showInt: "properComp (showInt i)"
  using showInt_plain [of _ i] showInt_chars(2) [of i]
  by (metis insertI1 insertI2 list.set_intros(1) properComp_def)

lemma last_joinC: "cs \<noteq> [] \<Longrightarrow> last cs \<noteq> [] \<Longrightarrow> last (joinC c cs) = last (last cs) \<and> joinC c cs \<noteq> []"
  by (induction cs rule: joinC.induct [of _ c]) auto

lemma cleanPath_absPath:
  assumes "\<forall>c \<in> set cs. properComp c" and "cs \<noteq> []"
  shows "cleanPath (absPath cs) = absPath cs"
proof -
  have "properComp (last cs)" using assms by simp
  then have l: "last cs \<noteq> []" "last (last cs) \<noteq> slash" by (auto simp: properComp_def dest: last_in_set)
  then have "last (absPath cs) \<noteq> slash" using last_joinC [OF assms(2) l(1), of slash] by (simp add: absPath_def)
  then show ?thesis
    using pathClean_absPath [OF assms(1)] by (simp add: cleanPath_def Let_def) (simp add: absPath_def)
qed

definition filePath :: "int \<Rightarrow> string \<Rightarrow> string" where
  "filePath modTime name = API_FILE @ showInt modTime @ ''/'' @ plusBlank name"

lemma filePath_routed:
  assumes "properComp name"
  shows "muxHandler routes (filePath m name) = Handled RPodFile"
proof -
  have "filePath m name = absPath [''api'', ''file'', showInt m, plusBlank name]"
    by (simp add: filePath_def API_FILE_def absPath_def)
  moreover have "\<forall>c \<in> set [''api'', ''file'', showInt m, plusBlank name]. properComp c"
    using properComp_showInt [of m] properComp_plusBlank [OF assms] by (simp add: properComp_def)
  ultimately have "cleanPath (filePath m name) = filePath m name" using cleanPath_absPath by (metis list.discI)
  moreover have "hasPrefix (filePath m name) API_FILE" by (simp add: filePath_def hasPrefix_def)
  ultimately show ?thesis using muxHandler_exact by blast
qed

lemma forwarded_path: "requestPath (API_FILE @ QueryEscape (trimPrefix (filePath m name) API_FILE) @ ''?'' @ q) = Some (filePath m name)"
proof -
  have plain: "plusBlank (showInt m) = showInt m"
    using showInt_plain [of _ m] by (auto simp: plusBlank_def intro!: map_idI)
  have trim: "trimPrefix (filePath m name) API_FILE = showInt m @ ''/'' @ plusBlank name"
    by (simp add: filePath_def trimPrefix_def hasPrefix_def)
  have "CHR ''%'' \<notin> set API_FILE" "CHR ''?'' \<notin> set API_FILE" by code_simp+
  from requestPath_escaped [OF this] plain show ?thesis
    by (simp add: trim) (simp add: filePath_def plusBlank_def comp_def)
qed

text \<open>C18: The URL of a listed file leads to the file handler. For an entry with a proper file name, the
  URL that the listing gives is read by a server as the path \<open>/api/file/\<close>, the time, and the name with
  its blanks turned into plus signs; this path is dispatched to the file handler; and when that handler
  forwards the request to another node, the URL it sends is read there as the same path.\<close>

theorem listed_url_routed:
  assumes "fileRes token host dir e = Some r" and "properComp (deName e)"
  shows "requestPath (frURL r) = Some (filePath (frModTime r) (deName e)) \<and>
    muxHandler routes (filePath (frModTime r) (deName e)) = Handled RPodFile \<and>
    (\<forall>s t url t'. PodFileHandler s (filePath (frModTime r) (deName e)) t = ForwardTo url t' \<longrightarrow>
       (\<exists>h rest. url = GetURLByHost (fsSvc s) h @ rest \<and> requestPath rest = Some (filePath (frModTime r) (deName e))))"
proof (intro conjI allI impI)
  obtain q where url: "frURL r = (API_FILE @ showInt (frModTime r) @ ''/'') @ QueryEscape (deName e) @ ''?'' @ q"
    using assms(1) by (auto simp: fileRes_def Let_def split: if_splits option.splits)
  have "CHR ''%'' \<notin> set (API_FILE @ showInt (frModTime r) @ ''/'')" "CHR ''?'' \<notin> set (API_FILE @ showInt (frModTime r) @ ''/'')"
    using showInt_plain [of _ "frModTime r"] by (auto simp: API_FILE_def)
  from requestPath_escaped [OF this] show "requestPath (frURL r) = Some (filePath (frModTime r) (deName e))"
    by (simp add: url filePath_def)
  show "muxHandler routes (filePath (frModTime r) (deName e)) = Handled RPodFile" by (rule filePath_routed [OF assms(2)])
  fix s t url t'
  assume "PodFileHandler s (filePath (frModTime r) (deName e)) t = ForwardTo url t'"
  then obtain h where "url = GetURLByHost (fsSvc s) h @ API_FILE @ QueryEscape (trimPrefix (filePath (frModTime r) (deName e)) API_FILE) @
      ''?'' @ (''token='' @ QueryEscape t')"
    by (auto simp: PodFileHandler_def Let_def split: option.splits if_splits)
  then show "\<exists>h rest. url = GetURLByHost (fsSvc s) h @ rest \<and> requestPath rest = Some (filePath (frModTime r) (deName e))"
    using forwarded_path by blast
qed

theorem listed_url_routed_witness:
  "muxHandler routes (filePath 7 ''a b.txt'') = Handled RPodFile \<and>
   requestPath (''/api/file/7/a+b.txt?token='' @ QueryEscape ''t'') = Some (filePath 7 ''a b.txt'')"
proof -
  let ?e = "\<lparr>deName = ''a b.txt'', deIsDir = False, deInfo = Some (7, 3)\<rparr>"
  obtain r where r: "fileRes (\<lambda>_. ''t'') ''h'' ''/d'' ?e = Some r" "frModTime r = 7"
    "frURL r = API_FILE @ showInt 7 @ ''/'' @ QueryEscape ''a b.txt'' @ ''?token='' @ QueryEscape ''t''"
    by (simp add: fileRes_def)
  have "properComp (deName ?e)" by (simp add: properComp_def)
  from listed_url_routed [OF r(1) this] r(2,3) have
    "muxHandler routes (filePath 7 ''a b.txt'') = Handled RPodFile"
    "requestPath (API_FILE @ showInt 7 @ ''/'' @ QueryEscape ''a b.txt'' @ ''?token='' @ QueryEscape ''t'') = Some (filePath 7 ''a b.txt'')"
    by auto
  moreover have "API_FILE @ showInt 7 @ ''/'' @ QueryEscape ''a b.txt'' @ ''?token='' @ QueryEscape ''t'' =
      ''/api/file/7/a+b.txt?token='' @ QueryEscape ''t''" by code_simp
  ultimately show ?thesis by (simp only: simp_thms)
qed

end
