(* ===== verification/Ioctl.thy ===== *)
theory Ioctl
  imports Go_Prelude
begin

text \<open>
  Numbers and calls of ioctl, \<open>utils/cgoioctl/ioctl.go\<close>, with the field layouts of
  \<open>ioctl_14_2.go\<close> and \<open>ioctl_13_3.go\<close> (one of them is compiled, by architecture), and the wrappers
  around the C macro in \<open>cgoioctl.go\<close>. The system call and the macro are parameters.
\<close>

unbundle bit_operations_syntax

section \<open>Layout\<close>

record layout =
  sizeBits :: nat
  dirNone :: u16
  dirRead :: u16
  dirWrite :: u16

definition ioctl_14_2 :: layout where
  "ioctl_14_2 = \<lparr>sizeBits = 14, dirNone = 0, dirRead = 2, dirWrite = 1\<rparr>"

definition ioctl_13_3 :: layout where
  "ioctl_13_3 = \<lparr>sizeBits = 13, dirNone = 1, dirRead = 2, dirWrite = 4\<rparr>"

definition nrBits :: nat where "nrBits = 8"

definition typeBits :: nat where "typeBits = 8"

definition nrShift :: nat where "nrShift = 0"

definition typeShift :: nat where "typeShift = nrShift + nrBits"

definition sizeShift :: nat where "sizeShift = typeShift + typeBits"

definition dirShift :: "layout \<Rightarrow> nat" where "dirShift l = sizeShift + sizeBits l"

lemmas shift_defs = nrBits_def typeBits_def nrShift_def typeShift_def sizeShift_def dirShift_def

definition number :: "layout \<Rightarrow> u16 \<Rightarrow> u16 \<Rightarrow> u16 \<Rightarrow> u16 \<Rightarrow> u32" where
  "number l dir typ nr sz =
     (let d = push_bit (dirShift l) (ucast dir :: u32); t = push_bit typeShift (ucast typ :: u32);
          n = push_bit nrShift (ucast nr :: u32); s = push_bit sizeShift (ucast sz :: u32)
      in d OR t OR n OR s)"

section \<open>Calls\<close>

record IoN =
  nName :: string
  nType :: u16
  nNr :: u16

record IoR = IoN +
  rSize :: u16

text \<open>The three kinds with a pointer have the same fields.\<close>

type_synonym IoW = IoR

type_synonym IoWR = IoR

definition numberN :: "layout \<Rightarrow> IoN \<Rightarrow> u32" where
  "numberN l x = number l (dirNone l) (nType x) (nNr x) 0"

definition numberR :: "layout \<Rightarrow> IoR \<Rightarrow> u32" where
  "numberR l x = number l (dirRead l) (nType x) (nNr x) (rSize x)"

definition numberW :: "layout \<Rightarrow> IoW \<Rightarrow> u32" where
  "numberW l x = number l (dirWrite l) (nType x) (nNr x) (rSize x)"

definition numberWR :: "layout \<Rightarrow> IoWR \<Rightarrow> u32" where
  "numberWR l x = number l (dirRead l OR dirWrite l) (nType x) (nNr x) (rSize x)"

record ioctlError =
  eName :: string
  eNumber :: u32
  eErrno :: nat

definition wrapError :: "nat option \<Rightarrow> string \<Rightarrow> u32 \<Rightarrow> ioctlError option" where
  "wrapError err name num = map_option (\<lambda>e. \<lparr>eName = name, eNumber = num, eErrno = e\<rparr>) err"

text \<open>The system call: descriptor, number and argument, on the state of the kernel and of the memory
  the argument points to; the result and an error number.\<close>

type_synonym ('a, 'k) ioctlCall = "int \<Rightarrow> u32 \<Rightarrow> 'a \<Rightarrow> 'k \<Rightarrow> (int \<times> nat) \<times> 'k"

definition ioctlInt :: "('a, 'k) ioctlCall \<Rightarrow> int \<Rightarrow> u32 \<Rightarrow> 'a \<Rightarrow> 'k \<Rightarrow> (int \<times> nat option) \<times> 'k" where
  "ioctlInt call fd num arg k =
     (case call fd num arg k of ((r, e), k') \<Rightarrow> ((r, if e \<noteq> 0 then Some e else None), k'))"

definition ioctlPointer :: "('a, 'k) ioctlCall \<Rightarrow> int \<Rightarrow> u32 \<Rightarrow> 'a \<Rightarrow> 'k \<Rightarrow> (int \<times> nat option) \<times> 'k" where
  "ioctlPointer call fd num arg k =
     (case call fd num arg k of ((r, e), k') \<Rightarrow> ((r, if e \<noteq> 0 then Some e else None), k'))"

definition ExecInt :: "layout \<Rightarrow> (u64, 'k) ioctlCall \<Rightarrow> IoN \<Rightarrow> int \<Rightarrow> u64 \<Rightarrow> 'k \<Rightarrow> (int \<times> ioctlError option) \<times> 'k" where
  "ExecInt l call x fd val k =
     (case ioctlInt call fd (numberN l x) val k of
        ((res, err), k') \<Rightarrow> ((res, wrapError err (nName x) (numberN l x)), k'))"

definition ExecN :: "layout \<Rightarrow> (u64, 'k) ioctlCall \<Rightarrow> IoN \<Rightarrow> int \<Rightarrow> 'k \<Rightarrow> (int \<times> ioctlError option) \<times> 'k" where
  "ExecN l call x fd k = ExecInt l call x fd 0 k"

definition ReadR :: "layout \<Rightarrow> ('a, 'k) ioctlCall \<Rightarrow> IoR \<Rightarrow> int \<Rightarrow> 'a \<Rightarrow> 'k \<Rightarrow> ioctlError option \<times> 'k" where
  "ReadR l call x fd ptr k =
     (case ioctlPointer call fd (numberR l x) ptr k of ((_, err), k') \<Rightarrow> (wrapError err (nName x) (numberR l x), k'))"

definition WriteW :: "layout \<Rightarrow> ('a, 'k) ioctlCall \<Rightarrow> IoW \<Rightarrow> int \<Rightarrow> 'a \<Rightarrow> 'k \<Rightarrow> ioctlError option \<times> 'k" where
  "WriteW l call x fd ptr k =
     (case ioctlPointer call fd (numberW l x) ptr k of ((_, err), k') \<Rightarrow> (wrapError err (nName x) (numberW l x), k'))"

definition ExecWR :: "layout \<Rightarrow> ('a, 'k) ioctlCall \<Rightarrow> IoWR \<Rightarrow> int \<Rightarrow> 'a \<Rightarrow> 'k \<Rightarrow> ioctlError option \<times> 'k" where
  "ExecWR l call x fd ptr k =
     (case ioctlPointer call fd (numberWR l x) ptr k of ((_, err), k') \<Rightarrow> (wrapError err (nName x) (numberWR l x), k'))"

text \<open>The two requests of \<open>bmctl_ioctl.go\<close> to the Sophgo control device.\<close>

definition BMCTL_GET_DEV_CNT :: IoR where
  "BMCTL_GET_DEV_CNT = \<lparr>nName = [], nType = 113, nNr = 0, rSize = 8\<rparr>"

definition BMCTL_GET_SMI_ATTR :: IoWR where
  "BMCTL_GET_SMI_ATTR = \<lparr>nName = [], nType = 113, nNr = 1, rSize = 8\<rparr>"

text \<open>The message, with the number as eight hexadecimal digits; the text of an error number is the
  system's.\<close>

definition hexDigit :: "nat \<Rightarrow> char" where
  "hexDigit d = ''0123456789abcdef'' ! d"

definition showHex8 :: "u32 \<Rightarrow> string" where
  "showHex8 w = ''0x'' @ map (\<lambda>i. hexDigit (unat w div 16 ^ i mod 16)) (rev [0..<8])"

definition errorText :: "(nat \<Rightarrow> string) \<Rightarrow> ioctlError \<Rightarrow> string" where
  "errorText strerror e =
     (if eName e \<noteq> [] then ''ioctl: '' @ eName e @ '' ('' @ showHex8 (eNumber e) @ ''): '' @ strerror (eErrno e)
      else ''ioctl: '' @ showHex8 (eNumber e) @ '': '' @ strerror (eErrno e))"

text \<open>The wrappers around the C macro \<open>_IOC\<close>, whose result is cut to 32 bits; its direction is one of
  the macro's constants.\<close>

datatype iocDir = IOC_NONE | IOC_READ | IOC_WRITE | IOC_READ_WRITE

type_synonym iocMacro = "iocDir \<Rightarrow> u16 \<Rightarrow> u16 \<Rightarrow> u16 \<Rightarrow> u64"

definition dirCode :: "layout \<Rightarrow> iocDir \<Rightarrow> u16" where
  "dirCode l d = (case d of IOC_NONE \<Rightarrow> dirNone l | IOC_READ \<Rightarrow> dirRead l | IOC_WRITE \<Rightarrow> dirWrite l
     | IOC_READ_WRITE \<Rightarrow> dirRead l OR dirWrite l)"

definition IO :: "iocMacro \<Rightarrow> u16 \<Rightarrow> u16 \<Rightarrow> u32" where
  "IO ioc typ nr = ucast (ioc IOC_NONE typ nr 0)"

definition IOR :: "iocMacro \<Rightarrow> u16 \<Rightarrow> u16 \<Rightarrow> u16 \<Rightarrow> u32" where
  "IOR ioc typ nr sz = ucast (ioc IOC_READ typ nr sz)"

definition IOW :: "iocMacro \<Rightarrow> u16 \<Rightarrow> u16 \<Rightarrow> u16 \<Rightarrow> u32" where
  "IOW ioc typ nr sz = ucast (ioc IOC_WRITE typ nr sz)"

definition IOWR :: "iocMacro \<Rightarrow> u16 \<Rightarrow> u16 \<Rightarrow> u16 \<Rightarrow> u32" where
  "IOWR ioc typ nr sz = ucast (ioc IOC_READ_WRITE typ nr sz)"

section \<open>The fields of a number\<close>

lemma bit_below:
  assumes "unat (w :: 'a::len word) < 2 ^ n" and "bit w m"
  shows "m < n"
proof (rule ccontr)
  assume "\<not> m < n"
  then have "unat w < 2 ^ m" using assms(1) by (meson le_less_trans less_le_trans linorder_not_less power_increasing one_le_numeral order.strict_trans2)
  moreover have "bit (unat w) m" using assms(2) by (simp add: bit_unsigned_iff)
  then have "odd (unat w div 2 ^ m)" by (simp add: bit_iff_odd)
  ultimately show False by simp
qed

lemma number_sum:
  assumes "unat dir < 2 ^ (16 - sizeBits l)" and "unat typ < 2 ^ 8" and "unat nr < 2 ^ 8" and "unat sz < 2 ^ sizeBits l"
    and "sizeBits l \<le> 16"
  shows "number l dir typ nr sz =
    push_bit (dirShift l) (ucast dir) + (push_bit typeShift (ucast typ) + (push_bit nrShift (ucast nr) + push_bit sizeShift (ucast sz)))"
proof -
  note b = bit_below [OF assms(1)] bit_below [OF assms(2)] bit_below [OF assms(3)] bit_below [OF assms(4)]
  have 1: "push_bit nrShift (ucast nr :: u32) OR push_bit sizeShift (ucast sz) = push_bit nrShift (ucast nr) + push_bit sizeShift (ucast sz)"
    using b by (intro disjunctive_add [symmetric]) (fastforce simp: bit_simps shift_defs)
  have 2: "push_bit typeShift (ucast typ :: u32) OR (push_bit nrShift (ucast nr) OR push_bit sizeShift (ucast sz)) =
      push_bit typeShift (ucast typ) + (push_bit nrShift (ucast nr) OR push_bit sizeShift (ucast sz))"
    using b by (intro disjunctive_add [symmetric]) (force simp: bit_simps shift_defs)
  have 3: "push_bit (dirShift l) (ucast dir :: u32) OR (push_bit typeShift (ucast typ) OR (push_bit nrShift (ucast nr) OR push_bit sizeShift (ucast sz))) =
      push_bit (dirShift l) (ucast dir) + (push_bit typeShift (ucast typ) OR (push_bit nrShift (ucast nr) OR push_bit sizeShift (ucast sz)))"
    using b by (intro disjunctive_add [symmetric]) (force simp: bit_simps shift_defs)
  show ?thesis unfolding number_def Let_def unfolding 3 unfolding 2 unfolding 1 by (rule refl)
qed

lemma push_bit_of_nat: "push_bit n (ucast (w :: u16) :: u32) = of_nat (unat w * 2 ^ n)"
  by (simp add: push_bit_eq_mult)

lemma unat_number:
  assumes "unat dir < 2 ^ (16 - sizeBits l)" and "unat typ < 2 ^ 8" and "unat nr < 2 ^ 8" and "unat sz < 2 ^ sizeBits l"
    and "sizeBits l \<le> 16"
  shows "unat (number l dir typ nr sz) = unat dir * 2 ^ (16 + sizeBits l) + unat sz * 2 ^ 16 + unat typ * 2 ^ 8 + unat nr"
proof -
  let ?n = "unat dir * 2 ^ (16 + sizeBits l) + unat sz * 2 ^ 16 + unat typ * 2 ^ 8 + unat nr"
  have num: "number l dir typ nr sz = of_nat ?n"
    unfolding number_sum [OF assms] push_bit_of_nat by (simp add: shift_defs algebra_simps)
  have "(2 :: nat) ^ (16 - sizeBits l) * 2 ^ (16 + sizeBits l) = 2 ^ 32" using assms(5) by (simp flip: power_add)
  then have "Suc (unat dir) * 2 ^ (16 + sizeBits l) \<le> 2 ^ 32"
    using mult_le_mono1 [of "Suc (unat dir)" "2 ^ (16 - sizeBits l)" "2 ^ (16 + sizeBits l)"] assms(1) by simp
  moreover have "Suc (unat sz) * 2 ^ 16 \<le> 2 ^ (16 + sizeBits l)"
    using mult_le_mono1 [of "Suc (unat sz)" "2 ^ sizeBits l" "2 ^ 16"] assms(4) by (simp add: power_add)
  ultimately have "?n < 2 ^ 32" using assms(2,3) by simp
  moreover have "unat (of_nat ?n :: u32) = take_bit LENGTH(32) ?n" by (simp only: unsigned_of_nat of_nat_id)
  ultimately show ?thesis unfolding num by (simp add: take_bit_nat_eq_self del: of_nat_add of_nat_mult)
qed


definition demoIoc :: "layout \<Rightarrow> iocMacro" where
  "demoIoc l d t n s = of_nat (unat (dirCode l d) * 2 ^ (16 + sizeBits l) + unat s * 2 ^ 16 + unat t * 2 ^ 8 + unat n)"

lemma demoIoc_layout:
  "unat (demoIoc ioctl_14_2 d t n s) = unat (dirCode ioctl_14_2 d) * 2 ^ 30 + unat s * 2 ^ 16 + unat t * 2 ^ 8 + unat n"
proof -
  let ?n = "unat (dirCode ioctl_14_2 d) * 2 ^ 30 + unat s * 2 ^ 16 + unat t * 2 ^ 8 + unat n"
  have "unat w < 2 ^ 16" for w :: u16 by (rule order_less_le_trans [OF unsigned_less]) simp
  then have b: "unat (dirCode ioctl_14_2 d) < 2 ^ 16" "unat s < 2 ^ 16" "unat t < 2 ^ 16" "unat n < 2 ^ 16" by blast+
  then have "?n < 2 ^ 64" by simp
  moreover have "unat (of_nat ?n :: u64) = take_bit LENGTH(64) ?n" by (simp only: unsigned_of_nat of_nat_id)
  ultimately have "unat (of_nat ?n :: u64) = ?n" by (simp add: take_bit_nat_eq_self del: of_nat_add of_nat_mult)
  then show ?thesis by (simp add: demoIoc_def ioctl_14_2_def)
qed


text \<open>The request for the attributes of a device has the number of the driver's header, \<open>_IOWR('q', 1, unsigned
  long)\<close>.\<close>

lemma smi_attr_number: "numberWR ioctl_14_2 BMCTL_GET_SMI_ATTR = 0xC0087101"
  by (simp add: numberWR_def number_def BMCTL_GET_SMI_ATTR_def ioctl_14_2_def shift_defs Let_def)

end
