(* ===== verification/Dyn_Lib.thy ===== *)
theory Dyn_Lib
  imports Go_Prelude
begin

text \<open>
  Loading of shared libraries, \<open>utils/dl/dl.go\<close>, and its use by the Atlas binding,
  \<open>gpu/atlas/dsmi/Init.go\<close>. The dynamic linker is a record of functions: a library is opened to a
  handle or with a message, a handle is closed and a symbol looked up with or without a message.
\<close>

record linker =
  dlopen :: "string \<Rightarrow> int \<Rightarrow> string + nat"
  dlclose :: "nat option \<Rightarrow> string option"
  dlsym :: "nat option \<Rightarrow> string \<Rightarrow> string option"

record DynamicLibrary =
  dlName :: string
  dlFlags :: int
  dlHandle :: "nat option"

definition NewLib :: "string \<Rightarrow> int \<Rightarrow> DynamicLibrary" where
  "NewLib name flags = \<lparr>dlName = name, dlFlags = flags, dlHandle = None\<rparr>"

definition OpenLib :: "linker \<Rightarrow> DynamicLibrary \<Rightarrow> string option \<times> DynamicLibrary" where
  "OpenLib ld lib =
     (case dlopen ld (dlName lib) (dlFlags lib) of
        Inl msg \<Rightarrow> (Some msg, lib)
      | Inr h \<Rightarrow> (None, lib\<lparr>dlHandle := Some h\<rparr>))"

text \<open>Closing keeps the handle in the structure.\<close>

definition CloseLib :: "linker \<Rightarrow> DynamicLibrary \<Rightarrow> string option" where
  "CloseLib ld lib = dlclose ld (dlHandle lib)"

definition LookupLib :: "linker \<Rightarrow> DynamicLibrary \<Rightarrow> string \<Rightarrow> string option" where
  "LookupLib ld lib symbol = dlsym ld (dlHandle lib) symbol"

section \<open>The Atlas driver library\<close>

definition dcmiLibraryName :: string where "dcmiLibraryName = ''libdrvdsmi_host.so''"
definition dcmiLibraryName2 :: string where "dcmiLibraryName2 = ''libdrvdsmi.so''"

text \<open>\<open>RTLD_LAZY | RTLD_GLOBAL\<close>\<close>

definition dcmiLibraryLoadFlags :: int where "dcmiLibraryLoadFlags = 1 + 256"

text \<open>\<open>Init\<close> tries the library of the host and then the one of a device; the result is the library
  in use and the code 0, or the message of the panic.\<close>

definition dsmiInit :: "linker \<Rightarrow> string + DynamicLibrary \<times> int" where
  "dsmiInit ld =
     (case OpenLib ld (NewLib dcmiLibraryName dcmiLibraryLoadFlags) of
        (None, lib) \<Rightarrow> Inr (lib, 0)
      | (Some err, lib) \<Rightarrow>
          (case OpenLib ld (NewLib dcmiLibraryName2 dcmiLibraryLoadFlags) of
             (None, lib2) \<Rightarrow> Inr (lib2, 0)
           | (Some err2, lib2) \<Rightarrow> Inl (''error opening '' @ dcmiLibraryName2 @ '': '' @ err2)))"

text \<open>\<open>Shutdown\<close> of a library that was never loaded dereferences nil.\<close>

definition dsmiShutdown :: "linker \<Rightarrow> DynamicLibrary option \<Rightarrow> string + int" where
  "dsmiShutdown ld lib =
     (case lib of
        None \<Rightarrow> Inl ''nil pointer dereference''
      | Some l \<Rightarrow>
          (case CloseLib ld l of
             None \<Rightarrow> Inr 0
           | Some err \<Rightarrow> Inl (''error closing '' @ dcmiLibraryName @ '': '' @ err)))"

text \<open>The library in use is open, and is the one of the host whenever that can be opened.\<close>

lemma dsmiInit_opens:
  "dsmiInit ld = Inr (lib, r) \<longleftrightarrow>
   r = 0 \<and>
   (\<exists>h name. lib = \<lparr>dlName = name, dlFlags = dcmiLibraryLoadFlags, dlHandle = Some h\<rparr> \<and>
      dlopen ld name dcmiLibraryLoadFlags = Inr h \<and>
      (name = dcmiLibraryName \<or> name = dcmiLibraryName2 \<and> \<not> (\<exists>k. dlopen ld dcmiLibraryName dcmiLibraryLoadFlags = Inr k)))"
proof -
  have "dcmiLibraryName \<noteq> dcmiLibraryName2" by code_simp
  then show ?thesis by (auto simp: dsmiInit_def OpenLib_def NewLib_def split: sum.splits)
qed

lemma dsmiInit_panics:
  "(\<exists>msg. dsmiInit ld = Inl msg) \<longleftrightarrow>
   \<not> (\<exists>name \<in> {dcmiLibraryName, dcmiLibraryName2}. \<exists>h. dlopen ld name dcmiLibraryLoadFlags = Inr h)"
  by (auto simp: dsmiInit_def OpenLib_def NewLib_def split: sum.splits)

text \<open>A failing close is reported
  under the name of the host's library whichever was loaded.\<close>

lemma close_error_names_first_library:
  assumes "dsmiInit ld = Inr (lib, r)" and "dsmiShutdown ld (Some lib) = Inl msg"
  shows "take (length (''error closing '' @ dcmiLibraryName)) msg = ''error closing '' @ dcmiLibraryName"
  using assms(2) by (auto simp: dsmiShutdown_def split: option.splits)

end
