(* ===== verification/Stream_Ends.thy ===== *)
theory Stream_Ends
  imports Stream_Utils Go_Float
begin

text \<open>
  What is left of \<open>utils/ioutil.go\<close>, \<open>utils/io-limiter.go\<close> and \<open>utils/functions.go\<close>: the constructors
  and \<open>Close\<close> methods of the wrappers, the copy with pooled buffers, the setting of a rate, and the
  three functions that call the HTTP client, a connection and \<open>openssl\<close>. What these call is a
  parameter.
\<close>

section \<open>Closing\<close>

text \<open>A writer may be a closer: closing it gives an error or none.\<close>

type_synonym 'w closer = "'w \<Rightarrow> string option \<times> 'w"

definition WriteOnClose :: "'w \<Rightarrow> bool \<times> 'w" where
  "WriteOnClose w = (False, w)"

definition HasWritten :: "bool \<times> 'w \<Rightarrow> bool" where
  "HasWritten s = fst s"

definition LimitClose :: "'w closer option \<Rightarrow> 'w closer" where
  "LimitClose closer w = (case closer of Some c \<Rightarrow> c w | None \<Rightarrow> (None, w))"

record 'w DeadlineWriter =
  dwUnder :: 'w
  dwTimeout :: int
  dwErr :: "string option"

definition NewDeadlineWriter :: "'w \<Rightarrow> int \<Rightarrow> 'w DeadlineWriter" where
  "NewDeadlineWriter w timeout = \<lparr>dwUnder = w, dwTimeout = timeout, dwErr = None\<rparr>"

text \<open>Closing does not look at an error of an earlier write.\<close>

definition DwClose :: "'w closer \<Rightarrow> 'w DeadlineWriter \<Rightarrow> string option \<times> 'w DeadlineWriter" where
  "DwClose closer d = (case closer (dwUnder d) of (e, w) \<Rightarrow> (e, d\<lparr>dwUnder := w\<rparr>))"

definition nopClose :: "'w closer" where
  "nopClose w = (None, w)"

definition NopCloser :: "'w writer \<Rightarrow> 'w writer \<times> 'w closer" where
  "NopCloser uw = (uw, nopClose)"

definition NewSkipReader :: "'s \<Rightarrow> int \<Rightarrow> int \<times> 's" where
  "NewSkipReader s n = (n, s)"

text \<open>Writes through a \<open>WriteOnCloser\<close> and its end.\<close>

fun wocSession :: "'w writer \<Rightarrow> 'w closer option \<Rightarrow> bool \<times> 'w \<Rightarrow> byte list list \<Rightarrow> string option \<times> bool \<times> 'w" where
  "wocSession uw closer (hw, w) [] = WocClose uw closer hw w"
| "wocSession uw closer (hw, w) (p # ps) =
     (case WocWrite uw hw w p of (_, hw', w') \<Rightarrow> wocSession uw closer (hw', w') ps)"

section \<open>Rates\<close>

definition burstLimit :: nat where "burstLimit = 1000 * 1000 * 1000"

text \<open>The limiter of \<open>golang.org/x/time/rate\<close>: made for a rate and a burst, and asked for \<open>n\<close> events at a
  time, which it grants or not. A wrapped reader or writer is the limiter, if one is set, and what it
  wraps.\<close>

record 'l rateLib =
  NewLimiter :: "rat \<Rightarrow> nat \<Rightarrow> 'l"
  AllowN :: "'l \<Rightarrow> int \<Rightarrow> nat \<Rightarrow> bool \<times> 'l"

definition NewLimitedReader :: "'s \<Rightarrow> 'l option \<times> 's" where
  "NewLimitedReader s = (None, s)"

definition NewLimitedWriter :: "'w \<Rightarrow> 'l option \<times> 'w" where
  "NewLimitedWriter w = (None, w)"

text \<open>The initial burst is spent at once, so that the rate holds from the start.\<close>

definition SetReaderRate :: "'l rateLib \<Rightarrow> int \<Rightarrow> rat \<Rightarrow> 'l option \<times> 's \<Rightarrow> 'l option \<times> 's" where
  "SetReaderRate lib now bytesPerSec r =
     (Some (snd (AllowN lib (NewLimiter lib bytesPerSec burstLimit) now burstLimit)), snd r)"

definition SetWriterRate :: "'l rateLib \<Rightarrow> int \<Rightarrow> rat \<Rightarrow> 'l option \<times> 'w \<Rightarrow> 'l option \<times> 'w" where
  "SetWriterRate lib now bytesPerSec w =
     (Some (snd (AllowN lib (NewLimiter lib bytesPerSec burstLimit) now burstLimit)), snd w)"

section \<open>Copying\<close>

text \<open>\<open>io.CopyBuffer\<close>, which \<open>Copy\<close> calls with a pooled buffer of 32 KiB: it ends without an error at the end of
  the source. A writer that reports more than it was given is an error, and nothing is counted.\<close>

datatype copyBufErr = CBRead ioerr | CBWrite string | CBShort | CBInvalid

partial_function (option) copyBuffer ::
  "'s reader \<Rightarrow> 'w writer \<Rightarrow> nat \<Rightarrow> nat \<Rightarrow> 's \<Rightarrow> 'w \<Rightarrow> ((nat \<times> copyBufErr option) \<times> 's \<times> 'w) option" where
  "copyBuffer rd uw bufLen wr src sink =
     (case rd bufLen src of ((c, er), src') \<Rightarrow>
        (let ((nw, ew), sink') = (if c \<noteq> [] then uw sink c else ((0, None), sink));
             invalid = (c \<noteq> [] \<and> length c < nw);
             wr' = (if invalid then wr else wr + nw)
         in if c \<noteq> [] \<and> ew \<noteq> None then Some ((wr', map_option CBWrite ew), src', sink')
            else if invalid then Some ((wr', Some CBInvalid), src', sink')
            else if c \<noteq> [] \<and> length c \<noteq> nw then Some ((wr', Some CBShort), src', sink')
            else case er of
                   Some EOF \<Rightarrow> Some ((wr', None), src', sink')
                 | Some e \<Rightarrow> Some ((wr', Some (CBRead e)), src', sink')
                 | None \<Rightarrow> copyBuffer rd uw bufLen wr' src' sink'))"

definition copyBufPool :: nat where "copyBufPool = 32 * 1024"

definition Copy :: "'s reader \<Rightarrow> 'w writer \<Rightarrow> 's \<Rightarrow> 'w \<Rightarrow> ((nat \<times> copyBufErr option) \<times> 's \<times> 'w) option" where
  "Copy rd uw src sink = copyBuffer rd uw copyBufPool 0 src sink"

section \<open>Calls\<close>

text \<open>\<open>HTTPGet\<close>: the client, made with a timeout in nanoseconds, answers with an error or none and with a
  response or none, which has a body or not; after a failed redirect there are both. The deferred
  function closes a body, and the idle connections in any case. The result is the error and these two.\<close>

definition HTTPGet ::
  "(string \<Rightarrow> int \<Rightarrow> string option \<times> bool option) \<Rightarrow> string \<Rightarrow> int \<Rightarrow> string option \<times> bool \<times> bool" where
  "HTTPGet get URL timeout =
     (case get URL (1000000 * timeout) of (err, resp) \<Rightarrow> (err, resp = Some True, True))"

record netConn =
  ncDeadline :: "int option"
  ncClosed :: bool

text \<open>A nil pointer, and a pointer to a nil connection, are passed over.\<close>

definition CloseConn :: "int \<Rightarrow> netConn option option \<Rightarrow> netConn option option" where
  "CloseConn now conn =
     (case conn of
        Some (Some c) \<Rightarrow> Some (Some (c\<lparr>ncDeadline := Some (now + 1000000), ncClosed := True\<rparr>))
      | _ \<Rightarrow> conn)"

text \<open>\<open>Keygen\<close>: the second command runs only when the first succeeded. The result is the error and the
  commands that were run.\<close>

definition genKey :: string where "genKey = ''openssl genrsa -out proxy.key 2048''"

definition genCert :: string where
  "genCert = ''openssl req -new -key proxy.key -x509 -days 3650 -out proxy.crt -subj /C=CN/ST=BJ/O=\"Localhost Ltd\"/CN=proxy''"

definition Keygen :: "(string \<Rightarrow> string option) \<Rightarrow> string option \<times> string list" where
  "Keygen run =
     (case run genKey of
        Some e \<Rightarrow> (Some e, [genKey])
      | None \<Rightarrow> (run genCert, [genKey, genCert]))"

section \<open>Properties\<close>

text \<open>A \<open>WriteOnCloser\<close> that is closed has been written to, be it with nothing.\<close>

lemma wocSession_writes: "fst (snd (wocSession uw closer (hw, w) ps))"
proof (induction ps arbitrary: hw w)
  case Nil
  then show ?case
    by (cases hw) (auto simp: WocClose_def WocWrite_def Let_def split: prod.splits option.splits)
next
  case (Cons p ps)
  then show ?case by (auto simp: WocWrite_def split: prod.splits)
qed

text \<open>What the relay's own loop reports as an error at the end of its source is none for \<open>Copy\<close>.\<close>

fun copyResult :: "copyErr option \<Rightarrow> copyBufErr option" where
  "copyResult (Some (ReadErr EOF)) = None"
| "copyResult (Some (ReadErr e)) = Some (CBRead e)"
| "copyResult (Some (WriteErr e)) = Some (CBWrite e)"
| "copyResult (Some ErrShortWrite) = Some CBShort"
| "copyResult None = None"

context finite_reader
begin

lemma copyBuffer_ioCopy:
  assumes "\<And>w p n e w'. uw w p = ((n, e), w') \<Longrightarrow> n \<le> length p"
  shows "copyBuffer rd uw copyBufLen wr s w =
    map_option (\<lambda>(r, s', w'). ((written r, copyResult (copyError r)), s', w')) (ioCopy rd uw wr cs s w)"
proof (induction "left s" arbitrary: s wr cs w rule: less_induct)
  case less
  obtain c e s1 where r: "rd copyBufLen s = ((c, e), s1)" by (metis surj_pair)
  obtain nw ew w1 where w: "(if c \<noteq> [] then uw w c else ((0, None), w)) = ((nw, ew), w1)" by (metis surj_pair)
  have valid: "\<not> (c \<noteq> [] \<and> length c < nw)" using assms [of w c nw ew w1] w by auto
  define cs' where "cs' = (if nw > 0 then cs @ [nw] else cs)"
  show ?case
  proof (cases "c \<noteq> [] \<and> (ew \<noteq> None \<or> length c \<noteq> nw)")
    case True
    then show ?thesis using r w valid
      by (subst copyBuffer.simps, subst ioCopy.simps) (cases ew; simp add: Let_def)
  next
    case ok: False
    show ?thesis
    proof (cases e)
      case None
      then have "left s1 < left s" using progress [of copyBufLen s c s1] r by (simp add: copyBufLen_def)
      from less.hyps [OF this, of "wr + nw" w1 cs'] show ?thesis using r w ok valid None
        by (subst copyBuffer.simps, subst ioCopy.simps) (auto simp: cs'_def [symmetric] Let_def)
    next
      case (Some err)
      with r w ok valid show ?thesis
        by (subst copyBuffer.simps, subst ioCopy.simps) (cases err; auto simp: Let_def)
    qed
  qed
qed

end

text \<open>C35: \<open>Copy\<close> and the relay's loop are the same loop. For any writer that keeps the contract of
  \<open>io.Writer\<close>, not to report more than it was given, and any source, both return; they take the same
  bytes from the source, leave the writer in the same state and count the same bytes, and they report
  the same error, except that the end of the source is an error of \<open>ioCopy\<close> (which the relay needs to
  close its connections) and none of \<open>Copy\<close>.\<close>

theorem Copy_agrees_with_relay:
  assumes "\<And>w p n e w'. uw w p = ((n, e), w') \<Longrightarrow> n \<le> length p"
  shows "\<exists>r s' w'. ioCopy readSome uw 0 [] s w = Some (r, s', w') \<and>
    Copy readSome uw s w = Some ((written r, copyResult (copyError r)), s', w') \<and>
    (copyResult (copyError r) = None \<longleftrightarrow> copyError r = Some (ReadErr EOF))"
proof -
  obtain r s' w' where io: "ioCopy readSome uw 0 [] s w = Some (r, s', w')" "copyError r \<noteq> None"
    using plain.ioCopy_ends [of "[]" 0 uw s w] by auto
  have "copyBufPool = copyBufLen" by (simp add: copyBufPool_def copyBufLen_def)
  then have "Copy readSome uw s w = Some ((written r, copyResult (copyError r)), s', w')"
    using plain.copyBuffer_ioCopy [where uw = uw and wr = 0 and cs = "[]" and s = s and w = w, OF assms] io(1)
    by (simp add: Copy_def)
  moreover have "copyResult (copyError r) = None \<longleftrightarrow> copyError r = Some (ReadErr EOF)"
    using io(2) by (cases "copyError r" rule: copyResult.cases) auto
  ultimately show ?thesis using io(1) by (intro exI conjI)
qed

theorem Copy_agrees_with_relay_witness:
  "\<exists>r s' w'. ioCopy readSome connWrite 0 [] [([1, 2], None), ([3], Some EOF)] [] = Some (r, s', w') \<and>
     Copy readSome connWrite [([1, 2], None), ([3], Some EOF)] [] = Some ((written r, copyResult (copyError r)), s', w') \<and>
     (copyResult (copyError r) = None \<longleftrightarrow> copyError r = Some (ReadErr EOF))"
  by (rule Copy_agrees_with_relay) (simp add: connWrite_def)

end
