(* ===== verification/Node_Run.thy ===== *)
theory Node_Run
  imports Node_Start Pilot_Loop
begin

text \<open>
  The running node: all of \<open>main.go\<close>, that is the start of \<open>Node_Start\<close> followed by the pilot of
  \<open>Pilot_Loop\<close>, and the requests that the web server then hands to the quota handlers. The quota
  controller made at the start is the one that the handlers work on, so what is known of the start,
  of the controller, of the handlers and of the routes comes together here.
\<close>

section \<open>The node\<close>

text \<open>\<open>getPquotaState\<close>: the first id of a process.\<close>

definition getPquotaState :: u32 where "getPquotaState = 1"

record nodeState =
  nCfg :: Config
  nGlobals :: globals
  nIds :: "u32 \<times> xfs"
  nProxy :: "runEnd option"
  nEnv :: pilotEnv
  nPilot :: watchState

datatype nodeEnd = NodePanic | NodeFatal watchErr | NodeUp nodeState

text \<open>What the pilot is started with besides the configuration: the outcome of parsing the template and of
  making a client, the variables of the process, the listing of the configuration directory, whether
  the collector starts, the time.\<close>

record pilotStart =
  psParses :: "string \<Rightarrow> bool"
  psClientOk :: "string \<Rightarrow> bool"
  psGetenv :: "string \<Rightarrow> string"
  psTopics :: "(unit + string) option"
  psNames :: "(string \<times> fstat \<times> bool \<times> bool) list option"
  psStartOk :: bool
  psProc :: proc
  psTime :: int
  psState :: pilotState

text \<open>A pilot that cannot be made panics; the error of a pilot that ends is fatal.\<close>

definition nodeMain ::
  "proxyNet \<Rightarrow> clientLib \<Rightarrow> faults \<Rightarrow> sys \<Rightarrow> xfs \<Rightarrow> (string \<Rightarrow> string option) \<Rightarrow> (string \<Rightarrow> Config \<Rightarrow> Config) \<Rightarrow>
   (string \<Rightarrow> string option) \<Rightarrow> (string \<Rightarrow> bool) \<Rightarrow> mainFlags \<Rightarrow> Config \<Rightarrow> pilotStart \<Rightarrow> nodeEnd" where
  "nodeMain net lib flt sy d readFile unmarshal absPathOf levelOk fl glob ps =
     (case mainStart net lib flt sy (getPquotaState, d) readFile unmarshal absPathOf levelOk fl glob of
        MainPanic \<Rightarrow> NodePanic
      | MainUp cfg baseDir tpl g ids proxy \<Rightarrow>
          (case pilotRun (psParses ps) (psClientOk ps)
                  \<lparr>cfgPilotType = PilotType cfg, cfgLogPrefix = PilotLogPrefix cfg, getenv = psGetenv ps, topicsFile = psTopics ps\<rparr>
                  tpl baseDir (psNames ps) (psStartOk ps) (psProc ps) (psTime ps) (psState ps) of
             Inl e \<Rightarrow> NodePanic
           | Inr (Inl e) \<Rightarrow> NodeFatal e
           | Inr (Inr (env, s)) \<Rightarrow>
               NodeUp \<lparr>nCfg = cfg, nGlobals = g, nIds = ids, nProxy = proxy, nEnv = env, nPilot = s\<rparr>))"

text \<open>The quota state that the handlers find: the controller of the node, if it has one.\<close>

definition nodeQuota :: "nodeState \<Rightarrow> qstate option" where
  "nodeQuota n =
     (case GetQuotaControl (nGlobals n) of
        Inl e \<Rightarrow> None
      | Inr c \<Rightarrow> Some \<lparr>ctl = c, nextProjectID = fst (nIds n), disk = snd (nIds n)\<rparr>)"

section \<open>Quota requests\<close>

text \<open>A request at some path, as the web server dispatches it; handlers of other routes do not touch
  the quota state.\<close>

definition quotaHandler :: "route \<Rightarrow> (svc \<Rightarrow> qstate option \<Rightarrow> QuotaParam \<Rightarrow> effects) option" where
  "quotaHandler r =
     (case r of
        RSetDirQuota \<Rightarrow> Some SetDirQuotaHandler
      | RReleaseDir \<Rightarrow> Some ReleaseDirHandler
      | RGetDirQuotaInfo \<Rightarrow> Some GetDirQuotaInfoHandler
      | RGetNodeSpaceInfo \<Rightarrow> Some GetNodeSpaceInfoHandler
      | RGetImageDiskQuotaInfo \<Rightarrow> Some GetImageDiskQuotaInfoHandler
      | _ \<Rightarrow> None)"

definition webQuota :: "svc \<times> string \<times> QuotaParam \<Rightarrow> qstate option \<Rightarrow> qstate option" where
  "webQuota req c =
     (case req of (s, path, param) \<Rightarrow>
        (case muxHandler routes path of
           Handled r \<Rightarrow> (case quotaHandler r of Some h \<Rightarrow> control (h s c param) | None \<Rightarrow> c)
         | _ \<Rightarrow> c))"

text \<open>A sequence of requests; each meets its own time, faults and answers of other nodes.\<close>

fun webRun :: "(svc \<times> string \<times> QuotaParam) list \<Rightarrow> qstate option \<Rightarrow> qstate option" where
  "webRun [] c = c"
| "webRun (r # rs) c = webRun rs (webQuota r c)"

section \<open>What one request does to the ids\<close>

text \<open>An accepted request for a directory of this node.\<close>

definition asksFor :: "Control \<Rightarrow> svc \<times> string \<times> QuotaParam \<Rightarrow> string \<Rightarrow> bool" where
  "asksFor c req p \<longleftrightarrow>
     (case req of (s, path, param) \<Rightarrow>
        muxHandler routes path = Handled RSetDirQuota \<and> getRealPath c (TargetPath param) = p \<and>
        (\<exists>claims. authenticate s (Token param) = Inr claims \<and> AHost claims = ''localhost''))"

text \<open>Ids as before, or one more for the directory that was asked for.\<close>

definition idStep :: "svc \<times> string \<times> QuotaParam \<Rightarrow> qstate \<Rightarrow> qstate \<Rightarrow> bool" where
  "idStep req st st' \<longleftrightarrow>
     basePath (ctl st') = basePath (ctl st) \<and> relBasePath (ctl st') = relBasePath (ctl st) \<and>
     (sameIds st st' \<or>
      (\<exists>p. asksFor (ctl st) req p \<and> quotas (ctl st) p = None \<and> nextProjectID st' = nextProjectID st + 1 \<and>
         quotas (ctl st') = (quotas (ctl st))(p \<mapsto> nextProjectID st)))"

lemma SetDirQuota_ids:
  fixes st st' :: qstate
  assumes "SetDirQuota flt st t sz = (e, st')"
  shows "basePath (ctl st') = basePath (ctl st) \<and> relBasePath (ctl st') = relBasePath (ctl st) \<and>
    (sameIds st st' \<or>
     (quotas (ctl st) (getRealPath (ctl st) t) = None \<and> nextProjectID st' = nextProjectID st + 1 \<and>
        quotas (ctl st') = (quotas (ctl st))(getRealPath (ctl st) t \<mapsto> nextProjectID st)))"
proof (cases "quotas (ctl st) (getRealPath (ctl st) t)")
  case None
  then show ?thesis
    using assms by (auto simp: SetDirQuota_def Let_def sameIds_def split: sum.splits if_splits)
next
  case (Some i)
  then show ?thesis
    using assms by (auto simp: SetDirQuota_def Let_def sameIds_def split: sum.splits if_splits)
qed

lemma ReleaseDir_ids: "ReleaseDir flt st t = (e, st') \<Longrightarrow> ctl st' = ctl st \<and> nextProjectID st' = nextProjectID st"
  by (auto simp: ReleaseDir_def Let_def split: if_splits)

lemma handler_in: "quotaHandler r = Some h \<Longrightarrow> h \<in> set handlers"
  by (auto simp: quotaHandler_def handlers_def split: route.splits)

text \<open>A local request with an accepted token.\<close>

lemma local_handler:
  assumes "authenticate s (Token param) = Inr claims" and "AHost claims = ''localhost''"
  shows "control (SetDirQuotaHandler s (Some st) param) = Some (snd (SetDirQuota (callFaults s) st (TargetPath param) (ParamQuota param)))"
    and "control (ReleaseDirHandler s (Some st) param) = Some (snd (ReleaseDir (callFaults s) st (TargetPath param)))"
    and "h \<in> {GetDirQuotaInfoHandler, GetNodeSpaceInfoHandler, GetImageDiskQuotaInfoHandler} \<Longrightarrow> control (h s (Some st) param) = Some st"
  using assms
  by (auto simp: handler_defs Let_def startEffects_def split: prod.splits option.splits sum.splits)

lemma idStep_refl [simp]: "idStep req st st"
  by (simp add: idStep_def sameIds_def)

lemma webQuota_step: "\<exists>st'. webQuota req (Some st) = Some st' \<and> idStep req st st'"
proof -
  obtain s path param where req: "req = (s, path, param)" by (cases req)
  show ?thesis
  proof (cases "\<exists>r h. muxHandler routes path = Handled r \<and> quotaHandler r = Some h")
    case False
    then have "webQuota req (Some st) = Some st"
      by (auto simp: webQuota_def req split: dispatch.splits option.splits)
    then show ?thesis by simp
  next
    case True
    then obtain r h where rh: "muxHandler routes path = Handled r" "quotaHandler r = Some h" by blast
    then have web: "webQuota req (Some st) = control (h s (Some st) param)" by (simp add: webQuota_def req)
    show ?thesis
    proof (cases "\<exists>claims. authenticate s (Token param) = Inr claims \<and> AHost claims = ''localhost''")
      case False
      then have "control (h s (Some st) param) = Some st"
        using rejected_effects [OF handler_in [OF rh(2)], of s param _ "Some st"]
          forwarded_keeps_control [OF handler_in [OF rh(2)], of s param _ "Some st"]
        by (cases "authenticate s (Token param)") auto
      then show ?thesis using web by simp
    next
      case True
      then obtain claims where ok: "authenticate s (Token param) = Inr claims" "AHost claims = ''localhost''" by blast
      consider "h \<in> {GetDirQuotaInfoHandler, GetNodeSpaceInfoHandler, GetImageDiskQuotaInfoHandler}"
        | "h = ReleaseDirHandler" | "h = SetDirQuotaHandler" "r = RSetDirQuota"
        using rh(2) by (auto simp: quotaHandler_def split: route.splits)
      then show ?thesis
      proof cases
        case 1
        then show ?thesis using web local_handler(3) [OF ok 1] by simp
      next
        case 2
        obtain e st' where rel: "ReleaseDir (callFaults s) st (TargetPath param) = (e, st')" by fastforce
        then show ?thesis
          using web local_handler(2) [OF ok] ReleaseDir_ids [OF rel] by (simp add: 2 idStep_def sameIds_def)
      next
        case 3
        obtain e st' where set: "SetDirQuota (callFaults s) st (TargetPath param) (ParamQuota param) = (e, st')" by fastforce
        have "asksFor (ctl st) req (getRealPath (ctl st) (TargetPath param))"
          using rh(1) 3(2) ok by (simp add: asksFor_def req)
        then have "idStep req st st'" using SetDirQuota_ids [OF set] unfolding idStep_def by blast
        then show ?thesis using web local_handler(1) [OF ok] set 3(1) by simp
      qed
    qed
  qed
qed

section \<open>A run of requests\<close>

lemma webRun_snoc: "webRun (rs @ [r]) c = webQuota r (webRun rs c)"
  by (induction rs arbitrary: c) simp_all

lemma asksFor_same:
  "basePath c' = basePath c \<Longrightarrow> relBasePath c' = relBasePath c \<Longrightarrow> asksFor c' req p = asksFor c req p"
  by (auto simp: asksFor_def getRealPath_def)

text \<open>What holds of the ids after the requests \<open>rs\<close>: all are below the next one, the directories managed
  before are as they were, and a new one has an id of its own, not handed out before, and was asked
  for.\<close>

definition idsInv :: "qstate \<Rightarrow> (svc \<times> string \<times> QuotaParam) list \<Rightarrow> qstate \<Rightarrow> bool" where
  "idsInv st0 rs st \<longleftrightarrow>
     basePath (ctl st) = basePath (ctl st0) \<and> relBasePath (ctl st) = relBasePath (ctl st0) \<and>
     (\<forall>p i. quotas (ctl st) p = Some i \<longrightarrow> i < nextProjectID st) \<and>
     (\<forall>p i. quotas (ctl st0) p = Some i \<longrightarrow> quotas (ctl st) p = Some i) \<and>
     (\<forall>p i. quotas (ctl st0) p = None \<longrightarrow> quotas (ctl st) p = Some i \<longrightarrow>
        nextProjectID st0 \<le> i \<and> (\<forall>q. q \<noteq> p \<longrightarrow> quotas (ctl st) q \<noteq> Some i) \<and> (\<exists>r \<in> set rs. asksFor (ctl st0) r p)) \<and>
     nextProjectID st0 \<le> nextProjectID st \<and> unat (nextProjectID st) \<le> unat (nextProjectID st0) + length rs"

lemma idsInv_new:
  assumes inv: "idsInv st0 rs st" and "asksFor (ctl st) r p" and "quotas (ctl st) p = None"
    and "nextProjectID st' = nextProjectID st + 1" and "quotas (ctl st') = (quotas (ctl st))(p \<mapsto> nextProjectID st)"
    and "basePath (ctl st') = basePath (ctl st)" and "relBasePath (ctl st') = relBasePath (ctl st)"
    and room: "unat (nextProjectID st0) + length (rs @ [r]) < 2 ^ 32"
  shows "idsInv st0 (rs @ [r]) st'"
proof -
  have "newId st st'" unfolding newId_def using assms(3-5) by blast
  moreover have "unat (nextProjectID st) + 1 < 2 ^ 32" using inv room by (simp add: idsInv_def)
  ultimately have nxt: "unat (nextProjectID st') = unat (nextProjectID st) + 1" "nextProjectID st \<noteq> - 1"
    using unat_next by blast+
  have less: "i \<le> nextProjectID st \<Longrightarrow> i < nextProjectID st'" for i
    using word_less_succ [OF nxt(2)] assms(4) by simp
  have asked: "asksFor (ctl st0) r p" using asksFor_same [of "ctl st" "ctl st0"] inv assms(2) by (simp add: idsInv_def)
  have below: "quotas (ctl st) q = Some i \<Longrightarrow> i < nextProjectID st" for q i using inv by (simp add: idsInv_def)
  then have other: "q \<noteq> p \<Longrightarrow> quotas (ctl st') q \<noteq> Some (nextProjectID st)" for q
    using assms(5) by (auto dest: less_imp_neq)
  have "nextProjectID st0 \<le> nextProjectID st'" using inv less [of "nextProjectID st"] by (meson idsInv_def less_imp_le order.trans order_refl)
  moreover have "i < nextProjectID st'" if "quotas (ctl st') q = Some i" for q i
    using that below less assms(5) by (cases "q = p") (auto intro: less_imp_le)
  moreover have "quotas (ctl st') q = Some i" if "quotas (ctl st0) q = Some i" for q i
    using that inv assms(3,5) by (auto simp: idsInv_def)
  moreover have "nextProjectID st0 \<le> i \<and> (\<forall>q'. q' \<noteq> q \<longrightarrow> quotas (ctl st') q' \<noteq> Some i) \<and> (\<exists>r' \<in> set (rs @ [r]). asksFor (ctl st0) r' q)"
    if q: "quotas (ctl st0) q = None" "quotas (ctl st') q = Some i" for q i
  proof (cases "q = p")
    case True
    then show ?thesis using q assms(5) other asked inv by (auto simp: idsInv_def)
  next
    case False
    then have i: "quotas (ctl st) q = Some i" using q assms(5) by simp
    then have "i \<noteq> nextProjectID st" using below by blast
    then show ?thesis using inv q(1) i assms(5) unfolding idsInv_def by (auto split: if_splits)
  qed
  ultimately show ?thesis using inv assms(6,7) nxt(1) unfolding idsInv_def by auto
qed

lemma webRun_inv:
  assumes "\<And>p i. quotas (ctl st0) p = Some i \<Longrightarrow> i < nextProjectID st0"
    and "unat (nextProjectID st0) + length rs < 2 ^ 32"
  shows "\<exists>st. webRun rs (Some st0) = Some st \<and> idsInv st0 rs st"
  using assms(2)
proof (induction rs rule: rev_induct)
  case Nil
  then show ?case using assms(1) by (auto simp: idsInv_def)
next
  case (snoc r rs)
  then obtain st where st: "webRun rs (Some st0) = Some st" "idsInv st0 rs st" by auto
  obtain st' where st': "webQuota r (Some st) = Some st'" "idStep r st st'" using webQuota_step by blast
  have "idsInv st0 (rs @ [r]) st'"
  proof (cases "sameIds st st'")
    case True
    then show ?thesis using st(2) st'(2) unfolding idsInv_def idStep_def sameIds_def by auto
  next
    case False
    then obtain p where p: "asksFor (ctl st) r p" "quotas (ctl st) p = None" "nextProjectID st' = nextProjectID st + 1"
      "quotas (ctl st') = (quotas (ctl st))(p \<mapsto> nextProjectID st)" using st'(2) unfolding idStep_def by blast
    show ?thesis by (rule idsInv_new [OF st(2) p]) (use st'(2) snoc.prems in \<open>auto simp: idStep_def\<close>)
  qed
  then show ?case using st st' by (simp add: webRun_snoc)
qed

section \<open>From the start of the node\<close>

lemma NewControl_control:
  assumes "NewControl flt sy nxt d pre base = (e, Some c, nxt', d')"
  shows "e = None"
proof -
  obtain rel d1 where rel: "locateBase flt sy d pre base = (Inr rel, d1)"
    using assms by (auto simp: NewControl_def split: prod.splits sum.splits)
  obtain dev d2 where dev: "makeBackingFsDev sy d1 rel = (Inr dev, d2)"
    using assms by (auto simp: NewControl_def rel split: prod.splits sum.splits)
  have sup: "hasQuotaSupport sy dev = Inr True"
    using assms by (auto simp: NewControl_def rel dev split: sum.splits bool.splits)
  obtain b where b: "getProjectID flt d2 rel = Inr b"
    using assms by (auto simp: NewControl_def rel dev sup split: sum.splits)
  obtain d3 where d3: "setProjectQuota flt d2 (b + 10000) 0 = Inr d3"
    using assms by (auto simp: NewControl_def rel dev sup b Let_def split: sum.splits)
  show ?thesis
    using assms by (auto simp: NewControl_def rel dev sup b d3 Let_def split: prod.splits option.splits)
qed

lemma configInit_quota:
  assumes "configInit lib flt sy st cfg base = Some (g, st')" and "quotaController g = Some c"
  shows "NewControl flt sy (fst st) (snd st) base (HostTempDataPath cfg) = (None, Some c, fst st', snd st')"
proof -
  obtain e c' nxt d where new: "NewControl flt sy (fst st) (snd st) base (HostTempDataPath cfg) = (e, c', nxt, d)"
    by (metis prod_cases4)
  have "st' = (nxt, d)"
    using assms(1) new
    by (auto simp: configInit_def InitK8sClient_def InitQuotaController_def Let_def split: if_splits)
  moreover have "c' = Some c" using configInit_clients(4) [OF assms(1)] assms(2) new by simp
  ultimately show ?thesis using new NewControl_control by simp
qed

lemma nodeMain_start:
  assumes "nodeMain net lib flt sy d readFile unmarshal absPathOf levelOk fl glob ps = NodeUp n"
  obtains baseDir tpl version p where
    "configInit lib flt sy (getPquotaState, d) (nCfg n) baseDir = Some (nGlobals n, nIds n)"
    "NewPilot (psParses ps) (psClientOk ps)
       \<lparr>cfgPilotType = PilotType (nCfg n), cfgLogPrefix = PilotLogPrefix (nCfg n), getenv = psGetenv ps, topicsFile = psTopics ps\<rparr>
       tpl baseDir = Inr (nEnv n, p, version)"
    "watchStart (nEnv n) (psNames ps) (psStartOk ps) (psProc ps) (psTime ps) (psState ps) = Inr (nPilot n)"
proof -
  obtain cfg baseDir tpl g ids proxy where up:
    "mainStart net lib flt sy (getPquotaState, d) readFile unmarshal absPathOf levelOk fl glob = MainUp cfg baseDir tpl g ids proxy"
    using assms by (auto simp: nodeMain_def split: mainEnd.splits)
  from up have "configInit lib flt sy (getPquotaState, d) cfg baseDir = Some (g, ids)"
    by (auto simp: mainStart_def Let_def split: option.splits if_splits prod.splits)
  moreover obtain env s where run: "pilotRun (psParses ps) (psClientOk ps)
      \<lparr>cfgPilotType = PilotType cfg, cfgLogPrefix = PilotLogPrefix cfg, getenv = psGetenv ps, topicsFile = psTopics ps\<rparr>
      tpl baseDir (psNames ps) (psStartOk ps) (psProc ps) (psTime ps) (psState ps) = Inr (Inr (env, s))"
    and n: "n = \<lparr>nCfg = cfg, nGlobals = g, nIds = ids, nProxy = proxy, nEnv = env, nPilot = s\<rparr>"
    using assms up by (auto simp: nodeMain_def split: sum.splits)
  moreover from run obtain p version where
    "NewPilot (psParses ps) (psClientOk ps)
      \<lparr>cfgPilotType = PilotType cfg, cfgLogPrefix = PilotLogPrefix cfg, getenv = psGetenv ps, topicsFile = psTopics ps\<rparr>
      tpl baseDir = Inr (env, p, version)"
    "watchStart env (psNames ps) (psStartOk ps) (psProc ps) (psTime ps) (psState ps) = Inr s"
    by (auto simp: pilotRun_def split: sum.splits prod.splits)
  ultimately show thesis using that by (simp add: n)
qed

lemma nodeQuota_below:
  assumes "nodeMain net lib flt sy d readFile unmarshal absPathOf levelOk fl glob ps = NodeUp n"
    and "nodeQuota n = Some st0" and "\<forall>q. projids (disk st0) q \<noteq> - 1" and "quotas (ctl st0) p = Some i"
  shows "projids (disk st0) p = i \<and> i < nextProjectID st0"
proof -
  obtain baseDir where init: "configInit lib flt sy (getPquotaState, d) (nCfg n) baseDir = Some (nGlobals n, nIds n)"
    using nodeMain_start [OF assms(1)] by metis
  have ctl: "quotaController (nGlobals n) = Some (ctl st0)" and ids: "nIds n = (nextProjectID st0, disk st0)"
    using assms(2) by (auto simp: nodeQuota_def GetQuotaControl_def split: option.splits)
  note new = configInit_quota [OF init ctl, unfolded ids, simplified]
  have "scan_ok (disk st0) (quotas (ctl st0), nextProjectID st0)"
    using findNextProjectID_ok [OF _ assms(3) NewControl_run [OF new]] by (simp add: scan_ok_def)
  then show ?thesis using assms(4) by (auto simp: scan_ok_def)
qed

text \<open>C34: Project ids are safe on a running node. From the start of the process, through any sequence of
  requests to the web server, at any paths, with any tokens, and whatever system calls fail: the ids
  of the directories found on the disk at the start are kept; a directory that is managed only since
  then has an id that no other directory has and that is above all ids found at the start; and it was
  asked for by a request at the path of \<open>SetDirQuota\<close> whose token was accepted for this node. (Fewer
  requests than ids are left, and no directory has the largest id.)\<close>

theorem node_ids_unique_and_authorized:
  assumes "nodeMain net lib flt sy d readFile unmarshal absPathOf levelOk fl glob ps = NodeUp n"
    and "nodeQuota n = Some st0" and "\<forall>q. projids (disk st0) q \<noteq> - 1"
    and "unat (nextProjectID st0) + length reqs < 2 ^ 32"
  shows "\<exists>st. webRun reqs (Some st0) = Some st \<and>
    (\<forall>p i. quotas (ctl st0) p = Some i \<longrightarrow> quotas (ctl st) p = Some i \<and> projids (disk st0) p = i) \<and>
    (\<forall>p i. quotas (ctl st0) p = None \<and> quotas (ctl st) p = Some i \<longrightarrow>
       (\<forall>q. q \<noteq> p \<longrightarrow> quotas (ctl st) q \<noteq> Some i) \<and> (\<forall>q j. quotas (ctl st0) q = Some j \<longrightarrow> j < i) \<and>
       (\<exists>(s, path, param) \<in> set reqs. muxHandler routes path = Handled RSetDirQuota \<and>
          getRealPath (ctl st0) (TargetPath param) = p \<and>
          (\<exists>claims. authenticate s (Token param) = Inr claims \<and> AHost claims = ''localhost'')))"
proof -
  note below = nodeQuota_below [OF assms(1-3)]
  obtain st where run: "webRun reqs (Some st0) = Some st" and inv: "idsInv st0 reqs st"
    using webRun_inv [OF _ assms(4)] below by blast
  have "j < i" if "quotas (ctl st0) p = None" "quotas (ctl st) p = Some i" "quotas (ctl st0) q = Some j" for p i q j
  proof -
    have "nextProjectID st0 \<le> i" using inv that(1,2) by (simp add: idsInv_def)
    then show ?thesis using below [OF that(3)] by (meson less_le_trans)
  qed
  then show ?thesis using run inv below unfolding idsInv_def asksFor_def by (intro exI [of _ st]) auto
qed

text \<open>The collector and the prefixes of the pilot are those of the configuration; without prefixes it is
  \<open>cv\<close>, and a node never runs with another type than the two.\<close>

lemma node_collector:
  assumes "nodeMain net lib flt sy d readFile unmarshal absPathOf levelOk fl glob ps = NodeUp n"
  shows "pilotType (nEnv n) = PilotType (nCfg n) \<and> PilotType (nCfg n) \<in> {''filebeat'', ''fluentd''} \<and>
    logPrefix (nEnv n) = (if PilotLogPrefix (nCfg n) = [] then [''cv''] else splitC (CHR '','') (PilotLogPrefix (nCfg n)))"
  by (rule nodeMain_start [OF assms]) (drule NewPilot_env, simp)

text \<open>A node with Filebeat and a base directory that holds one directory of project 20000.\<close>

definition nodeConfig :: Config where
  "nodeConfig = demoConfig\<lparr>PilotType := ''filebeat'', LineMaxSize := 1, HostTempDataPath := ''/d''\<rparr>"

definition nodePilot :: pilotStart where
  "nodePilot = \<lparr>psParses = (\<lambda>_. True), psClientOk = (\<lambda>_. True), psGetenv = (\<lambda>_. []), psTopics = None, psNames = Some [],
     psStartOk = True, psProc = \<lparr>running = False, watchers = 0, crashed = False\<rparr>, psTime = 0, psState = oldRun\<lparr>confs := []\<rparr>\<rparr>"

abbreviation exampleNode :: nodeEnd where
  "exampleNode \<equiv> nodeMain relayNet demoClients exampleFaults exampleSys exampleDisk (\<lambda>_. Some ''t'') (\<lambda>_ _. nodeConfig)
     (\<lambda>_. Some ''/'') (\<lambda>_. True) \<lparr>flTemplate = ''t'', flBase = ''/'', flConfig = ''c'', flLevel = ''INFO''\<rparr> demoConfig nodePilot"

lemma node_config: "ParseFromFile (\<lambda>_. Some ''t'') (\<lambda>_ _. nodeConfig) ''c'' demoConfig = Some nodeConfig"
proof -
  have "trimSuffix ''/d'' ''/'' = ''/d''" by code_simp
  then show ?thesis by (simp add: ParseFromFile_def nodeConfig_def demoConfig_def Let_def)
qed

lemma node_handler: "webHandler \<noteq> None"
  by code_simp

lemma exampleNode_up:
  "\<exists>n st0. exampleNode = NodeUp n \<and> nodeQuota n = Some st0 \<and> projids (disk st0) = projids exampleDisk \<and>
     nextProjectID st0 = 20001 \<and> quotas (ctl st0) = [''/d/u'' \<mapsto> 20000] \<and> relBasePath (ctl st0) = ''/d''"
proof -
  obtain c d' where new: "NewControl exampleFaults exampleSys 1 exampleDisk [] ''/d'' = (None, Some c, 20001, d')"
    "relBasePath c = ''/d''" "quotas c = [''/d/u'' \<mapsto> 20000]" "projids d' = projids exampleDisk"
    using example_NewControl by blast
  obtain g ids where init: "configInit demoClients exampleFaults exampleSys (1, exampleDisk) nodeConfig [] = Some (g, ids)"
    using configInit_up [of demoClients exampleFaults exampleSys "(1, exampleDisk)" nodeConfig "[]"]
    by (auto simp: demoClients_def)
  have base: "HostTempDataPath nodeConfig = ''/d''" by (simp add: nodeConfig_def)
  have g: "quotaController g = Some c" using configInit_clients(4) [OF init] new(1) by (simp add: base)
  have ids: "ids = (20001, d')" using configInit_quota [OF init g] new(1) by (simp add: base prod_eq_iff)
  obtain proxy where "mainStart relayNet demoClients exampleFaults exampleSys (getPquotaState, exampleDisk) (\<lambda>_. Some ''t'')
      (\<lambda>_ _. nodeConfig) (\<lambda>_. Some ''/'') (\<lambda>_. True) \<lparr>flTemplate = ''t'', flBase = ''/'', flConfig = ''c'', flLevel = ''INFO''\<rparr>
      demoConfig = MainUp nodeConfig [] ''t'' g ids proxy"
    using node_handler by (simp add: mainStart_def node_config init getPquotaState_def)
  moreover have type: "PilotType nodeConfig = ''filebeat''" by (simp add: nodeConfig_def)
  have "\<exists>env s. pilotRun (psParses nodePilot) (psClientOk nodePilot)
      \<lparr>cfgPilotType = PilotType nodeConfig, cfgLogPrefix = PilotLogPrefix nodeConfig, getenv = psGetenv nodePilot, topicsFile = psTopics nodePilot\<rparr>
      ''t'' [] (psNames nodePilot) (psStartOk nodePilot) (psProc nodePilot) (psTime nodePilot) (psState nodePilot) = Inr (Inr (env, s))"
    by (simp add: pilotRun_def NewPilot_def NewPiloter_def type watchStart_def cleanConfigs_def collectorStart_def Let_def nodePilot_def fbStart_def)
  ultimately obtain n where n: "exampleNode = NodeUp n" "nGlobals n = g" "nIds n = ids" by (auto simp: nodeMain_def)
  then have "nodeQuota n = Some \<lparr>ctl = c, nextProjectID = 20001, disk = d'\<rparr>"
    by (simp add: nodeQuota_def GetQuotaControl_def g ids)
  then show ?thesis using n(1) new by auto
qed

theorem node_ids_unique_and_authorized_witness:
  "\<exists>n st0 st. exampleNode = NodeUp n \<and> nodeQuota n = Some st0 \<and>
     webRun [(exampleSvc, API_SETQUOTA, exampleParam)] (Some st0) = Some st \<and> quotas (ctl st) ''/d/u'' = Some 20000"
proof -
  obtain n st0 where up: "exampleNode = NodeUp n" "nodeQuota n = Some st0" and st0: "projids (disk st0) = projids exampleDisk"
    "nextProjectID st0 = 20001" "quotas (ctl st0) = [''/d/u'' \<mapsto> 20000]" using exampleNode_up by blast
  have "\<forall>q. projids (disk st0) q \<noteq> - 1" by (simp add: st0 exampleDisk_def exampleState_def)
  moreover have "unat (nextProjectID st0) + length [(exampleSvc, API_SETQUOTA, exampleParam)] < 2 ^ 32" by (simp add: st0)
  ultimately obtain st where "webRun [(exampleSvc, API_SETQUOTA, exampleParam)] (Some st0) = Some st"
    "\<forall>p i. quotas (ctl st0) p = Some i \<longrightarrow> quotas (ctl st) p = Some i \<and> projids (disk st0) p = i"
    using node_ids_unique_and_authorized [OF up] by blast
  then show ?thesis using up st0(3) by auto
qed

end
