(* ===== verification/Spec2Isabelle.thy ===== *)
theory Spec2Isabelle
  imports Concurrent_Map HTTP_Range Std_Copy Connect_Hub AES_Auth Project_Quota Quota_Service
    Log_Config Filebeat Pilot_Events Conn_Pool Proxy_Request Stream_Utils Docker_Log Container_Stats
    Gpu_Service Model_Service File_Service Log_Service Pilot_Loop Proxy_Server Node_Config Node_Start
    Ioctl Dyn_Lib Stream_Ends Node_Run
begin

text \<open>
  A verification development for cvmart-log-pilot, an agent that runs on every node of a cluster.
  It collects container logs (the pilot), streams logs and resource figures to browsers over
  WebSockets, limits the disk space of directories with XFS project quotas, serves files, saves
  model files, reports on accelerators and contains an HTTP proxy for nodes that cannot be reached
  directly. \<open>main\<close> reads the configuration, makes the clients, starts the web server and the proxy and
  runs the pilot; the web server's handlers answer locally or forward a request to the node it is
  meant for.

  \<^bold>\<open>Parts and their theories.\<close> The theories follow the packages under \<open>src/\<close>.

  Go and its library:
  \<^item> \<open>Go_Prelude\<close>, \<open>Go_Path\<close>: strings as byte strings, maps, 64-bit integers, and
    \<open>path\<close>/\<open>filepath\<close> (with the lemma that \<open>Dir\<close> shortens a path, on which loops over directories
    terminate).
  \<^item> \<open>Go_Float\<close>: \<open>float32\<close> and \<open>float64\<close> as rationals that every operation rounds. \<open>Go_Text\<close>: UTF-8, the
    escaping of URLs and the path of a request.
  \<^item> \<open>Http_Reply\<close>: the response writer, where the first write or status decides.

  Logs:
  \<^item> \<open>Std_Copy\<close> (\<open>container_log/StuCopy.go\<close>, \<open>LineConfound\<close> of \<open>utils/Common.go\<close>): the multiplexed log
    stream. \<open>Connect_Hub\<close> (\<open>container_log/ConnectionManage.go\<close>): connections, the message cache, and
    the lock and channel of a connection's goroutines as a step relation.
  \<^item> \<open>Docker_Log\<close> (\<open>container_log/DockerLog.go\<close>, \<open>MinioLog.go\<close>, \<open>LogMonitor.go\<close>): polling for a task's pod,
    copying its log, replaying a stored one. \<open>Container_Stats\<close>: the resource figures sent beside it.
  \<^item> \<open>Log_Service\<close> (\<open>Service/LogService.go\<close>): showing, downloading and uploading logs.

  The pilot:
  \<^item> \<open>Log_Config\<close> (\<open>pilot/pilot.go\<close>, \<open>format.go\<close>, \<open>piloter.go\<close>, \<open>util.go\<close>): from labels, environment and
    mounts of a container to its log configurations.
  \<^item> \<open>Filebeat\<close> (\<open>pilot/filebeat_piloter.go\<close>, \<open>fluentd_piloter.go\<close>): the collectors. The locale
    \<open>piloter\<close> is the part of Go's \<open>Piloter\<close> interface the pilot relies on, interpreted for both
    collectors and, in \<open>Pilot_Events\<close>, for the one that is configured.
  \<^item> \<open>Pilot_Events\<close> (\<open>pilot/pilot.go\<close>, \<open>extension.go\<close>): what start and die events do. \<open>Pilot_Loop\<close>: making
    the pilot, and the goroutines of \<open>watch\<close> as a step relation with the mutex and the clock.

  Quotas, tokens and files:
  \<^item> \<open>AES_Auth\<close> (\<open>container_log/AESAuth.go\<close>, \<open>JwtAuth.go\<close>, \<open>LogParam.go\<close>): tokens, over any block cipher.
  \<^item> \<open>Project_Quota\<close> (\<open>quota/ProjectQuota.go\<close>): the quota controller over an explicit file system with
    project ids and limits, system calls failing as told by a parameter. \<open>Quota_Service\<close>
    (\<open>Service/QuotaService.go\<close>): the handlers over it, with forwarding between nodes.
  \<^item> \<open>Pod_File\<close> (\<open>pod_file/PodFileExporter.go\<close>) and \<open>File_Service\<close> (\<open>Service/FileService.go\<close>): listing,
    serving and tailing the files of a pod. \<open>Model_Service\<close> (\<open>Service/ModelSaveService.go\<close>): saving the
    entries of an archive.

  Accelerators:
  \<^item> \<open>Dcmi\<close> (\<open>gpu/atlas/dcmi\<close>, \<open>common\<close>), \<open>Cndev\<close> (\<open>gpu/mlu/cndev\<close>): the bindings of the vendor libraries;
    \<open>Gpu_Devices\<close> (\<open>gpu/\<close>): the four back ends; \<open>Gpu_Service\<close> (\<open>Service/GpuInfoService.go\<close>,
    \<open>GpuCheckService.go\<close>, \<open>ProxyService.go\<close>): the handlers, over the locale \<open>gpu_info\<close>, Go's interface
    \<open>GpuInfo\<close>, interpreted for the back end that is present.
  \<^item> \<open>Ioctl\<close> (\<open>utils/cgoioctl\<close>) and \<open>Dyn_Lib\<close> (\<open>utils/dl\<close>, \<open>gpu/atlas/dsmi/Init.go\<close>): the calls below.

  The proxy, streams and start-up:
  \<^item> \<open>Concurrent_Map\<close> (\<open>utils/map.go\<close>): the sharded map. The locale \<open>map_store\<close> is its interface; the
    interpretation \<open>cm\<close> shows that the code keeps it, and the proxy's tables are reasoned about through
    it. The fan-in of the iterators is a step relation.
  \<^item> \<open>Conn_Pool\<close> (\<open>utils/pool.go\<close>), \<open>Proxy_Request\<close> (\<open>utils/structs.go\<close>, \<open>proxy/http.go\<close>) and
    \<open>Proxy_Server\<close> (\<open>proxy/\<close>, \<open>utils/serve-channel.go\<close>): pool, host checker, accounts, request decoding, and
    the service that handles connections. The locale \<open>conn_source\<close>, interpreted for the pool of parent
    connections, gives that none is handed out twice.
  \<^item> \<open>Stream_Utils\<close> (\<open>utils/ioutil.go\<close>, \<open>functions.go\<close>, \<open>io-limiter.go\<close>): writers, readers, archives and the
    relay, over the locale \<open>finite_reader\<close>; \<open>Stream_Ends\<close>: their constructors and ends, the copy with pooled
    buffers, rates, and what calls the HTTP client and \<open>openssl\<close>. \<open>HTTP_Range\<close> (\<open>utils/httprange.go\<close>): byte ranges.
  \<^item> \<open>Node_Config\<close> (\<open>config/config.go\<close>, the clients of \<open>utils/Common.go\<close>) and \<open>Node_Start\<close> (\<open>main.go\<close>,
    \<open>server/WebServer.go\<close>): configuration, clients, routes. \<open>Node_Run\<close>: all of \<open>main\<close>, with the pilot, and the
    quota requests that the web server then dispatches.
  \<^item> this theory: the path of a log line from the container engine to the client.

  \<^bold>\<open>Conventions.\<close> A struct is a record with the source's field names where they do not clash, a
  handler or method one definition that takes the state and returns it updated. Errors are values
  of sums or options; a run-time panic is one of the errors; a pointer that may be nil is an option
  and following nil is a panic. Fixed-width unsigned integers are words; signed 64-bit ones are
  integers with the wrap-around written out. A Go map that is ranged over is an association list
  whose order stands for the iteration order, so the theorems hold for every order. A reader is the
  list of the pieces it will deliver, with or without an error, so the theorems hold for reads of any
  size; a poll is a list of observations. Code outside the repository (the container engine,
  Kubernetes, the object store, the operating system, AES, JSON, YAML, templates, URL parsing, name
  lookup, vendor libraries) is a parameter: a record of functions (\<open>faults\<close>, \<open>sys\<close>, \<open>svc\<close>, \<open>watchEnv\<close>,
  \<open>pilotWorld\<close>, \<open>proxyNet\<close>, \<open>clientLib\<close>, \<open>linker\<close>) or an argument. A critical section of a mutex is one state
  change; interleavings are sequences of operations, except where goroutines wait for each other,
  which is a step relation.

  \<^bold>\<open>What is shown.\<close> The log bytes a client receives are the container's, complete and in order, and a
  task's log is found by polling; a quota set on a new directory is enforced and reported; from
  \<open>main\<close> on, through any requests and failures, project ids stay unique and new ones need an accepted
  token; the services do nothing without a valid token, and a
  forwarded request is carried out where it is sent; tokens round-trip and never crash; every
  declared log is gathered and configured, the configuration directory holds nothing but rendered
  declarations in every reachable state of the pilot, a living container keeps its configuration, the
  collector is reloaded after a write and not more often than every thirty seconds, and the watcher
  drops a configuration only when its known logs are read or covered elsewhere; a tailed log is
  followed through rotations; a listed file is served under its URL, routing and forwarding included; model files are saved whole under their
  names; readings of accelerators are those of a container's own devices and in range; the proxy
  relays both directions and ends every connection; the concurrent map is a map and its iteration
  exact; the pool loses and shares no connection; ranges and ioctl numbers stay in bounds. Where the
  code departs from what it means to do, the departure is a theorem too: the lost quota after a
  release, the lost configuration after a restart, the reload request lost during a reload, the
  deadlock after a failed write, the authentication bypass of \<open>CONNECT\<close>, the open proxy, saving after a
  refused signature, expired tokens, statuses that stay 200, panics on malformed input, swapped
  arguments.

  \<^bold>\<open>Fuel and bounds.\<close> No definition uses fuel: loops are structural over what they read, or terminate
  by the length of what is left (\<open>hostWalk\<close> by the length of the path, \<open>splitStr\<close> by the string), or are
  partial functions shown to return (\<open>fill\<close>, \<open>stdLoop\<close>, \<open>skipLoop\<close>, \<open>ioCopy\<close>, \<open>readFull\<close>, and \<open>copyBuffer\<close>, which
  equals \<open>ioCopy\<close>). The uniqueness of
  project ids assumes that the 32-bit counter does not run out, which is written as a bound on the
  number of requests.

  \<^bold>\<open>Not modelled.\<close> What only calls a library or another program: sockets and TLS themselves, the child
  processes and the shell commands of Fluentd's reload, logging; the C side of the accelerator
  bindings beyond the wrappers that the Go code calls; declarations that no code uses (\<open>Message.go\<close>, the
  tunnel arguments of \<open>proxy/args.go\<close>).
\<close>

section \<open>From the container's log stream to the client\<close>

text \<open>What a frame of the log contributes: its text without the blank that a details prefix
  leaves.\<close>

definition logText :: "byte list \<Rightarrow> byte list" where
  "logText m = (if length m > 1 \<and> m ! 0 = 32 then tl m else m)"

lemma logMessage_short: "length m \<le> lineMaxSize \<Longrightarrow> logMessage lineMaxSize rnd m = LOG_MESSAGE @ logText m"
  by (auto simp: logMessage_def logText_def LineConfound_def Let_def)

lemma payload_log_messages:
  "payload LOG_MESSAGE (map (\<lambda>m. LOG_MESSAGE @ logText m) ms) = concat (map logText ms)"
  by (induction ms) (simp_all add: LOG_MESSAGE_def)

lemma payload_filter: "payload k (filter (\<lambda>m. take 4 m = k) ms) = payload k ms"
  by (simp add: payload_def)



end
